(* ===== verification/Prelude.thy ===== *)
theory Prelude
  imports Main "HOL-Library.Word" "HOL-Library.Sublist" "HOL-Library.Char_ord"
    "HOL-Library.List_Lexorder" "HOL-Library.Monad_Syntax"
begin

text \<open>
  Shared vocabulary of the development.

  Types: bytes and machine integers are words of their width; a C++ computation that may
  throw is a value of \<open>'a cxx\<close>, a sum whose left side names the exception that left
  the function or undefined behaviour of the language. The prelude also holds the generic
  facts on lists and words that several components use, and the theorem collections the
  component proofs feed to the simplifier.
\<close>

unbundle bit_operations_syntax

section \<open>Machine types and results\<close>

type_synonym byte = "8 word"
type_synonym u16 = "16 word"
type_synonym u32 = "32 word"
type_synonym u64 = "64 word"

text \<open>
  What can leave a C++ function instead of a value: the standard exceptions the code throws
  (with their \<open>what()\<close> text), the exceptions of the JSON library it catches, an RPC
  exception (code and text), and undefined behaviour.
\<close>

datatype cxx_error =
    RuntimeError string
  | InvalidArgument string
  | OutOfRange string
  | JsonParseError
  | JsonException
  | RpcCallException int string
  | Undefined

type_synonym 'a cxx = "cxx_error + 'a"

definition cxx_bind :: "'a cxx \<Rightarrow> ('a \<Rightarrow> 'b cxx) \<Rightarrow> 'b cxx" where
  "cxx_bind m f = (case m of Inl e \<Rightarrow> Inl e | Inr x \<Rightarrow> f x)"


lemma cxx_bind_simps [simp]:
  "cxx_bind (Inl e) f = Inl e"
  "cxx_bind (Inr x) f = f x"
  by (simp_all add: cxx_bind_def)

lemma cxx_bind_assoc [simp]:
  "cxx_bind (cxx_bind m f) g = cxx_bind m (\<lambda>x. cxx_bind (f x) g)"
  by (cases m) simp_all

lemma cxx_bind_eq_Inr:
  "cxx_bind m f = Inr y \<longleftrightarrow> (\<exists>x. m = Inr x \<and> f x = Inr y)"
  by (cases m) simp_all

lemma cxx_bind_cong [fundef_cong]:
  "m = m' \<Longrightarrow> (\<And>x. m' = Inr x \<Longrightarrow> f x = f' x) \<Longrightarrow> cxx_bind m f = cxx_bind m' f'"
  by (cases m') simp_all

section \<open>Lists\<close>

lemma last_update_snoc [simp]: "(xs @ [y])[length xs := z] = xs @ [z]"
  by (induction xs) simp_all

lemma takeWhile_append_stop:
  "\<forall>x \<in> set xs. P x \<Longrightarrow> \<not> P y \<Longrightarrow> takeWhile P (xs @ y # zs) = xs"
  by (induction xs) auto

lemma dropWhile_append_stop:
  "\<forall>x \<in> set xs. P x \<Longrightarrow> \<not> P y \<Longrightarrow> dropWhile P (xs @ y # zs) = y # zs"
  by (induction xs) auto

lemma take_append_length [simp]: "take (length xs) (xs @ ys) = xs"
  by simp

lemma drop_append_length [simp]: "drop (length xs) (xs @ ys) = ys"
  by simp

section \<open>Words\<close>

lemma unat_drop_bit: "unat (drop_bit n (w :: 'a::len word)) = unat w div 2 ^ n"
  by (subst unat_drop_bit_eq) (simp add: drop_bit_eq_div)

lemma unat_take_bit: "unat (take_bit n (w :: 'a::len word)) = unat w mod 2 ^ n"
  by (subst unsigned_take_bit_eq) (simp add: take_bit_eq_mod)

lemma drop_bit_less_word:
  fixes i :: "'a::len word"
  assumes "i \<noteq> 0" and "0 < n"
  shows "unat (drop_bit n i) < unat i"
proof -
  have "(1::nat) < 2 ^ n" using assms(2) one_less_power [of "2::nat" n] by simp
  moreover have "0 < unat i" using assms(1) by (simp add: unat_gt_0)
  ultimately have "unat i div 2 ^ n < unat i" by (rule div_less_dividend)
  then show ?thesis by (simp add: unat_drop_bit)
qed

end
