(* ===== verification/Varint.thy ===== *)
theory Varint
  imports Prelude
begin

text \<open>
  The variable-length integer codec of the IPC library
  (\<^verbatim>\<open>simple-ipc/src/common/encoding/varint.cpp\<close>). An \<^verbatim>\<open>unsigned long long\<close> is a
  64-bit word, a \<^verbatim>\<open>char\<close> buffer a list of bytes. The decoder shifts a promoted
  \<^verbatim>\<open>int\<close>, so its shift is modelled at 32 bits with the language's rules.
\<close>

section \<open>Encoding\<close>

function varint_loop :: "u64 \<Rightarrow> byte list" where
  "varint_loop i =
     ((ucast i :: byte) OR 0x80) #
     (let i' = drop_bit 7 i in if i' > 0 then varint_loop i' else [])"
  by pat_completeness auto
termination
proof (relation "measure unat")
  fix i x :: u64 assume "x = drop_bit 7 i" "0 < x"
  then have "i \<noteq> 0" by auto
  with \<open>x = drop_bit 7 i\<close> show "(x, i) \<in> measure unat"
    by (simp add: drop_bit_less_word)
qed simp

declare varint_loop.simps [simp del]

definition encode_unsigned :: "u64 \<Rightarrow> byte list" where
  "encode_unsigned i =
     (let out = varint_loop i
      in out[length out - 1 := (out ! (length out - 1)) AND 0x7F])"

section \<open>Decoding\<close>

text \<open>
  \<^verbatim>\<open>E1 << E2\<close> on a non-negative \<^verbatim>\<open>int\<close> (32 bits): undefined when the shift count
  is not below the width, or when \<^verbatim>\<open>E1 * 2^E2\<close> does not fit the unsigned type;
  otherwise the bits of the product, which read back as an \<^verbatim>\<open>int\<close> may be negative.
\<close>

definition shl_int :: "u32 \<Rightarrow> nat \<Rightarrow> u32 option" where
  "shl_int x n = (if n < 32 \<and> unat x * 2 ^ n < 2 ^ 32 then Some (push_bit n x) else None)"

text \<open>The loop body runs for the offsets below \<^verbatim>\<open>ins\<close>; a result is the value and the length.\<close>

fun try_decode_loop :: "byte list \<Rightarrow> nat \<Rightarrow> u64 \<Rightarrow> (u64 \<times> nat) option cxx" where
  "try_decode_loop [] off tmp = Inr None"
| "try_decode_loop (b # bs) off tmp =
     (case shl_int (ucast b AND 127) (off * 7) of
        None \<Rightarrow> Inl Undefined
      | Some v \<Rightarrow>
          let tmp = tmp OR scast v in
          if drop_bit 7 b = 0 then Inr (Some (tmp, off + 1))
          else try_decode_loop bs (off + 1) tmp)"

definition try_decode_unsigned :: "byte list \<Rightarrow> (u64 \<times> nat) option cxx" where
  "try_decode_unsigned ins = try_decode_loop (take 9 ins) 0 0"

definition decode_unsigned :: "byte list \<Rightarrow> (u64 \<times> nat) cxx" where
  "decode_unsigned ins =
     cxx_bind (try_decode_unsigned ins) (\<lambda>r.
       case r of None \<Rightarrow> Inl (RuntimeError ''Invalid varint'') | Some x \<Rightarrow> Inr x)"

section \<open>Shape and length of an encoding\<close>

lemma varint_loop_nonempty [simp]: "varint_loop i \<noteq> []"
  by (subst varint_loop.simps) simp

lemma encode_unsigned_rec:
  "encode_unsigned i =
     (if drop_bit 7 i = 0 then [(ucast i OR 0x80) AND 0x7F]
      else (ucast i OR 0x80) # encode_unsigned (drop_bit 7 i))"
proof (cases "drop_bit 7 i = 0")
  case True
  then show ?thesis
    by (simp add: encode_unsigned_def varint_loop.simps [of i])
next
  case False
  then have "varint_loop i = (ucast i OR 0x80) # varint_loop (drop_bit 7 i)"
    by (simp add: varint_loop.simps [of i] word_gt_0)
  moreover obtain x xs where "varint_loop (drop_bit 7 i) = x # xs"
    by (cases "varint_loop (drop_bit 7 i)") simp_all
  ultimately show ?thesis
    using False by (simp add: encode_unsigned_def Let_def)
qed

lemma encode_unsigned_nonempty [simp]: "encode_unsigned i \<noteq> []"
  by (subst encode_unsigned_rec) simp

lemma length_encode_unsigned_le:
  "unat i < 2 ^ (7 * k) \<Longrightarrow> 0 < k \<Longrightarrow> length (encode_unsigned i) \<le> k"
proof (induction k arbitrary: i)
  case 0
  then show ?case by simp
next
  case (Suc k)
  show ?case
  proof (cases "drop_bit 7 i = 0")
    case True
    then show ?thesis by (subst encode_unsigned_rec) simp
  next
    case False
    have "unat i < 2 ^ (7 * k) * 2 ^ 7"
      using Suc.prems(1) by (simp add: power_add mult.commute)
    then have lt: "unat (drop_bit 7 i) < 2 ^ (7 * k)"
      by (simp add: unat_drop_bit less_mult_imp_div_less)
    moreover have "0 < k"
    proof (rule ccontr)
      assume "\<not> 0 < k"
      with lt have "unat (drop_bit 7 i) = 0" by simp
      with False show False by (simp add: unat_eq_zero)
    qed
    ultimately have "length (encode_unsigned (drop_bit 7 i)) \<le> k"
      by (rule Suc.IH)
    with False show ?thesis by (subst encode_unsigned_rec) simp
  qed
qed

section \<open>One step of the decoder over an encoding\<close>

lemma shl_int_group:
  assumes "unat x < 2 ^ 7" and "n \<le> 24"
  shows "shl_int x n = Some (push_bit n x)"
proof -
  have "unat x * 2 ^ n < 2 ^ 7 * 2 ^ n" using assms(1) by simp
  also have "\<dots> \<le> 2 ^ 7 * 2 ^ 24" using assms(2) by (intro mult_left_mono power_increasing) simp_all
  finally have "unat x * 2 ^ n < 2 ^ 32" by simp
  with assms(2) show ?thesis by (simp add: shl_int_def)
qed

lemma group_of_byte:
  "(ucast ((ucast i OR 0x80) :: byte) AND 127 :: u32) = ucast (take_bit 7 (i :: u64))"
  by (rule bit_word_eqI)
    (auto simp: bit_simps numeral_eq_Suc less_Suc_eq)

lemma scast_group:
  "n \<le> 21 \<Longrightarrow> (scast (push_bit n (ucast (take_bit 7 i) :: u32)) :: u64) = push_bit n (take_bit 7 (i :: u64))"
  by (rule bit_word_eqI) (auto simp: bit_simps)

lemma byte_high_bit:
  "drop_bit 7 ((ucast (i :: u64) OR 0x80) :: byte) \<noteq> 0"
  "drop_bit 7 (((ucast (i :: u64) OR 0x80) AND 0x7F) :: byte) = 0"
  by (simp add: or_eq_0_iff) (rule bit_word_eqI, auto simp: bit_simps)

lemma group_of_last_byte:
  "(ucast (((ucast i OR 0x80) AND 0x7F) :: byte) AND 127 :: u32) = ucast (take_bit 7 (i :: u64))"
  by (rule bit_word_eqI)
    (auto simp: bit_simps numeral_eq_Suc less_Suc_eq)

lemma unat_group: "unat (ucast (take_bit 7 (i :: u64)) :: u32) = unat i mod 2 ^ 7"
  proof -
  have "unat (ucast (take_bit 7 i) :: u32) = unat (take_bit 7 i) mod 2 ^ 32"
    by (simp only: unsigned_ucast_eq take_bit_eq_mod len_num0 len_num1 len_bit0 len_bit1) simp
  also have "\<dots> = unat i mod 2 ^ 7"
  proof -
    have "unat i mod 2 ^ 7 < 2 ^ 7" by (rule mod_less_divisor) simp
    then show ?thesis by (simp only: unat_take_bit) simp
  qed
  finally show ?thesis .
qed

lemma decode_step:
  assumes "drop_bit 7 i \<noteq> 0" and "off \<le> 3"
  shows "try_decode_loop (take (Suc n) (encode_unsigned i @ rest)) off tmp =
    try_decode_loop (take n (encode_unsigned (drop_bit 7 i) @ rest)) (Suc off)
      (tmp OR push_bit (off * 7) (take_bit 7 i))"
  using assms
  by (subst encode_unsigned_rec)
    (simp add: group_of_byte shl_int_group unat_group or_eq_0_iff scast_group)

lemma decode_stop:
  assumes "drop_bit 7 i = 0" and "off \<le> 3"
  shows "try_decode_loop (take (Suc n) (encode_unsigned i @ rest)) off tmp =
    Inr (Some (tmp OR push_bit (off * 7) (take_bit 7 i), Suc off))"
  using assms
  by (subst encode_unsigned_rec)
    (simp add: group_of_last_byte shl_int_group unat_group byte_high_bit scast_group)

lemma groups_merge:
  "take_bit 7 i OR push_bit 7 (take_bit k (drop_bit 7 i)) = take_bit (7 + k) (i :: u64)"
  by (rule bit_word_eqI) (auto simp: bit_simps)

lemma decode_prefix:
  "off + k \<le> 4 \<Longrightarrow> drop_bit (7 * k) i \<noteq> 0 \<Longrightarrow> k \<le> n \<Longrightarrow>
   try_decode_loop (take n (encode_unsigned i @ rest)) off tmp =
   try_decode_loop (take (n - k) (encode_unsigned (drop_bit (7 * k) i) @ rest)) (off + k)
     (tmp OR push_bit (off * 7) (take_bit (7 * k) i)) \<and>
   length (encode_unsigned i) = k + length (encode_unsigned (drop_bit (7 * k) i))"
proof (induction k arbitrary: off i n tmp)
  case 0
  then show ?case by simp
next
  case (Suc k)
  let ?j = "drop_bit 7 i"
  have dk: "drop_bit (7 * k) ?j = drop_bit (7 * Suc k) i"
    by (simp add: add.commute)
  have j0: "?j \<noteq> 0" using Suc.prems(2) dk by fastforce
  obtain m where n: "n = Suc m" using Suc.prems(3) by (cases n) simp_all
  have "try_decode_loop (take n (encode_unsigned i @ rest)) off tmp =
    try_decode_loop (take m (encode_unsigned ?j @ rest)) (Suc off)
      (tmp OR push_bit (off * 7) (take_bit 7 i))"
    unfolding n using j0 Suc.prems(1) by (intro decode_step) simp_all
  also have "\<dots> = try_decode_loop
      (take (m - k) (encode_unsigned (drop_bit (7 * k) ?j) @ rest)) (Suc off + k)
      ((tmp OR push_bit (off * 7) (take_bit 7 i)) OR push_bit (Suc off * 7) (take_bit (7 * k) ?j))"
    using Suc.prems n dk by (intro conjunct1 [OF Suc.IH]) simp_all
  also have "(tmp OR push_bit (off * 7) (take_bit 7 i)) OR
      push_bit (Suc off * 7) (take_bit (7 * k) ?j) =
    tmp OR push_bit (off * 7) (take_bit (7 * Suc k) i)"
    by (simp flip: groups_merge add: push_bit_or or.assoc add.commute)
  finally have "try_decode_loop (take n (encode_unsigned i @ rest)) off tmp =
    try_decode_loop (take (m - k) (encode_unsigned (drop_bit (7 * k) ?j) @ rest)) (Suc off + k)
      (tmp OR push_bit (off * 7) (take_bit (7 * Suc k) i))" .
  moreover have "length (encode_unsigned ?j) = k + length (encode_unsigned (drop_bit (7 * k) ?j))"
    using Suc.prems n dk by (intro conjunct2 [OF Suc.IH [of "Suc off" ?j m]]) simp_all
  moreover have "length (encode_unsigned i) = Suc (length (encode_unsigned ?j))"
    using j0 by (subst encode_unsigned_rec) simp
  ultimately show ?case
    unfolding dk using n by (simp del: take_append)
qed

text \<open>The fifth group is the first whose shift can leave the \<^verbatim>\<open>int\<close>.\<close>

lemma decode_fifth:
  assumes "drop_bit 7 i = 0"
  shows "try_decode_loop (take (Suc n) (encode_unsigned i @ rest)) 4 tmp =
    (if unat i < 8 then Inr (Some (tmp OR push_bit 28 i, 5))
     else if unat i < 16 then Inr (Some (tmp OR push_bit 28 i OR 0xFFFFFFFF00000000, 5))
     else Inl Undefined)"
proof -
  have lt: "unat i < 128"
    using assms unat_drop_bit [of 7 i] by simp
  have i: "take_bit 7 i = i"
    using lt by (intro word_unat_eq_iff [THEN iffD2]) (simp add: unat_take_bit)
  have shl: "shl_int (ucast i) 28 = (if unat i < 16 then Some (push_bit 28 (ucast i)) else None)"
    using lt unat_group [of i] i by (simp add: shl_int_def)
  have all: "(scast (push_bit 28 (word_of_nat k :: u32)) :: u64) =
      (if k < 8 then push_bit 28 (word_of_nat k)
       else push_bit 28 (word_of_nat k) OR 0xFFFFFFFF00000000)" if "k < 16" for k :: nat
  proof -
    from that have "k \<in> {0, 1, 2, 3, 4, 5, 6, 7, 8, 9, 10, 11, 12, 13, 14, 15}"
      by (simp, arith)
    then show ?thesis by (elim insertE) simp_all
  qed
  have "unat i < 16 \<Longrightarrow> (scast (push_bit 28 (ucast i :: u32)) :: u64) =
      (if unat i < 8 then push_bit 28 i else push_bit 28 i OR 0xFFFFFFFF00000000)"
    using all [of "unat i"] by simp
  with shl show ?thesis
    using assms by (subst encode_unsigned_rec)
      (simp add: group_of_last_byte i byte_high_bit or.assoc)
qed

lemma push_take_drop:
  "take_bit n i OR push_bit n (drop_bit n i) = (i :: u64)"
proof (rule bit_word_eqI)
  fix m :: nat
  show "bit (take_bit n i OR push_bit n (drop_bit n i)) m = bit i m" if "m < LENGTH(64)"
    using that by (cases "m < n") (auto simp: bit_simps)
qed

lemma decode_short:
  assumes "k \<le> 3" and "drop_bit (7 * k) i \<noteq> 0 \<or> k = 0" and "drop_bit (7 * Suc k) i = 0"
  shows "try_decode_unsigned (encode_unsigned i @ rest) =
    Inr (Some (i, length (encode_unsigned i)))"
proof -
  let ?j = "drop_bit (7 * k) i"
  have j: "drop_bit 7 ?j = 0" using assms(3) by (simp add: add.commute)
  have len: "length (encode_unsigned ?j) = 1"
    using j by (subst encode_unsigned_rec) simp
  have pre: "try_decode_unsigned (encode_unsigned i @ rest) =
      try_decode_loop (take (9 - k) (encode_unsigned ?j @ rest)) k (take_bit (7 * k) i) \<and>
    length (encode_unsigned i) = k + length (encode_unsigned ?j)"
    using assms(1,2) decode_prefix [of 0 k i 9 rest 0]
    by (auto simp: try_decode_unsigned_def)
  have "take_bit 7 ?j = ?j"
    using j push_take_drop [of 7 ?j] by simp
  then have "take_bit (7 * k) i OR push_bit (k * 7) (take_bit 7 ?j) = i"
    using push_take_drop [of "7 * k" i] by (simp add: mult.commute)
  moreover have "9 - k = Suc (8 - k)" using assms(1) by simp
  ultimately show ?thesis
    using pre len decode_stop [OF j assms(1), of "8 - k" rest]
    by (simp del: take_append)
qed

lemma decode_long:
  assumes "drop_bit 28 i \<noteq> 0"
  shows "try_decode_unsigned (encode_unsigned i @ rest) =
    (if unat i < 2 ^ 31 then Inr (Some (i, length (encode_unsigned i)))
     else if unat i < 2 ^ 32 then Inr (Some (i OR 0xFFFFFFFF00000000, 5))
     else Inl Undefined)"
proof -
  let ?j = "drop_bit 28 i"
  have pre: "try_decode_unsigned (encode_unsigned i @ rest) =
      try_decode_loop (take (Suc 4) (encode_unsigned ?j @ rest)) 4 (take_bit 28 i)"
    and len: "length (encode_unsigned i) = 4 + length (encode_unsigned ?j)"
    using assms decode_prefix [of 0 4 i 9 rest 0]
    by (simp_all add: try_decode_unsigned_def del: take_append)
  have uj: "unat ?j = unat i div 2 ^ 28" by (rule unat_drop_bit)
  show ?thesis
  proof (cases "drop_bit 7 ?j = 0")
    case True
    have "unat ?j < 8 \<longleftrightarrow> unat i < 2 ^ 31" "unat ?j < 16 \<longleftrightarrow> unat i < 2 ^ 32"
      unfolding uj by (simp_all add: div_less_iff_less_mult)
    moreover have "length (encode_unsigned ?j) = 1"
      using True by (subst encode_unsigned_rec) simp
    ultimately show ?thesis
      unfolding pre decode_fifth [OF True, of 4 rest "take_bit 28 i"]
      using len push_take_drop [of 28 i] by (simp add: or.assoc [symmetric])
  next
    case False
    have "128 \<le> unat ?j"
      using False unat_drop_bit [of 7 ?j] by (auto simp: unat_eq_zero [symmetric] simp del: unat_eq_zero)
    then have "\<not> unat i < 2 ^ 32" unfolding uj by simp
    moreover have "try_decode_loop (take (Suc 4) (encode_unsigned ?j @ rest)) 4 tmp = Inl Undefined" for tmp
    proof -
      obtain b bs where "encode_unsigned (drop_bit 7 ?j) = b # bs"
        by (cases "encode_unsigned (drop_bit 7 ?j)") simp_all
      with False show ?thesis
        by (subst encode_unsigned_rec)
          (simp add: group_of_byte shl_int_def or_eq_0_iff Let_def)
    qed
    ultimately show ?thesis unfolding pre by simp
  qed
qed

lemma try_decode_encode:
  "try_decode_unsigned (encode_unsigned i @ rest) =
    (if i < 2 ^ 31 then Inr (Some (i, length (encode_unsigned i)))
     else if i < 2 ^ 32 then Inr (Some (i OR 0xFFFFFFFF00000000, 5))
     else Inl Undefined)"
proof (cases "drop_bit 28 i = 0")
  case False
  have "(unat i < 2 ^ 31) = (i < 2 ^ 31)" "(unat i < 2 ^ 32) = (i < 2 ^ 32)"
    by (simp_all add: word_less_nat_alt)
  with decode_long [OF False, of rest] show ?thesis by simp
next
  case True
  then have "i < 2 ^ 31"
    using unat_drop_bit [of 28 i] by (simp add: word_less_nat_alt div_eq_0_iff)
  moreover obtain k where "k \<le> 3" "drop_bit (7 * k) i \<noteq> 0 \<or> k = 0" "drop_bit (7 * Suc k) i = 0"
  proof -
    consider "drop_bit 7 i = 0" | "drop_bit 7 i \<noteq> 0" "drop_bit 14 i = 0"
      | "drop_bit 14 i \<noteq> 0" "drop_bit 21 i = 0" | "drop_bit 21 i \<noteq> 0"
      by blast
    then show thesis
      using that [of 0] that [of 1] that [of 2] that [of 3] True by cases simp_all
  qed
  ultimately show ?thesis by (simp add: decode_short)
qed

section \<open>A cut encoding\<close>

lemma unat_low_group: "unat ((ucast (b :: byte) :: u32) AND 127) < 128"
proof -
  have "(ucast b :: u32) AND 127 = take_bit 7 (ucast b)"
    by (rule bit_word_eqI) (auto simp: bit_simps numeral_eq_Suc less_Suc_eq)
  then show ?thesis by (simp add: unat_take_bit)
qed

lemma decode_continue:
  "\<forall>b \<in> set bs. drop_bit 7 b \<noteq> 0 \<Longrightarrow> off + length bs \<le> 4 \<Longrightarrow>
   try_decode_loop bs off tmp = Inr None"
  by (induction bs arbitrary: off tmp) (simp_all add: shl_int_group unat_low_group Let_def)

lemma encode_butlast_continue: "b \<in> set (butlast (encode_unsigned i)) \<Longrightarrow> drop_bit 7 b \<noteq> 0"
proof (induction "unat i" arbitrary: i rule: less_induct)
  case less
  show ?case
  proof (cases "drop_bit 7 i = 0")
    case True
    with less.prems show ?thesis by (subst (asm) encode_unsigned_rec) simp
  next
    case False
    then have "unat (drop_bit 7 i) < unat i" by (intro drop_bit_less_word) auto
    with less False byte_high_bit(1) [of i] show ?thesis
      by (subst (asm) encode_unsigned_rec) auto
  qed
qed

lemma encode_last_stop: "drop_bit 7 (last (encode_unsigned i)) = 0"
proof (induction "unat i" arbitrary: i rule: less_induct)
  case less
  show ?case
  proof (cases "drop_bit 7 i = 0")
    case True
    then show ?thesis by (subst encode_unsigned_rec) (simp add: byte_high_bit)
  next
    case False
    then have "unat (drop_bit 7 i) < unat i" by (intro drop_bit_less_word) auto
    with less False show ?thesis by (subst encode_unsigned_rec) simp
  qed
qed

lemma try_decode_cut:
  assumes "i < 2 ^ 31" and "encode_unsigned i = p @ q" and "q \<noteq> []"
  shows "try_decode_unsigned p = Inr None"
proof -
  have "unat i < 2 ^ (7 * 5)" using assms(1) by (simp add: word_less_nat_alt)
  then have "length (encode_unsigned i) \<le> 5" by (rule length_encode_unsigned_le) simp
  moreover from assms(3) have "1 \<le> length q" by (cases q) simp_all
  ultimately have "length p \<le> 4" using assms(2) by simp
  moreover have "set p \<subseteq> set (butlast (encode_unsigned i))"
    using assms(2,3) by (simp add: butlast_append)
  ultimately show ?thesis
    unfolding try_decode_unsigned_def
    by (intro decode_continue) (auto dest: encode_butlast_continue)
qed

section \<open>Properties\<close>

text \<open>
  C10 (varint_roundtrip). Decoding an encoded value gives the value and its length when the value is below
  2^31, whatever follows it in the buffer; from 2^31 on the 32-bit shift of the decoder is sign-extended
  and sets the upper half of the result, and from 2^32 on it is undefined behaviour.
\<close>

theorem varint_roundtrip:
  "try_decode_unsigned (encode_unsigned i @ rest) =
    (if i < 2 ^ 31 then Inr (Some (i, length (encode_unsigned i)))
     else if i < 2 ^ 32 then Inr (Some (i OR 0xFFFFFFFF00000000, 5))
     else Inl Undefined)"
  by (rule try_decode_encode)

text \<open>
  C22 (varint_length). An encoding has between 1 and 10 bytes, 10 being the size of the caller's array; a value
  below 2^(7k) takes at most k bytes; the last byte and no other has its high bit clear.
\<close>

theorem varint_length:
  "1 \<le> length (encode_unsigned i) \<and> length (encode_unsigned i) \<le> 10 \<and>
   (\<forall>k. 0 < k \<longrightarrow> unat i < 2 ^ (7 * k) \<longrightarrow> length (encode_unsigned i) \<le> k) \<and>
   drop_bit 7 (last (encode_unsigned i)) = 0 \<and>
   (\<forall>b \<in> set (butlast (encode_unsigned i)). drop_bit 7 b \<noteq> 0)"
proof -
  have "unat i < 2 ^ 64" using unsigned_less [of i, where ?'a = nat] by simp
  also have "\<dots> < 2 ^ (7 * 10)" by simp
  finally have "length (encode_unsigned i) \<le> 10" by (rule length_encode_unsigned_le) simp
  then show ?thesis
    by (auto simp: Suc_le_eq encode_last_stop length_encode_unsigned_le dest: encode_butlast_continue)
qed

theorem varint_length_witness:
  "length (encode_unsigned 300) \<le> 2 \<and> drop_bit 7 (hd (encode_unsigned 300)) \<noteq> 0"
proof -
  have "butlast (encode_unsigned 300) = [0xAC]"
    by (simp add: encode_unsigned_def varint_loop.simps)
  with varint_length [of 300] show ?thesis
    by (auto simp: encode_unsigned_def varint_loop.simps dest: spec [of _ 2])
qed

end
