(* ===== verification/Ipc_Message.thy ===== *)
theory Ipc_Message
  imports Varint
begin

text \<open>
  Messages, error codes and results of the IPC library (\<^verbatim>\<open>simple-ipc/include/simpleipc/common\<close>
  and \<^verbatim>\<open>simple-ipc/src/common/message\<close>).

  The JSON library the code links against is not part of the repository. It is a parameter: a
  record \<open>json_lib\<close> of the operations the code calls, over an abstract type of values.
  \<open>json_laws\<close> names what the code relies on of the value operations; the text and binary
  codecs have no law here, a theorem that needs one states it for the values it sends.
\<close>

section \<open>The JSON library as a parameter\<close>

record 'j json_lib =
  jl_null :: 'j
  jl_of_int :: "int \<Rightarrow> 'j"
  jl_of_str :: "string \<Rightarrow> 'j"
  jl_of_list :: "'j list \<Rightarrow> 'j"
  jl_set :: "'j \<Rightarrow> string \<Rightarrow> 'j \<Rightarrow> 'j"        \<comment> \<open>\<^verbatim>\<open>data[key] = value\<close>\<close>
  jl_find :: "'j \<Rightarrow> string \<Rightarrow> 'j option"     \<comment> \<open>\<^verbatim>\<open>data.find(key)\<close>; \<^verbatim>\<open>data.count(key) > 0\<close>\<close>
  jl_key :: "'j \<Rightarrow> string \<Rightarrow> 'j cxx"         \<comment> \<open>\<^verbatim>\<open>data[key]\<close>\<close>
  jl_nth :: "'j \<Rightarrow> nat \<Rightarrow> 'j cxx"            \<comment> \<open>\<^verbatim>\<open>data[i]\<close>\<close>
  jl_size :: "'j \<Rightarrow> nat"
  jl_elems :: "'j \<Rightarrow> 'j list"               \<comment> \<open>range-for over a value\<close>
  jl_is_number :: "'j \<Rightarrow> bool"
  jl_get_int :: "'j \<Rightarrow> int cxx"
  jl_get_str :: "'j \<Rightarrow> string cxx"
  jl_dump :: "'j \<Rightarrow> byte list"
  jl_parse :: "byte list \<Rightarrow> 'j cxx"
  jl_to_cbor :: "'j \<Rightarrow> byte list"
  jl_from_cbor :: "byte list \<Rightarrow> 'j cxx"

inductive json_object :: "'j json_lib \<Rightarrow> 'j \<Rightarrow> bool" for J where
  json_object_null: "json_object J (jl_null J)"
| json_object_set: "json_object J d \<Longrightarrow> json_object J (jl_set J d k v)"

definition json_laws :: "'j json_lib \<Rightarrow> bool" where
  "json_laws J \<longleftrightarrow>
     (\<forall>k. jl_find J (jl_null J) k = None) \<and>
     (\<forall>d k v k'. json_object J d \<longrightarrow>
        jl_find J (jl_set J d k v) k' = (if k' = k then Some v else jl_find J d k')) \<and>
     (\<forall>d k v. json_object J d \<longrightarrow> jl_find J d k = Some v \<longrightarrow> jl_key J d k = Inr v) \<and>
     (\<forall>vs. jl_size J (jl_of_list J vs) = length vs) \<and>
     (\<forall>vs. jl_elems J (jl_of_list J vs) = vs) \<and>
     (\<forall>vs i. i < length vs \<longrightarrow> jl_nth J (jl_of_list J vs) i = Inr (vs ! i)) \<and>
     (\<forall>i. jl_is_number J (jl_of_int J i)) \<and>
     \<not> jl_is_number J (jl_null J) \<and>
     (\<forall>i. jl_get_int J (jl_of_int J i) = Inr i) \<and>
     (\<forall>s. jl_get_str J (jl_of_str J s) = Inr s)"

section \<open>Error codes\<close>

abbreviation (input) success :: int where "success \<equiv> 0"
abbreviation (input) parse_error :: int where "parse_error \<equiv> -32700"
abbreviation (input) invalid_request :: int where "invalid_request \<equiv> -32600"
abbreviation (input) method_not_found :: int where "method_not_found \<equiv> -32601"
abbreviation (input) invalid_params :: int where "invalid_params \<equiv> -32602"
abbreviation (input) internal_error :: int where "internal_error \<equiv> -32603"
abbreviation (input) connection_closed_code :: int where "connection_closed_code \<equiv> -32000"
abbreviation (input) no_hello_reply :: int where "no_hello_reply \<equiv> -32001"

definition error_to_string :: "int \<Rightarrow> string" where
  "error_to_string code =
     (if code = success then ''''
      else if code = parse_error then ''Parse error''
      else if code = invalid_request then ''Invalid request''
      else if code = method_not_found then ''Method not found''
      else if code = invalid_params then ''Invalid method parameters''
      else if code = internal_error then ''Internal server error''
      else if code = connection_closed_code then ''Connection was closed unexpectedly''
      else ''Unknown error'')"

section \<open>Messages\<close>

text \<open>A message carries the flag \<^verbatim>\<open>_has_id\<close> and the number \<^verbatim>\<open>_id\<close>, which is 0 when there is none.\<close>

record 'j rpc_message =
  rpc_has_id :: bool
  rpc_id :: int
  rpc_method :: string
  rpc_data :: 'j

record 'j response_message =
  resp_has_id :: bool
  resp_id :: int
  resp_data :: 'j

record 'j error_message =
  err_has_id :: bool
  err_id :: int
  err_code :: int
  err_text :: string
  err_data :: 'j

definition mk_rpc :: "int option \<Rightarrow> string \<Rightarrow> 'j \<Rightarrow> 'j rpc_message" where
  "mk_rpc i m d = \<lparr>rpc_has_id = (i \<noteq> None), rpc_id = (case i of None \<Rightarrow> 0 | Some n \<Rightarrow> n),
                   rpc_method = m, rpc_data = d\<rparr>"

definition mk_response :: "int option \<Rightarrow> 'j \<Rightarrow> 'j response_message" where
  "mk_response i d = \<lparr>resp_has_id = (i \<noteq> None), resp_id = (case i of None \<Rightarrow> 0 | Some n \<Rightarrow> n),
                      resp_data = d\<rparr>"

definition mk_error :: "int option \<Rightarrow> int \<Rightarrow> string \<Rightarrow> 'j \<Rightarrow> 'j error_message" where
  "mk_error i c t d = \<lparr>err_has_id = (i \<noteq> None), err_id = (case i of None \<Rightarrow> 0 | Some n \<Rightarrow> n),
                       err_code = c, err_text = t, err_data = d\<rparr>"

text \<open>The container a connection reads into: its type tag selects one of the three messages.\<close>

datatype 'j message_container =
    NoMessage
  | RpcMessage "'j rpc_message"
  | ResponseMessage "'j response_message"
  | ErrorMessage "'j error_message"

section \<open>Results of calls\<close>

record 'j rpc_json_result =
  res_error_code :: int
  res_error_text :: string
  res_error_data :: 'j
  res_data :: 'j

definition result_response :: "'j json_lib \<Rightarrow> 'j \<Rightarrow> 'j rpc_json_result" where
  "result_response J d = \<lparr>res_error_code = success, res_error_text = '''',
                          res_error_data = jl_null J, res_data = d\<rparr>"

definition result_error :: "'j json_lib \<Rightarrow> int \<Rightarrow> string \<Rightarrow> 'j \<Rightarrow> 'j rpc_json_result" where
  "result_error J c t d = \<lparr>res_error_code = c, res_error_text = t,
                           res_error_data = d, res_data = jl_null J\<rparr>"

definition result_success :: "'j rpc_json_result \<Rightarrow> bool" where
  "result_success r \<longleftrightarrow> res_error_code r = success"

section \<open>Facts\<close>

lemma json_laws_find:
  "json_laws J \<Longrightarrow> jl_find J (jl_null J) k = None"
  "json_laws J \<Longrightarrow> json_object J d \<Longrightarrow>
     jl_find J (jl_set J d k v) k' = (if k' = k then Some v else jl_find J d k')"
  "json_laws J \<Longrightarrow> json_object J d \<Longrightarrow> jl_find J d k = Some v \<Longrightarrow> jl_key J d k = Inr v"
  by (simp_all add: json_laws_def)

lemma json_laws_list:
  "json_laws J \<Longrightarrow> jl_size J (jl_of_list J vs) = length vs"
  "json_laws J \<Longrightarrow> i < length vs \<Longrightarrow> jl_nth J (jl_of_list J vs) i = Inr (vs ! i)"
  "json_laws J \<Longrightarrow> jl_elems J (jl_of_list J vs) = vs"
  by (simp_all add: json_laws_def)

lemma json_laws_scalar:
  "json_laws J \<Longrightarrow> jl_is_number J (jl_of_int J i)"
  "json_laws J \<Longrightarrow> \<not> jl_is_number J (jl_null J)"
  "json_laws J \<Longrightarrow> jl_get_int J (jl_of_int J i) = Inr i"
  "json_laws J \<Longrightarrow> jl_get_str J (jl_of_str J s) = Inr s"
  by (simp_all add: json_laws_def)

declare json_object.intros [simp, intro]

lemma jl_key_set:
  "json_laws J \<Longrightarrow> json_object J d \<Longrightarrow> jl_key J (jl_set J d k v) k = Inr v"
  by (rule json_laws_find(3)) (simp_all add: json_laws_find)

lemma jl_key_set_other:
  "json_laws J \<Longrightarrow> json_object J d \<Longrightarrow> k' \<noteq> k \<Longrightarrow> jl_find J d k' = Some u \<Longrightarrow>
   jl_key J (jl_set J d k v) k' = Inr u"
  by (rule json_laws_find(3)) (simp_all add: json_laws_find)

lemmas json_access = json_laws_find(1,2) json_laws_list json_laws_scalar jl_key_set jl_key_set_other

end
