(* ===== verification/Ipc_Encoding.thy ===== *)
theory Ipc_Encoding
  imports Ipc_Message
begin

text \<open>
  The two wire encodings of the IPC library (\<^verbatim>\<open>simple-ipc/src/common/encoding\<close>): \<^verbatim>\<open>json\<close>
  (one text object per line) and \<^verbatim>\<open>json_cbor\<close> (a varint length followed by a CBOR array), and the
  sending half of a connection they write to.

  The locale \<open>framing\<close> is the contract a connection needs of an encoding to split a byte stream
  into messages. It is interpreted for both encodings; the reassembly theorems of
  \<open>Ipc_Connection\<close> are proved once from the contract.
\<close>

section \<open>The sending half of a connection\<close>

datatype encoding = Json | JsonCbor

definition BUFFER_SIZE :: nat where "BUFFER_SIZE = 1024 * 16"
definition MAX_BUFFER_SIZE :: nat where "MAX_BUFFER_SIZE = 1024 * 512"

text \<open>
  \<open>sent\<close> is what the peer will read; \<open>room\<close> is how many bytes the kernel still takes from
  the (non-blocking) socket before \<^verbatim>\<open>write\<close> comes back short.
\<close>

record conn_io =
  current_encoding :: encoding
  max_out_msg_size :: nat
  sent :: "byte list"
  room :: nat

definition send_data :: "conn_io \<Rightarrow> byte list \<Rightarrow> conn_io cxx" where
  "send_data c data =
     (if length data \<le> room c
      then Inr (c\<lparr>sent := sent c @ data, room := room c - length data\<rparr>)
      else Inl (RuntimeError ''write() failed''))"

section \<open>The registry of encodings\<close>

definition encoding_name :: "encoding \<Rightarrow> string" where
  "encoding_name e = (case e of Json \<Rightarrow> ''json'' | JsonCbor \<Rightarrow> ''json_cbor'')"

definition add_encoding :: "encoding \<Rightarrow> (string \<times> encoding) list \<Rightarrow> (string \<times> encoding) list" where
  "add_encoding e m = (encoding_name e, e) # filter (\<lambda>kv. fst kv \<noteq> encoding_name e) m"

definition encodings_map :: "(string \<times> encoding) list" where
  "encodings_map = add_encoding JsonCbor (add_encoding Json [])"

definition get_encoding_by_name :: "string \<Rightarrow> encoding option" where
  "get_encoding_by_name n = map_of encodings_map n"

definition get_default_encoding :: encoding where
  "get_default_encoding = the (map_of encodings_map ''json'')"

definition get_preferred_encodings :: "string list" where
  "get_preferred_encodings = [''json_cbor'', ''json'']"

section \<open>The line encoding \<^verbatim>\<open>json\<close>\<close>

definition json_with_id :: "'j json_lib \<Rightarrow> bool \<Rightarrow> int \<Rightarrow> 'j" where
  "json_with_id J has_id i =
     (if has_id then jl_set J (jl_null J) ''id'' (jl_of_int J i) else jl_null J)"

definition json_rpc_value :: "'j json_lib \<Rightarrow> 'j rpc_message \<Rightarrow> 'j" where
  "json_rpc_value J msg =
     jl_set J (jl_set J (json_with_id J (rpc_has_id msg) (rpc_id msg))
       ''method'' (jl_of_str J (rpc_method msg))) ''params'' (rpc_data msg)"

definition json_response_value :: "'j json_lib \<Rightarrow> 'j response_message \<Rightarrow> 'j" where
  "json_response_value J msg =
     jl_set J (json_with_id J (resp_has_id msg) (resp_id msg)) ''result'' (resp_data msg)"

definition json_error_value :: "'j json_lib \<Rightarrow> 'j error_message \<Rightarrow> 'j" where
  "json_error_value J msg =
     jl_set J (json_with_id J (err_has_id msg) (err_id msg)) ''error''
       (jl_set J (jl_set J (jl_set J (jl_null J)
          ''code'' (jl_of_int J (err_code msg)))
          ''message'' (jl_of_str J (err_text msg)))
          ''data'' (err_data msg))"

definition json_send_json :: "'j json_lib \<Rightarrow> conn_io \<Rightarrow> 'j \<Rightarrow> conn_io cxx" where
  "json_send_json J c data =
     (let buf = jl_dump J data in
      if length buf + 1 > max_out_msg_size c then Inl (RuntimeError ''Message is too big'')
      else cxx_bind (send_data c buf) (\<lambda>c. send_data c [10]))"

fun json_scan :: "byte list \<Rightarrow> nat \<Rightarrow> int" where
  "json_scan [] i = -1"
| "json_scan (b # bs) i = (if b = 10 \<or> b = 0 then int (i + 1) else json_scan bs (i + 1))"

definition json_check_read_message_complete :: "byte list \<Rightarrow> nat \<Rightarrow> int" where
  "json_check_read_message_complete buf last_read_off = json_scan (drop last_read_off buf) last_read_off"

definition json_msg_id :: "'j json_lib \<Rightarrow> 'j \<Rightarrow> int option cxx" where
  "json_msg_id J data =
     (case jl_find J data ''id'' of
        Some v \<Rightarrow> if jl_is_number J v then cxx_bind (jl_get_int J v) (\<lambda>i. Inr (Some i)) else Inr None
      | None \<Rightarrow> Inr None)"

definition json_read_message :: "'j json_lib \<Rightarrow> byte list \<Rightarrow> 'j message_container cxx" where
  "json_read_message J buf =
     cxx_bind (jl_parse J buf) (\<lambda>data.
     if jl_find J data ''method'' \<noteq> None then
       cxx_bind (json_msg_id J data) (\<lambda>i.
       cxx_bind (cxx_bind (jl_key J data ''method'') (jl_get_str J)) (\<lambda>m.
       cxx_bind (jl_key J data ''params'') (\<lambda>p.
       Inr (RpcMessage (mk_rpc i m p)))))
     else if jl_find J data ''error'' \<noteq> None then
       cxx_bind (jl_key J data ''error'') (\<lambda>ed.
       cxx_bind (json_msg_id J data) (\<lambda>i.
       cxx_bind (cxx_bind (jl_key J ed ''code'') (jl_get_int J)) (\<lambda>c.
       cxx_bind (cxx_bind (jl_key J ed ''message'') (jl_get_str J)) (\<lambda>t.
       cxx_bind (jl_key J ed ''data'') (\<lambda>d.
       Inr (ErrorMessage (mk_error i c t d)))))))
     else if jl_find J data ''result'' \<noteq> None then
       cxx_bind (json_msg_id J data) (\<lambda>i.
       cxx_bind (jl_key J data ''result'') (\<lambda>d.
       Inr (ResponseMessage (mk_response i d))))
     else Inl (RpcCallException invalid_request (error_to_string invalid_request)))"

section \<open>The length-prefixed encoding \<^verbatim>\<open>json_cbor\<close>\<close>

definition get_id_json :: "'j json_lib \<Rightarrow> bool \<Rightarrow> int \<Rightarrow> 'j" where
  "get_id_json J has_id i = (if has_id then jl_of_int J i else jl_null J)"

definition cbor_rpc_value :: "'j json_lib \<Rightarrow> 'j rpc_message \<Rightarrow> 'j" where
  "cbor_rpc_value J msg = jl_of_list J
     [get_id_json J (rpc_has_id msg) (rpc_id msg), jl_of_str J (rpc_method msg), rpc_data msg]"

definition cbor_response_value :: "'j json_lib \<Rightarrow> 'j response_message \<Rightarrow> 'j" where
  "cbor_response_value J msg = jl_of_list J
     [get_id_json J (resp_has_id msg) (resp_id msg), resp_data msg]"

definition cbor_error_value :: "'j json_lib \<Rightarrow> 'j error_message \<Rightarrow> 'j" where
  "cbor_error_value J msg = jl_of_list J
     [get_id_json J (err_has_id msg) (err_id msg), jl_of_int J (err_code msg),
      jl_of_str J (err_text msg), err_data msg]"

definition cbor_send_json :: "'j json_lib \<Rightarrow> conn_io \<Rightarrow> 'j \<Rightarrow> conn_io cxx" where
  "cbor_send_json J c data =
     (let buf = jl_to_cbor J data in
      cxx_bind (send_data c (encode_unsigned (of_nat (length buf)))) (\<lambda>c. send_data c buf))"

definition cbor_check_read_message_complete :: "byte list \<Rightarrow> int cxx" where
  "cbor_check_read_message_complete buf =
     cxx_bind (try_decode_unsigned buf) (\<lambda>r.
       case r of
         None \<Rightarrow> Inr (-1)
       | Some (sz, varint_size) \<Rightarrow>
           let total_size = sz + of_nat varint_size in
           if of_nat (length buf) \<ge> total_size then Inr (sint total_size) else Inr (-1))"

definition cbor_msg_id :: "'j json_lib \<Rightarrow> 'j \<Rightarrow> int option cxx" where
  "cbor_msg_id J data =
     cxx_bind (jl_nth J data 0) (\<lambda>v.
       if jl_is_number J v then cxx_bind (jl_get_int J v) (\<lambda>i. Inr (Some i)) else Inr None)"

definition cbor_read_message :: "'j json_lib \<Rightarrow> byte list \<Rightarrow> 'j message_container cxx" where
  "cbor_read_message J buf =
     cxx_bind (decode_unsigned buf) (\<lambda>(sz, varint_size).
     cxx_bind (jl_from_cbor J (drop varint_size buf)) (\<lambda>data.
     if jl_size J data = 3 then
       cxx_bind (cbor_msg_id J data) (\<lambda>i.
       cxx_bind (cxx_bind (jl_nth J data 1) (jl_get_str J)) (\<lambda>m.
       cxx_bind (jl_nth J data 2) (\<lambda>p.
       Inr (RpcMessage (mk_rpc i m p)))))
     else if jl_size J data = 2 then
       cxx_bind (cbor_msg_id J data) (\<lambda>i.
       cxx_bind (jl_nth J data 1) (\<lambda>d.
       Inr (ResponseMessage (mk_response i d))))
     else
       cxx_bind (cbor_msg_id J data) (\<lambda>i.
       cxx_bind (cxx_bind (jl_nth J data 1) (jl_get_int J)) (\<lambda>c.
       cxx_bind (cxx_bind (jl_nth J data 2) (jl_get_str J)) (\<lambda>t.
       cxx_bind (jl_nth J data 3) (\<lambda>d.
       Inr (ErrorMessage (mk_error i c t d))))))))"

section \<open>Dispatch on the encoding of a connection\<close>

definition send_value :: "'j json_lib \<Rightarrow> conn_io \<Rightarrow> 'j \<Rightarrow> conn_io cxx" where
  "send_value J c v = (case current_encoding c of
     Json \<Rightarrow> json_send_json J c v | JsonCbor \<Rightarrow> cbor_send_json J c v)"

definition rpc_value :: "'j json_lib \<Rightarrow> encoding \<Rightarrow> 'j rpc_message \<Rightarrow> 'j" where
  "rpc_value J e msg = (case e of Json \<Rightarrow> json_rpc_value J msg | JsonCbor \<Rightarrow> cbor_rpc_value J msg)"

definition response_value :: "'j json_lib \<Rightarrow> encoding \<Rightarrow> 'j response_message \<Rightarrow> 'j" where
  "response_value J e msg =
     (case e of Json \<Rightarrow> json_response_value J msg | JsonCbor \<Rightarrow> cbor_response_value J msg)"

definition error_value :: "'j json_lib \<Rightarrow> encoding \<Rightarrow> 'j error_message \<Rightarrow> 'j" where
  "error_value J e msg =
     (case e of Json \<Rightarrow> json_error_value J msg | JsonCbor \<Rightarrow> cbor_error_value J msg)"

definition send_rpc :: "'j json_lib \<Rightarrow> conn_io \<Rightarrow> 'j rpc_message \<Rightarrow> conn_io cxx" where
  "send_rpc J c msg = send_value J c (rpc_value J (current_encoding c) msg)"

definition send_response :: "'j json_lib \<Rightarrow> conn_io \<Rightarrow> 'j response_message \<Rightarrow> conn_io cxx" where
  "send_response J c msg = send_value J c (response_value J (current_encoding c) msg)"

definition send_error :: "'j json_lib \<Rightarrow> conn_io \<Rightarrow> 'j error_message \<Rightarrow> conn_io cxx" where
  "send_error J c msg = send_value J c (error_value J (current_encoding c) msg)"

definition check_read_message_complete :: "encoding \<Rightarrow> byte list \<Rightarrow> nat \<Rightarrow> int cxx" where
  "check_read_message_complete e buf off = (case e of
     Json \<Rightarrow> Inr (json_check_read_message_complete buf off)
   | JsonCbor \<Rightarrow> cbor_check_read_message_complete buf)"

definition read_message :: "'j json_lib \<Rightarrow> encoding \<Rightarrow> byte list \<Rightarrow> 'j message_container cxx" where
  "read_message J e buf = (case e of Json \<Rightarrow> json_read_message J buf | JsonCbor \<Rightarrow> cbor_read_message J buf)"

section \<open>Frames\<close>

text \<open>What one message looks like on the wire.\<close>

definition json_frame :: "byte list \<Rightarrow> bool" where
  "json_frame f \<longleftrightarrow> f \<noteq> [] \<and> last f \<in> {0, 10} \<and> (\<forall>b \<in> set (butlast f). b \<notin> {0, 10})"

definition cbor_frame :: "byte list \<Rightarrow> bool" where
  "cbor_frame f \<longleftrightarrow> (\<exists>p. length p < 2 ^ 31 \<and> f = encode_unsigned (of_nat (length p)) @ p)"

locale framing =
  fixes enc :: encoding and frame :: "byte list \<Rightarrow> bool"
  assumes frame_nonempty: "frame f \<Longrightarrow> f \<noteq> []"
    and frame_complete: "frame f \<Longrightarrow> off < length f \<Longrightarrow> length (f @ rest) \<le> MAX_BUFFER_SIZE \<Longrightarrow>
      check_read_message_complete enc (f @ rest) off = Inr (int (length f))"
    and frame_partial: "frame (p @ q) \<Longrightarrow> q \<noteq> [] \<Longrightarrow> off \<le> length p \<Longrightarrow>
      length p \<le> MAX_BUFFER_SIZE \<Longrightarrow> check_read_message_complete enc p off = Inr (-1)"

lemma json_scan_none: "\<forall>b \<in> set bs. b \<notin> {0, 10} \<Longrightarrow> json_scan bs i = -1"
  by (induction bs arbitrary: i) auto

lemma json_scan_hit:
  "\<forall>b \<in> set bs. b \<notin> {0, 10} \<Longrightarrow> t \<in> {0, 10} \<Longrightarrow>
   json_scan (bs @ t # rest) i = int (i + length bs + 1)"
  by (induction bs arbitrary: i) auto

lemma json_frame_complete:
  assumes "json_frame f" and "off < length f"
  shows "json_check_read_message_complete (f @ rest) off = int (length f)"
proof -
  obtain b t where f: "f = b @ [t]" "t \<in> {0, 10}" "\<forall>x \<in> set b. x \<notin> {0, 10}"
    using assms(1) by (cases f rule: rev_cases) (auto simp: json_frame_def)
  have off: "off \<le> length b" using assms(2) f(1) by simp
  then have "drop off (f @ rest) = drop off b @ t # rest" using f(1) by simp
  moreover have "\<forall>x \<in> set (drop off b). x \<notin> {0, 10}" using f(3) by (meson in_set_dropD)
  ultimately show ?thesis
    using f(1,2) off json_scan_hit [of "drop off b" t rest off]
    by (simp add: json_check_read_message_complete_def)
qed

lemma json_frame_partial:
  assumes "json_frame (p @ q)" and "q \<noteq> []"
  shows "json_check_read_message_complete p off = -1"
proof -
  have "\<forall>x \<in> set p. x \<notin> {0, 10}"
    using assms by (auto simp: json_frame_def butlast_append)
  then have "\<forall>x \<in> set (drop off p). x \<notin> {0, 10}" by (meson in_set_dropD)
  then show ?thesis
    by (simp only: json_check_read_message_complete_def json_scan_none)
qed

interpretation json_framing: framing Json json_frame
  by unfold_locales
    (auto simp: check_read_message_complete_def json_frame_complete json_frame_partial,
     simp add: json_frame_def)

lemma sint_of_nat_small: "n \<le> MAX_BUFFER_SIZE \<Longrightarrow> sint (of_nat n :: u64) = int n"
  by (simp add: MAX_BUFFER_SIZE_def signed_of_nat signed_take_bit_int_eq_self)

lemma u64_of_nat_le_iff:
  "m < 2 ^ 63 \<Longrightarrow> n < 2 ^ 63 \<Longrightarrow> (of_nat m \<le> (of_nat n :: u64)) = (m \<le> n)"
  by (simp add: word_le_nat_alt unat_of_nat)

lemma cbor_frame_complete:
  assumes "cbor_frame f" and "length (f @ rest) \<le> MAX_BUFFER_SIZE"
  shows "cbor_check_read_message_complete (f @ rest) = Inr (int (length f))"
proof -
  obtain p where p: "length p < 2 ^ 31" "f = encode_unsigned (of_nat (length p)) @ p"
    using assms(1) by (auto simp: cbor_frame_def)
  let ?n = "of_nat (length p) :: u64"
  have "?n < 2 ^ 31" using p(1) by (simp add: word_less_nat_alt unat_of_nat)
  then have dec: "try_decode_unsigned (f @ rest) = Inr (Some (?n, length (encode_unsigned ?n)))"
    using try_decode_encode [of ?n "p @ rest"] p(2) by simp
  have total: "?n + of_nat (length (encode_unsigned ?n)) = of_nat (length f)"
    using p(2) by simp
  have "of_nat (length f) \<le> (of_nat (length (f @ rest)) :: u64)"
    using assms(2) by (subst u64_of_nat_le_iff) (simp_all add: MAX_BUFFER_SIZE_def)
  then show ?thesis
    unfolding cbor_check_read_message_complete_def dec
    using total assms(2) sint_of_nat_small [of "length f"] by (simp add: Let_def)
qed

lemma cbor_frame_partial:
  assumes "cbor_frame (p @ q)" and "q \<noteq> []" and "length p \<le> MAX_BUFFER_SIZE"
  shows "cbor_check_read_message_complete p = Inr (-1)"
proof -
  obtain b where b: "length b < 2 ^ 31" "p @ q = encode_unsigned (of_nat (length b)) @ b"
    using assms(1) by (auto simp: cbor_frame_def)
  let ?n = "of_nat (length b) :: u64" and ?e = "encode_unsigned (of_nat (length b))"
  have n: "?n < 2 ^ 31" using b(1) by (simp add: word_less_nat_alt unat_of_nat)
  obtain us where "p @ us = ?e \<and> q = us @ b \<or> p = ?e @ us \<and> us @ q = b"
    using b(2) by (auto simp: append_eq_append_conv2)
  then consider "us \<noteq> []" "?e = p @ us" | "p = ?e @ us" "us @ q = b"
    by (cases "us = []") auto
  then show ?thesis
  proof cases
    case 1
    then have "try_decode_unsigned p = Inr None" using try_decode_cut [OF n] by simp
    then show ?thesis by (simp add: cbor_check_read_message_complete_def)
  next
    case 2
    have dec: "try_decode_unsigned p = Inr (Some (?n, length ?e))"
      using try_decode_encode [of ?n us] 2(1) n by simp
    have "length ?e \<le> 5"
      using n by (intro length_encode_unsigned_le) (simp_all add: word_less_nat_alt)
    moreover have "length p < length ?e + length b" using 2 assms(2) by (auto simp: Suc_le_eq)
    ultimately have "\<not> ?n + of_nat (length ?e) \<le> of_nat (length p)"
      using b(1) assms(3) u64_of_nat_le_iff [of "length b + length ?e" "length p"]
      by (simp add: MAX_BUFFER_SIZE_def)
    then show ?thesis
      unfolding cbor_check_read_message_complete_def dec by (simp add: Let_def)
  qed
qed

interpretation cbor_framing: framing JsonCbor cbor_frame
  by unfold_locales
    (auto simp: check_read_message_complete_def cbor_frame_complete cbor_frame_partial cbor_frame_def)

section \<open>One message over the wire\<close>

text \<open>\<open>send_message\<close> is the overloaded \<^verbatim>\<open>connection::send_message\<close>, on the message it is given.\<close>

definition send_message :: "'j json_lib \<Rightarrow> conn_io \<Rightarrow> 'j message_container \<Rightarrow> conn_io cxx" where
  "send_message J c m = (case m of
     NoMessage \<Rightarrow> Inr c
   | RpcMessage r \<Rightarrow> send_rpc J c r
   | ResponseMessage r \<Rightarrow> send_response J c r
   | ErrorMessage r \<Rightarrow> send_error J c r)"

definition message_value :: "'j json_lib \<Rightarrow> encoding \<Rightarrow> 'j message_container \<Rightarrow> 'j" where
  "message_value J e m = (case m of
     NoMessage \<Rightarrow> jl_null J
   | RpcMessage r \<Rightarrow> rpc_value J e r
   | ResponseMessage r \<Rightarrow> response_value J e r
   | ErrorMessage r \<Rightarrow> error_value J e r)"

definition wire :: "'j json_lib \<Rightarrow> encoding \<Rightarrow> 'j message_container \<Rightarrow> byte list" where
  "wire J e m = (case e of
     Json \<Rightarrow> jl_dump J (message_value J e m) @ [10]
   | JsonCbor \<Rightarrow> let buf = jl_to_cbor J (message_value J e m) in encode_unsigned (of_nat (length buf)) @ buf)"

text \<open>
  A well-formed message has the number 0 when it has no id, as the constructors of
  \<^verbatim>\<open>message_with_id\<close> set it. \<open>codec_ok\<close> is what the JSON library documents of its codecs, for one
  value: the text form is one line that parses back, the binary form decodes back (and is shorter than
  2 GiB).
\<close>

definition message_wf :: "'j message_container \<Rightarrow> bool" where
  "message_wf m = (case m of
     NoMessage \<Rightarrow> False
   | RpcMessage r \<Rightarrow> rpc_has_id r \<or> rpc_id r = 0
   | ResponseMessage r \<Rightarrow> resp_has_id r \<or> resp_id r = 0
   | ErrorMessage r \<Rightarrow> err_has_id r \<or> err_id r = 0)"

definition codec_ok :: "'j json_lib \<Rightarrow> encoding \<Rightarrow> 'j \<Rightarrow> bool" where
  "codec_ok J e v = (case e of
     Json \<Rightarrow> jl_parse J (jl_dump J v @ [10]) = Inr v \<and> 0 \<notin> set (jl_dump J v) \<and> 10 \<notin> set (jl_dump J v)
   | JsonCbor \<Rightarrow> jl_from_cbor J (jl_to_cbor J v) = Inr v \<and> length (jl_to_cbor J v) < 2 ^ 31)"

definition enc_frame :: "encoding \<Rightarrow> byte list \<Rightarrow> bool" where
  "enc_frame e = (case e of Json \<Rightarrow> json_frame | JsonCbor \<Rightarrow> cbor_frame)"

lemma framing_enc: "framing e (enc_frame e)"
  by (cases e) (simp_all add: enc_frame_def json_framing.framing_axioms cbor_framing.framing_axioms)

lemma wire_frame: "codec_ok J e (message_value J e m) \<Longrightarrow> enc_frame e (wire J e m)"
  by (cases e) (auto simp: codec_ok_def enc_frame_def wire_def json_frame_def cbor_frame_def Let_def)

lemma send_data_twice:
  "cxx_bind (send_data c xs) (\<lambda>c. send_data c ys) =
     (if length (xs @ ys) \<le> room c
      then Inr (c\<lparr>sent := sent c @ xs @ ys, room := room c - length (xs @ ys)\<rparr>)
      else Inl (RuntimeError ''write() failed''))"
  by (auto simp: send_data_def)

lemma send_message_wire:
  assumes "m \<noteq> NoMessage"
  shows "send_message J c m =
     (let w = wire J (current_encoding c) m in
      if current_encoding c = Json \<and> length w > max_out_msg_size c
      then Inl (RuntimeError ''Message is too big'')
      else if length w \<le> room c then Inr (c\<lparr>sent := sent c @ w, room := room c - length w\<rparr>)
      else Inl (RuntimeError ''write() failed''))"
  using assms
  by (cases m; cases "current_encoding c")
    (simp_all add: send_message_def send_rpc_def send_response_def send_error_def send_value_def
      json_send_json_def cbor_send_json_def wire_def message_value_def Let_def send_data_twice)

lemma json_object_with_id [simp]: "json_object J (json_with_id J h i)"
  by (simp add: json_with_id_def)

lemma json_find_with_id:
  "json_laws J \<Longrightarrow> jl_find J (json_with_id J h i) k =
     (if h \<and> k = ''id'' then Some (jl_of_int J i) else None)"
  by (simp add: json_with_id_def json_access)

lemma json_read_wire:
  assumes "json_laws J" and "message_wf m" and "jl_parse J buf = Inr (message_value J Json m)"
  shows "json_read_message J buf = Inr m"
  using assms
  by (cases m)
    (auto simp: json_read_message_def message_value_def rpc_value_def response_value_def error_value_def
      json_rpc_value_def json_response_value_def json_error_value_def json_msg_id_def json_access
      json_find_with_id message_wf_def mk_rpc_def mk_response_def mk_error_def)

lemma cbor_nth:
  "json_laws J \<Longrightarrow> vs ! i = v \<Longrightarrow> i < length vs \<Longrightarrow> jl_nth J (jl_of_list J vs) i = Inr v"
  by (simp add: json_access)

lemma cbor_read_wire:
  assumes "json_laws J" and "message_wf m" and "decode_unsigned buf = Inr (n, k)"
    and "jl_from_cbor J (drop k buf) = Inr (message_value J JsonCbor m)"
  shows "cbor_read_message J buf = Inr m"
  using assms
  by (cases m)
    (auto simp: cbor_read_message_def message_value_def rpc_value_def response_value_def error_value_def
      cbor_rpc_value_def cbor_response_value_def cbor_error_value_def cbor_msg_id_def json_laws_list
      json_laws_scalar get_id_json_def message_wf_def mk_rpc_def mk_response_def mk_error_def)

lemma read_message_wire:
  assumes "json_laws J" and "message_wf m" and "codec_ok J e (message_value J e m)"
  shows "read_message J e (wire J e m) = Inr m"
proof (cases e)
  case Json
  with assms show ?thesis
    by (simp add: read_message_def wire_def codec_ok_def json_read_wire)
next
  case JsonCbor
  let ?b = "jl_to_cbor J (message_value J JsonCbor m)"
  let ?n = "of_nat (length ?b) :: u64"
  have "?n < 2 ^ 31"
    using assms(3) JsonCbor by (simp add: word_less_nat_alt unat_of_nat codec_ok_def)
  then have "decode_unsigned (encode_unsigned ?n @ ?b) = Inr (?n, length (encode_unsigned ?n))"
    by (simp add: decode_unsigned_def try_decode_encode)
  from cbor_read_wire [OF assms(1,2) this] assms(3) JsonCbor show ?thesis
    by (simp add: read_message_def wire_def Let_def codec_ok_def)
qed

end
