(* ===== verification/Ipc_Connection.thy ===== *)
theory Ipc_Connection
  imports Ipc_Encoding
begin

text \<open>
  The receiving half of a connection (\<^verbatim>\<open>simple-ipc/src/common/connection_internal\<close>): a buffer that
  grows from 16 KiB to 512 KiB, is compacted when its end is reached, and is cut into messages by the
  current encoding. The socket is the list of segments the successive reads find.

  Both loops of \<^verbatim>\<open>handle_data_available\<close> are partial functions: a loop that never ends has no value.
  The context \<open>framing\<close> shows that on a stream of well-formed frames they end and deliver each
  frame once, in order, however the stream is cut into reads.
\<close>

section \<open>State\<close>

record connection_internal =
  buffer :: "byte list"
  buffer_start_off :: nat
  buffer_off :: nat
  io :: conn_io

definition new_connection :: "nat \<Rightarrow> connection_internal" where
  "new_connection capacity = \<lparr>buffer = replicate BUFFER_SIZE 0, buffer_start_off = 0, buffer_off = 0,
     io = \<lparr>current_encoding = get_default_encoding, max_out_msg_size = MAX_BUFFER_SIZE,
           sent = [], room = capacity\<rparr>\<rparr>"

text \<open>
  A \<^verbatim>\<open>connection_handler\<close> sees the sending half of the connection (it can send and change the encoding)
  and a state of its own.
\<close>

record ('j, 'w) connection_handler =
  handle_rpc :: "conn_io \<Rightarrow> 'w \<Rightarrow> 'j rpc_message \<Rightarrow> (conn_io \<times> 'w) cxx"
  handle_response :: "conn_io \<Rightarrow> 'w \<Rightarrow> 'j response_message \<Rightarrow> (conn_io \<times> 'w) cxx"
  handle_error :: "conn_io \<Rightarrow> 'w \<Rightarrow> 'j error_message \<Rightarrow> (conn_io \<times> 'w) cxx"
  handle_message_parse_error :: "conn_io \<Rightarrow> 'w \<Rightarrow> cxx_error \<Rightarrow> int \<Rightarrow> string \<Rightarrow> (conn_io \<times> 'w) cxx"

text \<open>The base class: every message is unsupported and a parse error is thrown again.\<close>

definition base_handler :: "('j, 'w) connection_handler" where
  "base_handler = \<lparr>
     handle_rpc = \<lambda>c w m. Inl (RuntimeError ''Unsupported message''),
     handle_response = \<lambda>c w m. Inl (RuntimeError ''Unsupported message''),
     handle_error = \<lambda>c w m. Inl (RuntimeError ''Unsupported message''),
     handle_message_parse_error = \<lambda>c w ex code text. Inl ex\<rparr>"

definition on_message ::
  "('j, 'w) connection_handler \<Rightarrow> conn_io \<Rightarrow> 'w \<Rightarrow> 'j message_container \<Rightarrow> (conn_io \<times> 'w) cxx" where
  "on_message H c w msg = (case msg of
     RpcMessage m \<Rightarrow> handle_rpc H c w m
   | ResponseMessage m \<Rightarrow> handle_response H c w m
   | ErrorMessage m \<Rightarrow> handle_error H c w m
   | NoMessage \<Rightarrow> Inl (RuntimeError ''Invalid message type''))"

text \<open>The catch clauses around \<^verbatim>\<open>read_message\<close>; undefined behaviour is not an exception.\<close>

definition on_error ::
  "('j, 'w) connection_handler \<Rightarrow> conn_io \<Rightarrow> 'w \<Rightarrow> cxx_error \<Rightarrow> (conn_io \<times> 'w) cxx" where
  "on_error H c w ex = (case ex of
     Undefined \<Rightarrow> Inl Undefined
   | RpcCallException code text \<Rightarrow> handle_message_parse_error H c w ex code text
   | JsonParseError \<Rightarrow> handle_message_parse_error H c w ex parse_error (error_to_string parse_error)
   | JsonException \<Rightarrow> handle_message_parse_error H c w ex invalid_request (error_to_string invalid_request)
   | _ \<Rightarrow> handle_message_parse_error H c w ex internal_error (error_to_string internal_error))"

definition deliver ::
  "'j json_lib \<Rightarrow> ('j, 'w) connection_handler \<Rightarrow> conn_io \<Rightarrow> 'w \<Rightarrow> byte list \<Rightarrow> (conn_io \<times> 'w) cxx" where
  "deliver J H c w buf = (case read_message J (current_encoding c) buf of
     Inr msg \<Rightarrow> on_message H c w msg
   | Inl ex \<Rightarrow> on_error H c w ex)"

section \<open>The loops\<close>

definition pending :: "connection_internal \<Rightarrow> byte list" where
  "pending c = take (buffer_off c - buffer_start_off c) (drop (buffer_start_off c) (buffer c))"

partial_function (option) process_messages ::
  "'j json_lib \<Rightarrow> ('j, 'w) connection_handler \<Rightarrow> nat \<Rightarrow> connection_internal \<Rightarrow> 'w \<Rightarrow>
   (connection_internal \<times> 'w) cxx option" where
  "process_messages J H check_start c w =
     (if buffer_off c > buffer_start_off c then
        (case check_read_message_complete (current_encoding (io c)) (pending c)
                (check_start - buffer_start_off c) of
           Inl e \<Rightarrow> Some (Inl e)
         | Inr n \<Rightarrow>
             if n < 0 then Some (Inr (c, w))
             else
               (case deliver J H (io c) w (take (nat n) (pending c)) of
                  Inl e \<Rightarrow> Some (Inl e)
                | Inr r \<Rightarrow>
                    process_messages J H (buffer_start_off c + nat n)
                      (c\<lparr>io := fst r, buffer_start_off := buffer_start_off c + nat n\<rparr>) (snd r)))
      else Some (Inr (c, w)))"

text \<open>
  One \<^verbatim>\<open>read\<close> on the socket: the bytes of the first segment that fit. No bytes means that the
  socket has nothing more now, or was closed.
\<close>

fun read_data :: "byte list list \<Rightarrow> nat \<Rightarrow> byte list \<times> byte list list" where
  "read_data [] n = ([], [])"
| "read_data (s # ss) n = (take n s, if length s \<le> n then ss else drop n s # ss)"

text \<open>
  \<^verbatim>\<open>memcpy\<close> on overlapping regions is undefined by the C standard; \<open>fwd_memcpy\<close> says that the platform
  defines it as a forward copy.
\<close>

definition make_room :: "bool \<Rightarrow> connection_internal \<Rightarrow> connection_internal option cxx" where
  "make_room fwd_memcpy c =
     (if buffer_off c = length (buffer c) then
        if buffer_start_off c = 0 then
          if length (buffer c) < MAX_BUFFER_SIZE then
            Inr (Some (c\<lparr>buffer := buffer c @
              replicate (min (length (buffer c) * 2) MAX_BUFFER_SIZE - length (buffer c)) 0\<rparr>))
          else Inr None
        else
          let n = buffer_off c - buffer_start_off c in
          if buffer_start_off c < n \<and> \<not> fwd_memcpy then Inl Undefined
          else
            Inr (Some (c\<lparr>buffer := take n (drop (buffer_start_off c) (buffer c)) @ drop n (buffer c),
                         buffer_off := n, buffer_start_off := 0\<rparr>))
      else Inr (Some c))"

definition store_data :: "connection_internal \<Rightarrow> byte list \<Rightarrow> connection_internal" where
  "store_data c bs =
     c\<lparr>buffer := take (buffer_off c) (buffer c) @ bs @ drop (buffer_off c + length bs) (buffer c),
       buffer_off := buffer_off c + length bs\<rparr>"

partial_function (option) handle_data_available ::
  "bool \<Rightarrow> 'j json_lib \<Rightarrow> ('j, 'w) connection_handler \<Rightarrow> connection_internal \<Rightarrow> 'w \<Rightarrow> byte list list \<Rightarrow>
   (connection_internal \<times> 'w \<times> byte list list) cxx option" where
  "handle_data_available fwd_memcpy J H c w sock =
     (case make_room fwd_memcpy c of
        Inl e \<Rightarrow> Some (Inl e)
      | Inr None \<Rightarrow> Some (Inr (c, w, sock))
      | Inr (Some c1) \<Rightarrow>
          let (bs, sock') = read_data sock (length (buffer c1) - buffer_off c1) in
          if bs = [] then Some (Inr (c1, w, sock'))
          else
            Option.bind (process_messages J H (buffer_off c1) (store_data c1 bs) w) (\<lambda>r.
              case r of
                Inl e \<Rightarrow> Some (Inl e)
              | Inr cw \<Rightarrow> handle_data_available fwd_memcpy J H (fst cw) (snd cw) sock'))"

section \<open>The buffer\<close>

definition conn_wf :: "connection_internal \<Rightarrow> bool" where
  "conn_wf c \<longleftrightarrow> buffer_start_off c \<le> buffer_off c \<and> buffer_off c \<le> length (buffer c) \<and>
     BUFFER_SIZE \<le> length (buffer c) \<and> length (buffer c) \<le> MAX_BUFFER_SIZE"

text \<open>The longest message that is safe: without overlapping copies, half of the initial buffer.\<close>

definition frame_limit :: "bool \<Rightarrow> nat" where
  "frame_limit fwd_memcpy = (if fwd_memcpy then MAX_BUFFER_SIZE else BUFFER_SIZE div 2)"

lemma conn_wf_new [simp]: "conn_wf (new_connection k)"
  by (simp add: conn_wf_def new_connection_def BUFFER_SIZE_def MAX_BUFFER_SIZE_def)

lemma pending_new [simp]: "pending (new_connection k) = []"
  by (simp add: pending_def new_connection_def)

lemma length_pending: "conn_wf c \<Longrightarrow> length (pending c) = buffer_off c - buffer_start_off c"
  by (auto simp: pending_def conn_wf_def min_def)

lemma buffer_bounds: "(0::nat) < BUFFER_SIZE" "BUFFER_SIZE \<le> MAX_BUFFER_SIZE"
  by (simp_all add: BUFFER_SIZE_def MAX_BUFFER_SIZE_def)

lemma make_room_ok:
  assumes "conn_wf c" and "length (pending c) < frame_limit fwd"
  shows "\<exists>c1. make_room fwd c = Inr (Some c1) \<and> conn_wf c1 \<and> pending c1 = pending c \<and>
    io c1 = io c \<and> buffer_off c1 < length (buffer c1)"
proof (cases "buffer_off c = length (buffer c)")
  case False
  with assms show ?thesis by (auto simp: make_room_def conn_wf_def)
next
  case full: True
  show ?thesis
  proof (cases "buffer_start_off c = 0")
    case True
    then have "length (buffer c) < MAX_BUFFER_SIZE"
      using assms full length_pending [OF assms(1)]
      by (auto simp: frame_limit_def BUFFER_SIZE_def MAX_BUFFER_SIZE_def split: if_splits)
    then show ?thesis
      using assms(1) full True buffer_bounds
      by (auto simp: make_room_def conn_wf_def pending_def)
  next
    case False
    let ?n = "buffer_off c - buffer_start_off c"
    have len: "length (pending c) = ?n" by (rule length_pending [OF assms(1)])
    have "fwd \<or> ?n \<le> buffer_start_off c"
      using assms len full by (auto simp: frame_limit_def conn_wf_def split: if_splits)
    then have room: "make_room fwd c = Inr (Some (c\<lparr>buffer := pending c @ drop ?n (buffer c),
        buffer_off := ?n, buffer_start_off := 0\<rparr>))" (is "_ = Inr (Some ?c)")
      using full False by (auto simp: make_room_def Let_def pending_def)
    have n: "?n < length (buffer c)"
      using assms(1) full False by (auto simp: conn_wf_def)
    have "pending ?c = pending c" by (subst pending_def) (simp add: len)
    moreover have "conn_wf ?c" using assms(1) n len by (simp add: conn_wf_def)
    ultimately show ?thesis using room n len by simp
  qed
qed

lemma store_data_ok:
  assumes "conn_wf c" and "length bs \<le> length (buffer c) - buffer_off c"
  shows "conn_wf (store_data c bs)" "pending (store_data c bs) = pending c @ bs"
    "buffer_start_off (store_data c bs) = buffer_start_off c" "io (store_data c bs) = io c"
  using assms by (auto simp: conn_wf_def store_data_def pending_def drop_take)

lemma read_data_ok:
  assumes "\<forall>s \<in> set sock. s \<noteq> []" and "0 < n" and "sock \<noteq> []"
  obtains bs sock' where "read_data sock n = (bs, sock')" "bs @ concat sock' = concat sock"
    "length bs \<le> n" "bs \<noteq> []" "\<forall>s \<in> set sock'. s \<noteq> []"
proof -
  obtain s ss where sock: "sock = s # ss" using assms(3) by (cases sock) simp_all
  have s: "s \<noteq> []" "\<forall>s \<in> set ss. s \<noteq> []" using assms(1) sock by simp_all
  show ?thesis
  proof (cases "length s \<le> n")
    case True
    with s show ?thesis by (intro that [of s ss]) (simp_all add: sock)
  next
    case False
    with s assms(2) show ?thesis
      by (intro that [of "take n s" "drop n s # ss"]) (simp_all add: sock)
  qed
qed

lemma pending_advance:
  assumes "conn_wf c" and "k \<le> length (pending c)"
  shows "conn_wf (c\<lparr>io := i, buffer_start_off := buffer_start_off c + k\<rparr>)"
    "pending (c\<lparr>io := i, buffer_start_off := buffer_start_off c + k\<rparr>) = drop k (pending c)"
proof -
  have len: "length (pending c) = buffer_off c - buffer_start_off c" by (rule length_pending [OF assms(1)])
  show "conn_wf (c\<lparr>io := i, buffer_start_off := buffer_start_off c + k\<rparr>)"
    using assms len by (auto simp: conn_wf_def)
  show "pending (c\<lparr>io := i, buffer_start_off := buffer_start_off c + k\<rparr>) = drop k (pending c)"
    by (simp add: pending_def drop_take add.commute)
qed

section \<open>Streams of frames\<close>

primrec deliver_all ::
  "'j json_lib \<Rightarrow> ('j, 'w) connection_handler \<Rightarrow> conn_io \<Rightarrow> 'w \<Rightarrow> byte list list \<Rightarrow> (conn_io \<times> 'w) cxx" where
  "deliver_all J H c w [] = Inr (c, w)"
| "deliver_all J H c w (f # fs) =
     cxx_bind (deliver J H c w f) (\<lambda>r. deliver_all J H (fst r) (snd r) fs)"

lemma deliver_all_append:
  "deliver_all J H c w (fs @ gs) =
   cxx_bind (deliver_all J H c w fs) (\<lambda>r. deliver_all J H (fst r) (snd r) gs)"
  by (induction fs arbitrary: c w) simp_all

text \<open>The handler stays on an encoding while it handles the given frames.\<close>

definition keeps_encoding ::
  "'j json_lib \<Rightarrow> ('j, 'w) connection_handler \<Rightarrow> encoding \<Rightarrow> byte list list \<Rightarrow> bool" where
  "keeps_encoding J H e fs \<longleftrightarrow> (\<forall>f \<in> set fs. \<forall>c w c' w'. current_encoding c = e \<longrightarrow>
     deliver J H c w f = Inr (c', w') \<longrightarrow> current_encoding c' = e)"

lemma keeps_encoding_step:
  "keeps_encoding J H e fs \<Longrightarrow> f \<in> set fs \<Longrightarrow> current_encoding c = e \<Longrightarrow>
   deliver J H c w f = Inr r \<Longrightarrow> current_encoding (fst r) = e"
  unfolding keeps_encoding_def by (metis prod.collapse)

lemma keeps_encoding_subset:
  "keeps_encoding J H e fs \<Longrightarrow> set gs \<subseteq> set fs \<Longrightarrow> keeps_encoding J H e gs"
  unfolding keeps_encoding_def by blast

lemma deliver_all_encoding:
  "keeps_encoding J H e fs \<Longrightarrow> current_encoding c = e \<Longrightarrow> deliver_all J H c w fs = Inr r \<Longrightarrow>
   current_encoding (fst r) = e"
proof (induction fs arbitrary: c w)
  case (Cons f fs)
  then obtain r' where r': "deliver J H c w f = Inr r'" "deliver_all J H (fst r') (snd r') fs = Inr r"
    by (auto simp: cxx_bind_eq_Inr)
  have "current_encoding (fst r') = e"
    using keeps_encoding_step [OF Cons.prems(1) _ Cons.prems(2) r'(1)] by simp
  moreover have "keeps_encoding J H e fs"
    using Cons.prems(1) by (rule keeps_encoding_subset) auto
  ultimately show ?case using Cons.IH r'(2) by blast
qed auto

lemma stream_split:
  "xs @ ys = concat fs @ p \<Longrightarrow> \<forall>f \<in> set fs. f \<noteq> [] \<Longrightarrow>
   \<exists>fs1 fs2 p1. fs = fs1 @ fs2 \<and> xs = concat fs1 @ p1 \<and> p1 @ ys = concat fs2 @ p \<and>
     (fs2 \<noteq> [] \<longrightarrow> length p1 < length (hd fs2))"
proof (induction fs arbitrary: xs)
  case Nil
  then show ?case by auto
next
  case (Cons f fs)
  show ?case
  proof (cases "length xs < length f")
    case True
    with Cons.prems show ?thesis by (intro exI [of _ "[]"] exI [of _ "f # fs"] exI [of _ xs]) simp
  next
    case False
    moreover have "take (length f) (xs @ ys) = f" unfolding Cons.prems(1) by simp
    ultimately have "take (length f) xs = f" by simp
    then obtain zs where zs: "xs = f @ zs" by (metis append_take_drop_id)
    then have "zs @ ys = concat fs @ p" using Cons.prems(1) by simp
    from Cons.IH [OF this] Cons.prems(2) obtain fs1 fs2 p1 where "fs = fs1 @ fs2" "zs = concat fs1 @ p1"
      "p1 @ ys = concat fs2 @ p" "fs2 \<noteq> [] \<longrightarrow> length p1 < length (hd fs2)"
      by auto
    with zs show ?thesis by (intro exI [of _ "f # fs1"] exI [of _ fs2] exI [of _ p1]) simp
  qed
qed

text \<open>What a loop returns when the handler was run over \<open>fs\<close>.\<close>

definition delivered ::
  "connection_internal \<Rightarrow> (conn_io \<times> 'w) cxx \<Rightarrow> nat \<Rightarrow> (connection_internal \<times> 'w) cxx" where
  "delivered c r k = cxx_bind r (\<lambda>r.
     Inr (c\<lparr>io := fst r, buffer_start_off := buffer_start_off c + k\<rparr>, snd r))"

context framing
begin

definition partial :: "byte list \<Rightarrow> bool" where
  "partial p \<longleftrightarrow> p = [] \<or> (\<exists>q. q \<noteq> [] \<and> frame (p @ q))"

lemma partial_cut:
  assumes "p1 @ ys = concat fs @ p" and "partial p" and "\<forall>f \<in> set fs. frame f"
    and "fs \<noteq> [] \<longrightarrow> length p1 < length (hd fs)"
  shows "partial p1"
proof (cases fs)
  case Nil
  show ?thesis
  proof (cases "p = []")
    case False
    then obtain q where "q \<noteq> []" "frame (p @ q)"
      using assms(2) unfolding partial_def by blast
    moreover have "p = p1 @ ys" using assms(1) Nil by simp
    ultimately show ?thesis unfolding partial_def by (intro disjI2 exI [of _ "ys @ q"]) simp
  qed (use assms(1) Nil in \<open>simp add: partial_def\<close>)
next
  case (Cons f fs')
  then have lt: "length p1 < length f" using assms(4) by simp
  have "take (length p1) (p1 @ ys) = take (length p1) f"
    unfolding assms(1) using Cons lt by simp
  then have "f = p1 @ drop (length p1) f" by (metis append_take_drop_id take_append_length)
  moreover have "drop (length p1) f \<noteq> []" using lt by simp
  ultimately show ?thesis
    using assms(3) Cons unfolding partial_def by (metis list.set_intros(1))
qed

lemma process_frames:
  assumes "\<forall>f \<in> set fs. frame f" and "partial p" and "keeps_encoding J H enc fs"
    and "conn_wf c" and "current_encoding (io c) = enc" and "pending c = concat fs @ p"
    and "check_start - buffer_start_off c < length (hd (fs @ [p @ [0]]))"
  shows "process_messages J H check_start c w =
    Some (delivered c (deliver_all J H (io c) w fs) (length (concat fs)))"
  using assms
proof (induction fs arbitrary: c w check_start)
  case Nil
  have len: "length p = buffer_off c - buffer_start_off c"
    using length_pending [OF Nil.prems(4)] Nil.prems(6) by simp
  have max: "length p \<le> MAX_BUFFER_SIZE"
    using len Nil.prems(4) by (auto simp: conn_wf_def)
  have "p \<noteq> [] \<Longrightarrow> check_read_message_complete enc p (check_start - buffer_start_off c) = Inr (-1)"
    using Nil.prems(2,7) frame_partial max by (auto simp: partial_def)
  moreover have "p = [] \<longleftrightarrow> \<not> buffer_start_off c < buffer_off c" using len by auto
  ultimately show ?case
    using Nil.prems(5,6)
    by (subst process_messages.simps) (cases "p = []"; simp add: delivered_def)
next
  case (Cons f fs)
  have f: "frame f" "f \<noteq> []" using Cons.prems(1) frame_nonempty by auto
  have len: "length (f @ concat fs @ p) = buffer_off c - buffer_start_off c"
    using length_pending [OF Cons.prems(4)] Cons.prems(6) by simp
  then have lt: "buffer_start_off c < buffer_off c" using f(2) by (cases f) auto
  have "length (f @ concat fs @ p) \<le> MAX_BUFFER_SIZE"
    unfolding len using Cons.prems(4) by (auto simp: conn_wf_def)
  then have chk: "check_read_message_complete enc (pending c) (check_start - buffer_start_off c) =
      Inr (int (length f))"
    using frame_complete [OF f(1), of "check_start - buffer_start_off c" "concat fs @ p"] Cons.prems(6,7) by simp
  have tk: "take (length f) (pending c) = f" using Cons.prems(6) by simp
  show ?case
  proof (cases "deliver J H (io c) w f")
    case (Inl e)
    then show ?thesis
      using lt chk tk Cons.prems(5) by (subst process_messages.simps) (simp add: delivered_def)
  next
    case (Inr r)
    let ?c = "c\<lparr>io := fst r, buffer_start_off := buffer_start_off c + length f\<rparr>"
    have k: "length f \<le> length (pending c)" using Cons.prems(6) by simp
    have "process_messages J H (buffer_start_off c + length f) ?c (snd r) =
      Some (delivered ?c (deliver_all J H (io ?c) (snd r) fs) (length (concat fs)))"
    proof (rule Cons.IH)
      show "\<forall>f \<in> set fs. frame f" using Cons.prems(1) by simp
      show "keeps_encoding J H enc fs" using Cons.prems(3) by (rule keeps_encoding_subset) auto
      show "current_encoding (io ?c) = enc"
        using keeps_encoding_step [OF Cons.prems(3) _ Cons.prems(5) Inr] by simp
      show "pending ?c = concat fs @ p" using pending_advance(2) [OF Cons.prems(4) k] Cons.prems(6) by simp
      show "buffer_start_off c + length f - buffer_start_off ?c < length (hd (fs @ [p @ [0]]))"
        using Cons.prems(1) frame_nonempty by (cases fs) auto
    qed (rule Cons.prems(2) pending_advance(1) [OF Cons.prems(4) k])+
    then show ?thesis
      using lt chk tk Cons.prems(5) Inr
      by (subst process_messages.simps) (simp add: delivered_def add.assoc)
  qed
qed

lemma handle_frames:
  assumes "\<forall>f \<in> set fs. frame f \<and> length f \<le> frame_limit fwd" and "partial p"
    and "length p < frame_limit fwd" and "keeps_encoding J H enc fs"
    and "\<forall>s \<in> set sock. s \<noteq> []" and "conn_wf c" and "current_encoding (io c) = enc"
    and "pending c @ concat sock = concat fs @ p" and "fs \<noteq> [] \<longrightarrow> length (pending c) < length (hd fs)"
  shows "case deliver_all J H (io c) w fs of
      Inl e \<Rightarrow> handle_data_available fwd J H c w sock = Some (Inl e)
    | Inr r \<Rightarrow> \<exists>c'. handle_data_available fwd J H c w sock = Some (Inr (c', snd r, [])) \<and>
        io c' = fst r \<and> pending c' = p \<and> conn_wf c'"
  using assms
proof (induction "length (concat sock)" arbitrary: sock c w fs rule: less_induct)
  case less
  have "length (pending c) < frame_limit fwd"
  proof (cases fs)
    case Nil
    then have "length (pending c) \<le> length p"
      using arg_cong [OF less.prems(8), of length] by simp
    then show ?thesis using less.prems(3) by simp
  qed (use less.prems(1,9) in auto)
  then obtain c1 where c1: "make_room fwd c = Inr (Some c1)" "conn_wf c1" "pending c1 = pending c"
    "io c1 = io c" "buffer_off c1 < length (buffer c1)"
    using make_room_ok [OF less.prems(6)] by blast
  show ?case
  proof (cases "sock = []")
    case True
    have "fs = []"
    proof (rule ccontr)
      assume "fs \<noteq> []"
      then have "length (hd fs) \<le> length (pending c)"
        using less.prems(8) True by (cases fs) simp_all
      with less.prems(9) \<open>fs \<noteq> []\<close> show False by simp
    qed
    with True c1 less.prems(8) show ?thesis
      by (subst handle_data_available.simps) simp
  next
    case False
    have "0 < length (buffer c1) - buffer_off c1" using c1(5) by simp
    from read_data_ok [OF less.prems(5) this False] obtain bs sock' where rd:
      "read_data sock (length (buffer c1) - buffer_off c1) = (bs, sock')"
      "bs @ concat sock' = concat sock" "length bs \<le> length (buffer c1) - buffer_off c1" "bs \<noteq> []"
      "\<forall>s \<in> set sock'. s \<noteq> []" .
    note st = store_data_ok [OF c1(2) rd(3)]
    have "(pending c @ bs) @ concat sock' = concat fs @ p"
      using less.prems(8) rd(2) by simp
    moreover have "\<forall>f \<in> set fs. f \<noteq> []" using less.prems(1) frame_nonempty by blast
    ultimately have "\<exists>fs1 fs2 p1. fs = fs1 @ fs2 \<and> pending c @ bs = concat fs1 @ p1 \<and>
      p1 @ concat sock' = concat fs2 @ p \<and> (fs2 \<noteq> [] \<longrightarrow> length p1 < length (hd fs2))"
      by (rule stream_split)
    then obtain fs1 fs2 p1 where sp: "fs = fs1 @ fs2" "pending c @ bs = concat fs1 @ p1"
      "p1 @ concat sock' = concat fs2 @ p" "fs2 \<noteq> [] \<longrightarrow> length p1 < length (hd fs2)"
      by (elim exE conjE)
    let ?c2 = "store_data c1 bs" and ?d = "deliver_all J H (io c) w fs1"
    have frames: "\<forall>f \<in> set fs1. frame f" "\<forall>f \<in> set fs2. frame f" using less.prems(1) sp(1) by auto
    have part: "partial p1" by (rule partial_cut [OF sp(3) less.prems(2) frames(2) sp(4)])
    have keeps: "keeps_encoding J H enc fs1" "keeps_encoding J H enc fs2"
      by (rule keeps_encoding_subset [OF less.prems(4)], simp add: sp(1))+
    have off: "buffer_off c1 - buffer_start_off ?c2 = length (pending c)"
      using length_pending [OF c1(2)] c1(3) st(3) by simp
    have "length (pending c) < length (hd (fs1 @ [p1 @ [0]]))"
      using less.prems(9) sp(1) arg_cong [OF sp(2), of length] by (cases fs1) auto
    then have proc: "process_messages J H (buffer_off c1) ?c2 w =
        Some (delivered ?c2 ?d (length (concat fs1)))"
      using process_frames [OF frames(1) part keeps(1) st(1), of "buffer_off c1"] off st c1 sp(2) less.prems(7)
      by simp
    have step: "handle_data_available fwd J H c w sock =
      (case delivered ?c2 ?d (length (concat fs1)) of Inl e \<Rightarrow> Some (Inl e)
       | Inr cw \<Rightarrow> handle_data_available fwd J H (fst cw) (snd cw) sock')"
      using rd(4) by (subst handle_data_available.simps) (simp add: c1(1) rd(1) proc)
    show ?thesis
    proof (cases ?d)
      case (Inl e)
      then show ?thesis using step sp(1) by (simp add: delivered_def deliver_all_append)
    next
      case (Inr r)
      let ?c3 = "?c2\<lparr>io := fst r, buffer_start_off := buffer_start_off ?c2 + length (concat fs1)\<rparr>"
      have k: "length (concat fs1) \<le> length (pending ?c2)" using st(2) c1(3) sp(2) by simp
      have c3: "conn_wf ?c3" "pending ?c3 = p1"
        using pending_advance [OF st(1) k] st(2) c1(3) sp(2) by simp_all
      have "length (concat sock') < length (concat sock)"
        using arg_cong [OF rd(2), of length] rd(4) by (cases bs) simp_all
      moreover have "current_encoding (io ?c3) = enc"
        using deliver_all_encoding [OF keeps(1) less.prems(7) Inr] by simp
      ultimately have "case deliver_all J H (io ?c3) (snd r) fs2 of
          Inl e \<Rightarrow> handle_data_available fwd J H ?c3 (snd r) sock' = Some (Inl e)
        | Inr r' \<Rightarrow> \<exists>c'. handle_data_available fwd J H ?c3 (snd r) sock' = Some (Inr (c', snd r', [])) \<and>
            io c' = fst r' \<and> pending c' = p \<and> conn_wf c'"
        using less.prems(1-3) sp(1,3,4) keeps(2) rd(5) c3
        by (intro less.hyps) simp_all
      then show ?thesis
        using step Inr sp(1)
        by (cases "deliver_all J H (fst r) (snd r) fs2") (simp_all add: delivered_def deliver_all_append)
    qed
  qed
qed

end

section \<open>Messages end to end\<close>

primrec send_all :: "'j json_lib \<Rightarrow> conn_io \<Rightarrow> 'j message_container list \<Rightarrow> conn_io cxx" where
  "send_all J c [] = Inr c"
| "send_all J c (m # ms) = cxx_bind (send_message J c m) (\<lambda>c. send_all J c ms)"

primrec on_messages ::
  "('j, 'w) connection_handler \<Rightarrow> conn_io \<Rightarrow> 'w \<Rightarrow> 'j message_container list \<Rightarrow> (conn_io \<times> 'w) cxx" where
  "on_messages H c w [] = Inr (c, w)"
| "on_messages H c w (m # ms) = cxx_bind (on_message H c w m) (\<lambda>r. on_messages H (fst r) (snd r) ms)"

definition message_ok :: "bool \<Rightarrow> 'j json_lib \<Rightarrow> encoding \<Rightarrow> 'j message_container \<Rightarrow> bool" where
  "message_ok fwd_memcpy J e m \<longleftrightarrow> message_wf m \<and> codec_ok J e (message_value J e m) \<and>
     length (wire J e m) \<le> frame_limit fwd_memcpy"

definition handler_keeps_encoding ::
  "('j, 'w) connection_handler \<Rightarrow> encoding \<Rightarrow> 'j message_container list \<Rightarrow> bool" where
  "handler_keeps_encoding H e ms \<longleftrightarrow> (\<forall>m \<in> set ms. \<forall>c w c' w'. current_encoding c = e \<longrightarrow>
     on_message H c w m = Inr (c', w') \<longrightarrow> current_encoding c' = e)"

lemma send_all_wire:
  "NoMessage \<notin> set ms \<Longrightarrow> send_all J c ms = Inr c' \<Longrightarrow>
   sent c' = sent c @ concat (map (wire J (current_encoding c)) ms) \<and>
   current_encoding c' = current_encoding c"
proof (induction ms arbitrary: c)
  case (Cons m ms)
  then obtain c1 where c1: "send_message J c m = Inr c1" "send_all J c1 ms = Inr c'"
    by (auto simp: cxx_bind_eq_Inr)
  then have "sent c1 = sent c @ wire J (current_encoding c) m" "current_encoding c1 = current_encoding c"
    using Cons.prems(1) by (auto simp: send_message_wire Let_def split: if_splits)
  with Cons.IH [OF _ c1(2)] Cons.prems(1) show ?case by simp
qed simp

lemma deliver_wire:
  assumes "json_laws J" and "message_ok fwd J (current_encoding c) m"
  shows "deliver J H c w (wire J (current_encoding c) m) = on_message H c w m"
  using assms by (simp add: deliver_def message_ok_def read_message_wire)

lemma keeps_encoding_wire:
  assumes "json_laws J" and "\<forall>m \<in> set ms. message_ok fwd J e m" and "handler_keeps_encoding H e ms"
  shows "keeps_encoding J H e (map (wire J e) ms)"
  unfolding keeps_encoding_def
proof (intro ballI allI impI)
  fix f c w c' w'
  assume f: "f \<in> set (map (wire J e) ms)" "current_encoding c = e" "deliver J H c w f = Inr (c', w')"
  then obtain m where m: "m \<in> set ms" "f = wire J e m" by auto
  with f assms have "on_message H c w m = Inr (c', w')"
    using deliver_wire [OF assms(1), of fwd c m H w] by simp
  with f(2) m(1) assms(3) show "current_encoding c' = e"
    unfolding handler_keeps_encoding_def by blast
qed

lemma deliver_all_wire:
  "json_laws J \<Longrightarrow> \<forall>m \<in> set ms. message_ok fwd J e m \<Longrightarrow> handler_keeps_encoding H e ms \<Longrightarrow>
   current_encoding c = e \<Longrightarrow> deliver_all J H c w (map (wire J e) ms) = on_messages H c w ms"
proof (induction ms arbitrary: c w)
  case (Cons m ms)
  have "deliver J H c w (wire J e m) = on_message H c w m"
    using deliver_wire [OF Cons.prems(1), of fwd c m H w] Cons.prems(2,4) by simp
  moreover have "deliver_all J H (fst r) (snd r) (map (wire J e) ms) = on_messages H (fst r) (snd r) ms"
    if r: "on_message H c w m = Inr r" for r
  proof (rule Cons.IH)
    have "current_encoding c = e \<longrightarrow> on_message H c w m = Inr (fst r, snd r) \<longrightarrow> current_encoding (fst r) = e"
      using Cons.prems(3) unfolding handler_keeps_encoding_def by (metis list.set_intros(1))
    with r Cons.prems(4) show "current_encoding (fst r) = e" by simp
    show "handler_keeps_encoding H e ms"
      using Cons.prems(3) unfolding handler_keeps_encoding_def by (metis list.set_intros(2))
    show "\<forall>m \<in> set ms. message_ok fwd J e m" using Cons.prems(2) by simp
  qed (rule Cons.prems(1))
  ultimately show ?case by (cases "on_message H c w m") simp_all
qed simp

lemma sent_messages_delivered:
  assumes J: "json_laws J" and ms: "\<forall>m \<in> set ms. message_ok fwd J e m"
    and H: "handler_keeps_encoding H e ms"
    and s: "current_encoding s = e" "send_all J s ms = Inr s'"
    and sock: "sent s' = sent s @ concat sock" "\<forall>seg \<in> set sock. seg \<noteq> []"
    and c: "conn_wf c" "pending c = []" "current_encoding (io c) = e"
  shows "case on_messages H (io c) w ms of
      Inl err \<Rightarrow> handle_data_available fwd J H c w sock = Some (Inl err)
    | Inr r \<Rightarrow> \<exists>c'. handle_data_available fwd J H c w sock = Some (Inr (c', snd r, [])) \<and>
        io c' = fst r \<and> pending c' = [] \<and> conn_wf c'"
proof -
  let ?fs = "map (wire J e) ms"
  have "NoMessage \<notin> set ms" using ms by (auto simp: message_ok_def message_wf_def)
  then have stream: "concat sock = concat ?fs"
    using send_all_wire [OF _ s(2)] s(1) sock(1) by simp
  have fr: "framing e (enc_frame e)" by (rule framing_enc)
  have frames: "\<forall>f \<in> set ?fs. enc_frame e f \<and> length f \<le> frame_limit fwd"
    using ms by (auto simp: message_ok_def wire_frame)
  have "0 < frame_limit fwd" by (simp add: frame_limit_def BUFFER_SIZE_def MAX_BUFFER_SIZE_def)
  moreover have "?fs \<noteq> [] \<longrightarrow> 0 < length (hd ?fs)"
    using frames framing.frame_nonempty [OF fr] by (cases ?fs) auto
  ultimately show ?thesis
    using framing.handle_frames [OF fr frames, of "[]" J H sock c w]
      keeps_encoding_wire [OF J ms H] deliver_all_wire [OF J ms H c(3)] sock(2) c stream
    by (simp add: framing.partial_def [OF fr])
qed

section \<open>A frame that is never consumed\<close>

text \<open>
  The length field of the binary encoding is added to its own size in 64 bits. The five bytes below
  decode to 2^64 - 5, so the total is 0: the message is complete, has no bytes, and stays.
\<close>

definition zero_frame :: "byte list" where
  "zero_frame = [0xFB, 0xFF, 0xFF, 0xFF, 0x0F]"

lemma zero_frame_check: "cbor_check_read_message_complete (zero_frame @ rest) = Inr 0"
  by (simp add: cbor_check_read_message_complete_def zero_frame_def try_decode_unsigned_def
      shl_int_def Let_def)

lemma zero_frame_deliver:
  "current_encoding i = JsonCbor \<Longrightarrow> deliver J H i w [] = handle_message_parse_error H i w
     (RuntimeError ''Invalid varint'') internal_error (error_to_string internal_error)"
  by (simp add: deliver_def read_message_def cbor_read_message_def decode_unsigned_def
      try_decode_unsigned_def on_error_def)

definition error_keeps_encoding :: "('j, 'w) connection_handler \<Rightarrow> encoding \<Rightarrow> bool" where
  "error_keeps_encoding H e \<longleftrightarrow> (\<forall>i w ex code text i' w'. current_encoding i = e \<longrightarrow>
     handle_message_parse_error H i w ex code text = Inr (i', w') \<longrightarrow> current_encoding i' = e)"

lemma zero_frame_stuck:
  "process_messages J H k c w = Some r \<Longrightarrow> current_encoding (io c) = JsonCbor \<Longrightarrow>
   pending c = zero_frame @ rest \<Longrightarrow> error_keeps_encoding H JsonCbor \<Longrightarrow> \<exists>e. r = Inl e"
proof (induction J H k c w r rule: process_messages.raw_induct [rotated 1, consumes 1])
  case (1 process J H k c w r)
  have "pending c \<noteq> []" using 1(4) by (simp add: zero_frame_def)
  then have lt: "buffer_start_off c < buffer_off c" by (simp add: pending_def)
  have chk: "check_read_message_complete JsonCbor (pending c) off = Inr 0" for off
    by (simp add: check_read_message_complete_def 1(4) zero_frame_check)
  show ?case
  proof (cases "deliver J H (io c) w []")
    case (Inl e)
    then show ?thesis using 1(2) lt by (simp add: chk 1(3)) blast
  next
    case (Inr d)
    then have "process J H (buffer_start_off c) (c\<lparr>io := fst d\<rparr>) (snd d) = Some r"
      using 1(2) lt by (simp add: chk 1(3))
    moreover have "current_encoding (fst d) = JsonCbor"
      using Inr 1(5) zero_frame_deliver [OF 1(3)] 1(3) unfolding error_keeps_encoding_def
      by (metis prod.collapse)
    moreover have "pending (c\<lparr>io := fst d\<rparr>) = zero_frame @ rest"
      using 1(4) by (simp add: pending_def)
    ultimately show ?thesis using 1(1) [of _ _ _ "c\<lparr>io := fst d\<rparr>"] 1(5) by simp
  qed
qed

end
