(* ===== verification/Ipc_Rpc.thy ===== *)
theory Ipc_Rpc
  imports Ipc_Connection "HOL-Library.AList"
begin

text \<open>
  Remote calls over a connection: the server's method table, the built-in \<^verbatim>\<open>.hello\<close> method that
  negotiates the encoding, and the client that numbers calls and hands each reply to the callback of its
  call (\<^verbatim>\<open>simple-ipc/src/server\<close>, \<^verbatim>\<open>simple-ipc/src/client\<close>).

  Code that may throw half way through its effects is a function from a state to the state it leaves
  and the exception it throws, if any (\<open>'s eff\<close>). The callbacks of calls are data (the hello callback,
  or a user callback by number), and what the user callbacks are given is logged.
\<close>

section \<open>Effects with exceptions\<close>

type_synonym 's eff = "'s \<Rightarrow> 's \<times> cxx_error option"

definition eff_then :: "'s eff \<Rightarrow> 's eff \<Rightarrow> 's eff" where
  "eff_then f g s = (case f s of (s', None) \<Rightarrow> g s' | (s', Some e) \<Rightarrow> (s', Some e))"

definition to_cxx :: "'s \<times> cxx_error option \<Rightarrow> 's cxx" where
  "to_cxx r = (case snd r of None \<Rightarrow> Inr (fst r) | Some e \<Rightarrow> Inl e)"

definition eff_io :: "(conn_io \<Rightarrow> conn_io cxx) \<Rightarrow> (conn_io \<times> 'w) eff" where
  "eff_io f s = (case f (fst s) of Inl e \<Rightarrow> (s, Some e) | Inr c \<Rightarrow> ((c, snd s), None))"

lemma to_cxx_simps [simp]: "to_cxx (s, None) = Inr s" "to_cxx (s, Some e) = Inl e"
  by (simp_all add: to_cxx_def)

section \<open>The server's method table\<close>

type_synonym ('j, 'w) result_handler = "'j rpc_json_result \<Rightarrow> (conn_io \<times> 'w) eff"
type_synonym ('j, 'w) call_handler_async = "string \<Rightarrow> 'j \<Rightarrow> ('j, 'w) result_handler \<Rightarrow> (conn_io \<times> 'w) eff"
type_synonym ('j, 'w) handler_table = "string \<rightharpoonup> ('j, 'w) call_handler_async"

definition add_handler_async ::
  "('j, 'w) handler_table \<Rightarrow> string \<Rightarrow> ('j, 'w) call_handler_async \<Rightarrow> ('j, 'w) handler_table cxx" where
  "add_handler_async t method h =
     (if t method \<noteq> None then Inl (RuntimeError ''A handler for this method already exists'')
      else Inr (t(method \<mapsto> h)))"

definition add_handler ::
  "('j, 'w) handler_table \<Rightarrow> string \<Rightarrow> (string \<Rightarrow> 'j \<Rightarrow> conn_io \<times> 'w \<Rightarrow> ('j rpc_json_result \<times> (conn_io \<times> 'w)) cxx) \<Rightarrow>
   ('j, 'w) handler_table cxx" where
  "add_handler t method h = add_handler_async t method (\<lambda>m d result s.
     case h m d s of Inl e \<Rightarrow> (s, Some e) | Inr (r, s') \<Rightarrow> result r s')"

definition invoke_method ::
  "'j json_lib \<Rightarrow> ('j, 'w) handler_table \<Rightarrow> string \<Rightarrow> 'j \<Rightarrow> ('j, 'w) result_handler \<Rightarrow> (conn_io \<times> 'w) eff" where
  "invoke_method J t method data handler s =
     (case t method of
        None \<Rightarrow> handler (result_error J method_not_found (error_to_string method_not_found) (jl_null J)) s
      | Some h \<Rightarrow>
          (case h method data handler s of
             (s', None) \<Rightarrow> (s', None)
           | (s', Some Undefined) \<Rightarrow> (s', Some Undefined)
           | (s', Some (RpcCallException code text)) \<Rightarrow> handler (result_error J code text (jl_null J)) s'
           | (s', Some e) \<Rightarrow>
               handler (result_error J internal_error (error_to_string internal_error) (jl_null J)) s'))"

text \<open>
  The reply to a request with an id. The connection is alive: the caller of \<^verbatim>\<open>invoke\<close> holds it.
  The error message carries \<^verbatim>\<open>_data\<close>, the payload of a success, and not \<^verbatim>\<open>_error_data\<close>.
\<close>

definition reply :: "'j json_lib \<Rightarrow> int \<Rightarrow> ('j, 'w) result_handler" where
  "reply J i result =
     (if result_success result
      then eff_io (\<lambda>c. send_response J c (mk_response (Some i) (res_data result)))
      else eff_io (\<lambda>c. send_error J c
             (mk_error (Some i) (res_error_code result) (res_error_text result) (res_data result))))"

definition invoke :: "'j json_lib \<Rightarrow> ('j, 'w) handler_table \<Rightarrow> 'j rpc_message \<Rightarrow> (conn_io \<times> 'w) eff" where
  "invoke J t msg =
     (if rpc_has_id msg then invoke_method J t (rpc_method msg) (rpc_data msg) (reply J (rpc_id msg))
      else invoke_method J t (rpc_method msg) (rpc_data msg) (\<lambda>result s. (s, None)))"

section \<open>The hello method\<close>

definition current_version :: int where "current_version = 1"

fun choose_encoding :: "'j json_lib \<Rightarrow> 'j list \<Rightarrow> encoding cxx" where
  "choose_encoding J [] = Inr get_default_encoding"
| "choose_encoding J (v # vs) =
     cxx_bind (jl_get_str J v) (\<lambda>name.
       case get_encoding_by_name name of Some e \<Rightarrow> Inr e | None \<Rightarrow> choose_encoding J vs)"

definition hello_reply :: "'j json_lib \<Rightarrow> encoding \<Rightarrow> 'j" where
  "hello_reply J e =
     jl_set J (jl_set J (jl_null J) ''version'' (jl_of_int J current_version))
       ''encoding'' (jl_of_str J (encoding_name e))"

definition set_encoding :: "encoding \<Rightarrow> (conn_io \<times> 'w) eff" where
  "set_encoding e s = (((fst s)\<lparr>current_encoding := e\<rparr>, snd s), None)"

definition handle_hello :: "'j json_lib \<Rightarrow> ('j, 'w) call_handler_async" where
  "handle_hello J method data handler s =
     (case jl_find J data ''encodings'' of
        None \<Rightarrow> (s, Some JsonException)
      | Some names \<Rightarrow>
          (case choose_encoding J (jl_elems J names) of
             Inl e \<Rightarrow> (s, Some e)
           | Inr enc \<Rightarrow> eff_then (handler (result_response J (hello_reply J enc))) (set_encoding enc) s))"

definition default_rpc_handler :: "'j json_lib \<Rightarrow> ('j, 'w) handler_table" where
  "default_rpc_handler J = [''.hello'' \<mapsto> handle_hello J]"

section \<open>The service\<close>

text \<open>
  \<^verbatim>\<open>base_service_impl\<close> with the callback of \<^verbatim>\<open>service\<close>: methods that start with a dot belong to the
  default table, the others to the table of the service. The base class rejects the other messages.
\<close>

definition service_handle_rpc ::
  "'j json_lib \<Rightarrow> ('j, 'w) handler_table \<Rightarrow> 'j rpc_message \<Rightarrow> (conn_io \<times> 'w) eff" where
  "service_handle_rpc J t msg =
     (if rpc_method msg \<noteq> [] \<and> hd (rpc_method msg) = CHR ''.'' then invoke J (default_rpc_handler J) msg
      else invoke J t msg)"

definition service_parse_error ::
  "'j json_lib \<Rightarrow> conn_io \<Rightarrow> 'w \<Rightarrow> cxx_error \<Rightarrow> int \<Rightarrow> string \<Rightarrow> (conn_io \<times> 'w) cxx" where
  "service_parse_error J c w ex code text =
     cxx_bind (send_error J c (mk_error None code text (jl_null J))) (\<lambda>c. Inr (c, w))"

definition service_handler :: "'j json_lib \<Rightarrow> ('j, 'w) handler_table \<Rightarrow> ('j, 'w) connection_handler" where
  "service_handler J t = base_handler\<lparr>
     handle_rpc := \<lambda>c w msg. to_cxx (service_handle_rpc J t msg (c, w)),
     handle_message_parse_error := service_parse_error J\<rparr>"

section \<open>The client\<close>

datatype callback = HelloCallback | UserCallback nat

record 'j service_client =
  next_message_id :: int
  cbs :: "(int \<times> callback) list"
  hello_response_value :: bool
  results :: "(nat \<times> 'j rpc_json_result) list"

definition new_client :: "'j service_client" where
  "new_client = \<lparr>next_message_id = 0, cbs = [], hello_response_value = False, results = []\<rparr>"

text \<open>
  The state of a client is its connection (none before \<^verbatim>\<open>open\<close> and after \<^verbatim>\<open>close\<close>) and the client object.
\<close>

type_synonym 'j client_state = "conn_io option \<times> 'j service_client"

definition add_rpc_cb :: "int \<Rightarrow> callback \<Rightarrow> 'j service_client \<Rightarrow> 'j service_client" where
  "add_rpc_cb i cb cl = cl\<lparr>cbs := AList.update i cb (cbs cl)\<rparr>"

definition get_rpc_cb :: "int \<Rightarrow> 'j service_client \<Rightarrow> callback option \<times> 'j service_client" where
  "get_rpc_cb i cl = (case map_of (cbs cl) i of
     Some cb \<Rightarrow> (Some cb, cl\<lparr>cbs := AList.delete i (cbs cl)\<rparr>)
   | None \<Rightarrow> (None, cl))"

text \<open>
  The hello callback. An unknown encoding name stores a null pointer that the next message
  dereferences.
\<close>

definition hello_callback :: "'j json_lib \<Rightarrow> 'j rpc_json_result \<Rightarrow> 'j client_state eff" where
  "hello_callback J res s =
     (if result_success res then
        (case jl_find J (res_data res) ''encoding'' of
           None \<Rightarrow> (s, Some JsonException)
         | Some v \<Rightarrow>
             (case jl_get_str J v of
                Inl e \<Rightarrow> (s, Some e)
              | Inr name \<Rightarrow>
                  (case fst s of
                     None \<Rightarrow> ((None, (snd s)\<lparr>hello_response_value := True\<rparr>), None)
                   | Some c \<Rightarrow>
                       (case get_encoding_by_name name of
                          None \<Rightarrow> (s, Some Undefined)
                        | Some e \<Rightarrow> ((Some (c\<lparr>current_encoding := e\<rparr>),
                                      (snd s)\<lparr>hello_response_value := True\<rparr>), None)))))
      else ((fst s, (snd s)\<lparr>hello_response_value := True\<rparr>), None))"

definition run_callback :: "'j json_lib \<Rightarrow> callback \<Rightarrow> 'j rpc_json_result \<Rightarrow> 'j client_state eff" where
  "run_callback J cb res s = (case cb of
     HelloCallback \<Rightarrow> hello_callback J res s
   | UserCallback n \<Rightarrow> ((fst s, (snd s)\<lparr>results := results (snd s) @ [(n, res)]\<rparr>), None))"

definition finish_call :: "'j json_lib \<Rightarrow> int \<Rightarrow> 'j rpc_json_result \<Rightarrow> 'j client_state eff" where
  "finish_call J i res s = (case get_rpc_cb i (snd s) of
     (None, cl) \<Rightarrow> ((fst s, cl), None)
   | (Some cb, cl) \<Rightarrow> run_callback J cb res (fst s, cl))"

definition impl_send_message :: "'j json_lib \<Rightarrow> 'j rpc_message \<Rightarrow> 'j client_state eff" where
  "impl_send_message J msg s = (case fst s of
     None \<Rightarrow> (s, Some (RuntimeError ''No active connection to send the message on''))
   | Some c \<Rightarrow> (case send_rpc J c msg of
       Inl e \<Rightarrow> (s, Some e) | Inr c' \<Rightarrow> ((Some c', snd s), None)))"

definition client_send_message :: "'j json_lib \<Rightarrow> 'j rpc_message \<Rightarrow> 'j client_state eff" where
  "client_send_message J msg s =
     (if \<not> hello_response_value (snd s) \<and> rpc_method msg \<noteq> ''.hello''
      then finish_call J (rpc_id msg)
             (result_error J no_hello_reply (''Haven'' @ [CHR 0x27] @ ''t got hello reply yet'') (jl_null J)) s
      else impl_send_message J msg s)"

definition call_run :: "'j json_lib \<Rightarrow> string \<Rightarrow> 'j \<Rightarrow> 'j client_state eff" where
  "call_run J method data = client_send_message J (mk_rpc None method data)"

definition call :: "'j json_lib \<Rightarrow> string \<Rightarrow> 'j \<Rightarrow> callback \<Rightarrow> 'j client_state eff" where
  "call J method data cb s =
     (let i = next_message_id (snd s);
          cl = add_rpc_cb i cb ((snd s)\<lparr>next_message_id := i + 1\<rparr>)
      in client_send_message J (mk_rpc (Some i) method data) (fst s, cl))"

definition hello_params :: "'j json_lib \<Rightarrow> 'j" where
  "hello_params J =
     jl_set J (jl_set J (jl_null J) ''version'' (jl_of_int J current_version))
       ''encodings'' (jl_of_list J (map (jl_of_str J) get_preferred_encodings))"

definition send_hello_message :: "'j json_lib \<Rightarrow> 'j client_state eff" where
  "send_hello_message J = call J ''.hello'' (hello_params J) HelloCallback"

definition client_handle_response :: "'j json_lib \<Rightarrow> 'j response_message \<Rightarrow> 'j client_state eff" where
  "client_handle_response J msg s =
     (if \<not> resp_has_id msg then (s, None)
      else finish_call J (resp_id msg) (result_response J (resp_data msg)) s)"

definition client_handle_error :: "'j json_lib \<Rightarrow> 'j error_message \<Rightarrow> 'j client_state eff" where
  "client_handle_error J msg s =
     (if \<not> err_has_id msg then (s, None)
      else finish_call J (err_id msg) (result_error J (err_code msg) (err_text msg) (err_data msg)) s)"

fun run_all :: "'j json_lib \<Rightarrow> (int \<times> callback) list \<Rightarrow> 'j rpc_json_result \<Rightarrow> 'j client_state eff" where
  "run_all J [] res s = (s, None)"
| "run_all J (kv # kvs) res s = eff_then (run_callback J (snd kv) res) (run_all J kvs res) s"

text \<open>
  \<^verbatim>\<open>connection_closed\<close>: the implementation drops its connection, then every waiting callback is given an error.
  The hello callback of a failed call sets the flag again that the first line resets.
\<close>

definition client_connection_closed :: "'j json_lib \<Rightarrow> 'j client_state eff" where
  "client_connection_closed J s =
     (let cl = snd s;
          res = result_error J connection_closed_code (error_to_string connection_closed_code) (jl_null J)
      in run_all J (cbs cl) res (None, cl\<lparr>hello_response_value := False, cbs := []\<rparr>))"

section \<open>Replies of the server\<close>

lemma eff_io_ok: "f (fst s) = Inr c \<Longrightarrow> eff_io f s = ((c, snd s), None)"
  by (simp add: eff_io_def)

lemma invoke_method_not_found:
  "t (rpc_method msg) = None \<Longrightarrow> rpc_has_id msg \<Longrightarrow>
   invoke J t msg s = eff_io (\<lambda>c. send_error J c (mk_error (Some (rpc_id msg)) method_not_found
     ''Method not found'' (jl_null J))) s"
  by (simp add: invoke_def invoke_method_def reply_def result_error_def result_success_def error_to_string_def)

lemma invoke_without_id_silent:
  assumes "\<And>result. h (rpc_method msg) (rpc_data msg) result = h' result"
    and "t (rpc_method msg) = Some h" and "\<not> rpc_has_id msg"
  shows "fst (invoke J t msg s) = fst (h' (\<lambda>r s. (s, None)) s)"
  using assms
  by (auto simp: invoke_def invoke_method_def split: prod.splits option.splits cxx_error.splits)

text \<open>What a synchronous handler answers, an exception included.\<close>

definition sync_outcome ::
  "'j json_lib \<Rightarrow> 's \<Rightarrow> ('j rpc_json_result \<times> 's) cxx \<Rightarrow> 'j rpc_json_result \<times> 's" where
  "sync_outcome J s r = (case r of
     Inr rs \<Rightarrow> rs
   | Inl (RpcCallException code text) \<Rightarrow> (result_error J code text (jl_null J), s)
   | Inl e \<Rightarrow> (result_error J internal_error (error_to_string internal_error) (jl_null J), s))"

lemma invoke_sync:
  assumes "add_handler t m h = Inr t'" and "rpc_method msg = m" and "rpc_has_id msg"
    and "h m (rpc_data msg) s \<noteq> Inl Undefined"
    and "sync_outcome J s (h m (rpc_data msg) s) = (res, s')"
    and "reply J (rpc_id msg) res s' = (s'', None)"
  shows "invoke J t' msg s = (s'', None)"
  using assms
  by (auto simp: add_handler_def add_handler_async_def invoke_def invoke_method_def sync_outcome_def
      split: if_splits sum.splits cxx_error.splits)

section \<open>Hello\<close>

lemma get_encoding_by_name_eq:
  "get_encoding_by_name n = (if n = ''json_cbor'' then Some JsonCbor else if n = ''json'' then Some Json else None)"
  by (simp add: get_encoding_by_name_def encodings_map_def add_encoding_def encoding_name_def)

lemma get_encoding_by_name_name [simp]: "get_encoding_by_name (encoding_name e) = Some e"
  by (cases e) (simp_all add: get_encoding_by_name_eq encoding_name_def)

lemma get_default_encoding_eq [simp]: "get_default_encoding = Json"
  by (simp add: get_default_encoding_def encodings_map_def add_encoding_def encoding_name_def)

lemma choose_encoding_first:
  "json_laws J \<Longrightarrow> choose_encoding J (map (jl_of_str J) names) =
   Inr (case find (\<lambda>n. get_encoding_by_name n \<noteq> None) names of
          None \<Rightarrow> Json | Some n \<Rightarrow> the (get_encoding_by_name n))"
  by (induction names) (auto simp: json_laws_scalar split: option.splits)

lemma handle_hello_reply:
  assumes "json_laws J" and "jl_find J data ''encodings'' = Some v" and "jl_elems J v = map (jl_of_str J) names"
    and "handler (result_response J (hello_reply J e)) s = (s', None)"
    and "e = (case find (\<lambda>n. get_encoding_by_name n \<noteq> None) names of
                None \<Rightarrow> Json | Some n \<Rightarrow> the (get_encoding_by_name n))"
  shows "handle_hello J m data handler s = (((fst s')\<lparr>current_encoding := e\<rparr>, snd s'), None)"
  using assms by (simp add: handle_hello_def choose_encoding_first eff_then_def set_encoding_def)

lemma hello_callback_ok:
  assumes "json_laws J" and "res = result_response J (hello_reply J e)"
  shows "hello_callback J res (Some c, cl) =
    ((Some (c\<lparr>current_encoding := e\<rparr>), cl\<lparr>hello_response_value := True\<rparr>), None)"
  using assms
  by (simp add: hello_callback_def result_response_def result_success_def hello_reply_def json_access)

section \<open>Every call is answered at most once\<close>

definition waiting :: "nat \<Rightarrow> 'j client_state \<Rightarrow> nat" where
  "waiting n s = length (filter (\<lambda>kv. snd kv = UserCallback n) (cbs (snd s)))"

definition answered :: "nat \<Rightarrow> 'j client_state \<Rightarrow> nat" where
  "answered n s = length (filter (\<lambda>r. fst r = n) (results (snd s)))"

definition client_inv :: "nat set \<Rightarrow> 'j client_state \<Rightarrow> bool" where
  "client_inv issued s \<longleftrightarrow>
     distinct (map fst (cbs (snd s))) \<and>
     (\<forall>k \<in> fst ` set (cbs (snd s)). k < next_message_id (snd s)) \<and>
     (\<forall>n. waiting n s + answered n s = (if n \<in> issued then 1 else 0))"

text \<open>The steps of a client; \<open>issued\<close> collects the user callbacks given to \<open>call\<close>, each once.\<close>

inductive client_step :: "'j json_lib \<Rightarrow> nat set \<times> 'j client_state \<Rightarrow> nat set \<times> 'j client_state \<Rightarrow> bool"
  for J where
  step_call: "n \<notin> issued \<Longrightarrow> client_step J (issued, s) (insert n issued, fst (call J m d (UserCallback n) s))"
| step_run: "client_step J (issued, s) (issued, fst (call_run J m d s))"
| step_open: "client_step J (issued, (None, cl)) (issued, (Some c, cl))"
| step_hello: "client_step J (issued, s) (issued, fst (send_hello_message J s))"
| step_response: "client_step J (issued, s) (issued, fst (client_handle_response J r s))"
| step_error: "client_step J (issued, s) (issued, fst (client_handle_error J e s))"
| step_closed: "client_step J (issued, s) (issued, fst (client_connection_closed J s))"

definition client_reachable :: "'j json_lib \<Rightarrow> nat set \<Rightarrow> 'j client_state \<Rightarrow> bool" where
  "client_reachable J issued s \<longleftrightarrow> (client_step J)\<^sup>*\<^sup>* ({}, (None, new_client)) (issued, s)"

lemma delete_filter: "AList.delete k al = filter (\<lambda>kv. fst kv \<noteq> k) al"
  by (auto simp: AList.delete_eq case_prod_unfold intro: filter_cong)

lemma update_fresh: "k \<notin> fst ` set al \<Longrightarrow> AList.update k v al = al @ [(k, v)]"
  by (induction al) auto

lemma count_delete:
  "distinct (map fst al) \<Longrightarrow> map_of al k = Some v \<Longrightarrow>
   length (filter (\<lambda>kv. snd kv = x) (AList.delete k al)) + (if v = x then 1 else 0) =
   length (filter (\<lambda>kv. snd kv = x) al)"
proof (induction al)
  case (Cons kv al)
  show ?case
  proof (cases "fst kv = k")
    case True
    with Cons.prems have "k \<notin> fst ` set al" by auto
    then have "AList.delete k al = al" by (auto simp: delete_filter filter_id_conv)
    with True Cons.prems show ?thesis by (cases kv) auto
  next
    case False
    with Cons show ?thesis by (cases kv) auto
  qed
qed simp

lemma run_callback_effect:
  "cbs (snd (fst (run_callback J cb res s))) = cbs (snd s)"
  "next_message_id (snd (fst (run_callback J cb res s))) = next_message_id (snd s)"
  "results (snd (fst (run_callback J cb res s))) =
     results (snd s) @ (case cb of HelloCallback \<Rightarrow> [] | UserCallback n \<Rightarrow> [(n, res)])"
  by (auto simp: run_callback_def hello_callback_def split: callback.splits option.splits sum.splits)

lemma client_inv_cong:
  "cbs (snd s') = cbs (snd s) \<Longrightarrow> next_message_id (snd s') = next_message_id (snd s) \<Longrightarrow>
   results (snd s') = results (snd s) \<Longrightarrow> client_inv issued s' = client_inv issued s"
  by (simp add: client_inv_def waiting_def answered_def)

lemma finish_call_inv:
  assumes "client_inv issued s"
  shows "client_inv issued (fst (finish_call J i res s))"
proof (cases "map_of (cbs (snd s)) i")
  case None
  with assms show ?thesis by (simp add: finish_call_def get_rpc_cb_def)
next
  case (Some cb)
  let ?cl = "(snd s)\<lparr>cbs := AList.delete i (cbs (snd s))\<rparr>"
  have dist: "distinct (map fst (cbs (snd s)))" using assms by (simp add: client_inv_def)
  have fc: "finish_call J i res s = run_callback J cb res (fst s, ?cl)"
    using Some by (simp add: finish_call_def get_rpc_cb_def)
  have "waiting n (fst (finish_call J i res s)) + answered n (fst (finish_call J i res s)) =
      waiting n s + answered n s" for n
    using count_delete [OF dist Some, of "UserCallback n"]
    by (cases cb) (auto simp: fc waiting_def answered_def run_callback_effect)
  moreover have "distinct (map fst (AList.delete i (cbs (snd s))))"
    using assms by (simp add: client_inv_def AList.distinct_delete)
  moreover have "set (AList.delete i (cbs (snd s))) \<subseteq> set (cbs (snd s))"
    by (auto simp: delete_filter)
  ultimately show ?thesis
    using assms by (auto simp: client_inv_def fc run_callback_effect)
qed

lemma client_send_inv:
  "client_inv issued s \<Longrightarrow> client_inv issued (fst (client_send_message J msg s))"
proof -
  assume inv: "client_inv issued s"
  have "client_inv issued (fst (impl_send_message J msg s))"
    by (subst client_inv_cong [of _ s])
      (auto simp: impl_send_message_def inv split: option.splits sum.splits)
  with inv show ?thesis by (simp add: client_send_message_def finish_call_inv)
qed

lemma call_inv:
  assumes "client_inv issued s" and "\<And>n. cb = UserCallback n \<Longrightarrow> n \<notin> issued"
  shows "client_inv (issued \<union> (case cb of HelloCallback \<Rightarrow> {} | UserCallback n \<Rightarrow> {n}))
    (fst (call J m d cb s))"
proof -
  let ?i = "next_message_id (snd s)"
  have "?i \<notin> fst ` set (cbs (snd s))" using assms(1) by (auto simp: client_inv_def)
  then have upd: "AList.update ?i v (cbs (snd s)) = cbs (snd s) @ [(?i, v)]" for v
    by (rule update_fresh)
  let ?s = "(fst s, add_rpc_cb ?i cb ((snd s)\<lparr>next_message_id := ?i + 1\<rparr>))"
  let ?new = "case cb of HelloCallback \<Rightarrow> {} | UserCallback n \<Rightarrow> {n}"
  have "waiting n ?s + answered n ?s = (if n \<in> issued \<union> ?new then 1 else 0)" for n
  proof -
    have "waiting n s + answered n s = (if n \<in> issued then 1 else 0)"
      using assms(1) by (simp add: client_inv_def)
    then show ?thesis
      using assms(2) by (cases cb) (auto simp: waiting_def answered_def add_rpc_cb_def upd)
  qed
  then have "client_inv (issued \<union> ?new) ?s"
    using assms(1) \<open>?i \<notin> _\<close> by (auto simp: client_inv_def add_rpc_cb_def upd)
  then show ?thesis unfolding call_def Let_def by (rule client_send_inv)
qed

lemma run_all_effect:
  "\<not> result_success res \<Longrightarrow>
   run_all J kvs res s = ((fst s, (snd s)\<lparr>
     hello_response_value := hello_response_value (snd s) \<or> HelloCallback \<in> snd ` set kvs,
     results := results (snd s) @
       concat (map (\<lambda>kv. case snd kv of HelloCallback \<Rightarrow> [] | UserCallback n \<Rightarrow> [(n, res)]) kvs)\<rparr>), None)"
proof (induction kvs arbitrary: s)
  case (Cons kv kvs)
  then show ?case
    by (cases "snd kv") (auto simp: eff_then_def run_callback_def hello_callback_def)
qed simp

lemma count_answers:
  "length (filter (\<lambda>r. fst r = n)
     (concat (map (\<lambda>kv. case snd kv of HelloCallback \<Rightarrow> [] | UserCallback n \<Rightarrow> [(n, res)]) kvs))) =
   length (filter (\<lambda>kv. snd kv = UserCallback n) kvs)"
  by (induction kvs) (auto split: callback.splits)

lemma connection_closed_effect:
  assumes "s' = fst (client_connection_closed J s)"
  shows "fst s' = None" "cbs (snd s') = []" "next_message_id (snd s') = next_message_id (snd s)"
    "answered n s' = waiting n s + answered n s"
  by (simp_all add: assms client_connection_closed_def Let_def run_all_effect result_error_def
      result_success_def answered_def waiting_def count_answers)

lemma closed_inv:
  assumes "client_inv issued s"
  shows "client_inv issued (fst (client_connection_closed J s))" (is "client_inv issued ?s")
proof -
  note eff = connection_closed_effect [of ?s J s, OF refl]
  have "waiting n ?s = 0" for n by (simp add: waiting_def eff(2))
  moreover have "waiting n s + answered n s = (if n \<in> issued then 1 else 0)" for n
    using assms by (simp add: client_inv_def)
  ultimately show ?thesis unfolding client_inv_def by (simp add: eff)
qed

lemma client_step_inv:
  assumes "client_step J (issued, s) (issued', s')" and "client_inv issued s"
  shows "client_inv issued' s'"
  using assms(1)
proof cases
  case (step_call n m d)
  then show ?thesis using call_inv [OF assms(2), of "UserCallback n" J m d] by simp
next
  case step_hello
  then show ?thesis
    using call_inv [OF assms(2), of HelloCallback J "''.hello''" "hello_params J"]
    by (simp add: send_hello_message_def)
next
  case (step_open cl c)
  then show ?thesis using assms(2) client_inv_cong [of "(Some c, cl)" "(None, cl)"] by simp
qed (auto simp: call_run_def client_send_inv client_handle_response_def client_handle_error_def
    finish_call_inv closed_inv assms(2))

lemma client_reachable_inv: "client_reachable J issued s \<Longrightarrow> client_inv issued s"
  unfolding client_reachable_def
proof (induction "(issued, s)" arbitrary: issued s rule: rtranclp_induct)
  case base
  then show ?case by (simp add: client_inv_def new_client_def waiting_def answered_def)
next
  case (step y)
  then show ?case by (cases y) (auto intro: client_step_inv)
qed

end
