(* ===== verification/Ipc_Unix.thy ===== *)
theory Ipc_Unix
  imports Ipc_Rpc
begin

text \<open>
  The Unix sockets under the IPC library: the event loop (\<^verbatim>\<open>epoll_io_handler\<close>), the listening service
  (\<^verbatim>\<open>unix_service_impl\<close>) and the client's socket (\<^verbatim>\<open>unix_service_client_impl\<close>).

  The kernel is a parameter: each system call's return value is an argument. The state keeps what the
  code changes: the descriptors it owns, the callbacks it registered, the socket files it made, and what
  it told its callback interface.
\<close>

section \<open>Event loop\<close>

text \<open>A registered callback, by what it calls.\<close>

datatype io_callback = HandleIncoming | ServiceClose | HandleData int | OnClose int

record socket_cbs =
  data_cb :: "io_callback option"
  close_cb :: "io_callback option"

type_synonym io_table = "int \<rightharpoonup> socket_cbs"

definition add_socket :: "int \<Rightarrow> io_callback \<Rightarrow> io_callback \<Rightarrow> io_table \<Rightarrow> io_table" where
  "add_socket fd d c t = t(fd \<mapsto> \<lparr>data_cb = Some d, close_cb = Some c\<rparr>)"

definition remove_socket :: "int \<Rightarrow> io_table \<Rightarrow> io_table" where
  "remove_socket fd t = t(fd := None)"

record epoll_event =
  ev_fd :: int
  ev_in :: bool
  ev_rdhup :: bool
  ev_hup :: bool

text \<open>One event of a batch: a hang-up runs the close callback, and only otherwise is data read.\<close>

definition dispatch_event ::
  "('s \<Rightarrow> io_table) \<Rightarrow> (io_callback \<Rightarrow> 's \<Rightarrow> 's) \<Rightarrow> epoll_event \<Rightarrow> 's \<Rightarrow> 's" where
  "dispatch_event table exec ev s = (case table s (ev_fd ev) of
     None \<Rightarrow> s
   | Some cb \<Rightarrow>
       if ev_rdhup ev \<or> ev_hup ev then (case close_cb cb of None \<Rightarrow> s | Some k \<Rightarrow> exec k s)
       else if ev_in ev then (case data_cb cb of None \<Rightarrow> s | Some k \<Rightarrow> exec k s)
       else s)"

definition run_batch ::
  "('s \<Rightarrow> io_table) \<Rightarrow> (io_callback \<Rightarrow> 's \<Rightarrow> 's) \<Rightarrow> epoll_event list \<Rightarrow> 's \<Rightarrow> 's" where
  "run_batch table exec evs s = fold (dispatch_event table exec) evs s"

section \<open>The listening service\<close>

record unix_service =
  svc_fd :: int
  svc_path :: string
  connections :: "int list"
  open_fds :: "int set"
  io_cbs :: io_table
  socket_files :: "string set"
  client_log :: "(bool \<times> int) list"     \<comment> \<open>\<^verbatim>\<open>on_client_connected\<close> / \<^verbatim>\<open>on_client_disconnected\<close>\<close>

text \<open>Return values of the calls into the kernel; \<^verbatim>\<open>sizeof(sun_path)\<close> is 108.\<close>

record kernel =
  k_socket :: int
  k_bind_ok :: bool
  k_listen_ok :: bool
  k_connect_ok :: bool
  k_close_ok :: bool
  k_accept :: int

definition SUN_PATH_SIZE :: nat where "SUN_PATH_SIZE = 108"

definition service_close :: "kernel \<Rightarrow> unix_service eff" where
  "service_close K s =
     (if svc_fd s = -1 then (s, None)
      else
        let s = s\<lparr>io_cbs := remove_socket (svc_fd s) (io_cbs s), open_fds := open_fds s - {svc_fd s}, svc_fd := -1\<rparr> in
        if \<not> k_close_ok K then (s, Some (RuntimeError ''Failed to close socket''))
        else (s\<lparr>socket_files := socket_files s - {svc_path s}, svc_path := ''''\<rparr>, None))"

definition service_bind :: "kernel \<Rightarrow> string \<Rightarrow> unix_service eff" where
  "service_bind K path s =
     (if svc_fd s \<noteq> -1 then (s, Some (RuntimeError ''Socket already created (invalid program state)''))
      else
        let s = s\<lparr>svc_fd := k_socket K\<rparr> in
        if k_socket K < 0 then (s, Some (RuntimeError ''Failed to open socket: socket() returned''))
        else
          let s = s\<lparr>open_fds := insert (k_socket K) (open_fds s)\<rparr> in
          if length path \<ge> SUN_PATH_SIZE then (s, Some (RuntimeError ''Path is too long''))
          else
            let s = s\<lparr>svc_path := path, socket_files := socket_files s - {path}\<rparr> in
            if \<not> k_bind_ok K then (fst (service_close K s), Some (RuntimeError ''Failed to bind socket''))
            else
              let s = s\<lparr>socket_files := insert path (socket_files s)\<rparr> in
              if \<not> k_listen_ok K
              then (fst (service_close K s), Some (RuntimeError ''Failed to start listening on socket''))
              else (s\<lparr>io_cbs := add_socket (svc_fd s) HandleIncoming ServiceClose (io_cbs s)\<rparr>, None))"

definition handle_incoming :: "kernel \<Rightarrow> unix_service \<Rightarrow> unix_service" where
  "handle_incoming K s =
     (let fd = k_accept K in
      if fd < 0 then s
      else s\<lparr>open_fds := insert fd (open_fds s),
             io_cbs := add_socket fd (HandleData fd) (OnClose fd) (io_cbs s),
             connections := List.insert fd (connections s),
             client_log := client_log s @ [(True, fd)]\<rparr>)"

definition connection_closed :: "int \<Rightarrow> unix_service \<Rightarrow> unix_service" where
  "connection_closed fd s =
     s\<lparr>io_cbs := remove_socket fd (io_cbs s), open_fds := open_fds s - {fd},
       connections := remove1 fd (connections s),
       client_log := client_log s @ [(False, fd)]\<rparr>"

text \<open>The destructor unregisters the connections that are left and does not close their descriptors.\<close>

definition service_destroy :: "unix_service \<Rightarrow> unix_service" where
  "service_destroy s = s\<lparr>io_cbs := fold remove_socket (connections s) (io_cbs s)\<rparr>"

section \<open>The client's socket\<close>

record unix_client =
  cli_fd :: int
  cli_path :: string
  cli_connection :: bool
  cli_open_fds :: "int set"
  cli_cbs :: io_table

definition client_close :: "kernel \<Rightarrow> unix_client eff" where
  "client_close K s =
     (if cli_fd s = -1 then (s, None)
      else
        let s = (if cli_connection s
                 then s\<lparr>cli_cbs := remove_socket (cli_fd s) (cli_cbs s), cli_connection := False\<rparr> else s);
            s = s\<lparr>cli_open_fds := cli_open_fds s - {cli_fd s}, cli_fd := -1\<rparr> in
        if \<not> k_close_ok K then (s, Some (RuntimeError ''Failed to close socket''))
        else (s\<lparr>cli_path := ''''\<rparr>, None))"

definition client_open :: "kernel \<Rightarrow> string \<Rightarrow> unix_client eff" where
  "client_open K path s =
     (if cli_fd s \<noteq> -1 then (s, Some (RuntimeError ''Socket already created (invalid program state)''))
      else
        let s = s\<lparr>cli_fd := k_socket K\<rparr> in
        if k_socket K < 0 then (s, Some (RuntimeError ''Failed to open socket: socket() returned''))
        else
          let s = s\<lparr>cli_open_fds := insert (k_socket K) (cli_open_fds s)\<rparr> in
          if length path \<ge> SUN_PATH_SIZE then (s, Some (RuntimeError ''Path is too long''))
          else
            let s = s\<lparr>cli_path := path\<rparr> in
            if \<not> k_connect_ok K then (fst (client_close K s), Some (RuntimeError ''Failed to connect''))
            else (s\<lparr>cli_connection := True,
                    cli_cbs := add_socket (cli_fd s) (HandleData (cli_fd s)) (OnClose (cli_fd s)) (cli_cbs s)\<rparr>, None))"

section \<open>What the sockets keep\<close>

text \<open>
  The service owns what it uses: a registered descriptor is open, the listening socket and the
  connections are registered with their own callbacks, and nothing else is registered.
\<close>

definition service_inv :: "unix_service \<Rightarrow> bool" where
  "service_inv s \<longleftrightarrow>
     distinct (connections s) \<and> svc_fd s \<notin> set (connections s) \<and> set (connections s) \<subseteq> open_fds s \<and>
     (\<forall>fd \<in> set (connections s). 0 \<le> fd) \<and>
     (svc_fd s \<noteq> -1 \<longrightarrow> 0 \<le> svc_fd s \<and> svc_fd s \<in> open_fds s) \<and>
     (\<forall>fd. io_cbs s fd =
        (if fd \<in> set (connections s) then Some \<lparr>data_cb = Some (HandleData fd), close_cb = Some (OnClose fd)\<rparr>
         else if fd = svc_fd s \<and> fd \<noteq> -1 then Some \<lparr>data_cb = Some HandleIncoming, close_cb = Some ServiceClose\<rparr>
         else None))"

text \<open>One callback of the service; a fresh descriptor is one that is not open.\<close>

definition exec_callback :: "kernel \<Rightarrow> io_callback \<Rightarrow> unix_service \<Rightarrow> unix_service" where
  "exec_callback K k s = (case k of
     HandleIncoming \<Rightarrow> handle_incoming K s
   | ServiceClose \<Rightarrow> fst (service_close K s)
   | HandleData fd \<Rightarrow> s
   | OnClose fd \<Rightarrow> connection_closed fd s)"

lemma handle_incoming_inv:
  "service_inv s \<Longrightarrow> k_accept K \<notin> open_fds s \<Longrightarrow> service_inv (handle_incoming K s)"
  by (auto simp: service_inv_def handle_incoming_def Let_def add_socket_def)

lemma service_close_inv: "service_inv s \<Longrightarrow> service_inv (fst (service_close K s))"
  by (auto simp: service_inv_def service_close_def Let_def remove_socket_def)

lemma connection_closed_inv:
  "service_inv s \<Longrightarrow> fd \<in> set (connections s) \<Longrightarrow> service_inv (connection_closed fd s)"
  by (auto simp: service_inv_def connection_closed_def remove_socket_def)

lemma dispatch_event_inv:
  assumes "service_inv s" and "k_accept K \<notin> open_fds s"
  shows "service_inv (dispatch_event io_cbs (exec_callback K) ev s)"
proof (cases "ev_fd ev \<in> set (connections s)")
  case True
  with assms(1) have "io_cbs s (ev_fd ev) =
      Some \<lparr>data_cb = Some (HandleData (ev_fd ev)), close_cb = Some (OnClose (ev_fd ev))\<rparr>"
    by (auto simp: service_inv_def)
  with assms(1) True show ?thesis
    by (simp add: dispatch_event_def exec_callback_def connection_closed_inv)
next
  case False
  with assms(1) have "io_cbs s (ev_fd ev) = (if ev_fd ev = svc_fd s \<and> ev_fd ev \<noteq> -1
      then Some \<lparr>data_cb = Some HandleIncoming, close_cb = Some ServiceClose\<rparr> else None)"
    by (simp add: service_inv_def)
  with assms show ?thesis
    by (simp add: dispatch_event_def exec_callback_def handle_incoming_inv service_close_inv)
qed

lemma service_bind_inv:
  assumes "service_inv s" and "k_socket K \<notin> open_fds s" and "service_bind K path s = (s', None)"
  shows "service_inv s' \<and> svc_path s' = path \<and> path \<in> socket_files s' \<and> svc_fd s' = k_socket K"
  using assms
  by (auto simp: service_inv_def service_bind_def Let_def add_socket_def split: if_splits)

lemma service_bind_failed:
  assumes "service_inv s" and "k_socket K \<notin> open_fds s" and "service_bind K path s = (s', Some e)"
    and "svc_fd s = -1" and "0 \<le> k_socket K" and "length path < SUN_PATH_SIZE"
  shows "svc_fd s' = -1 \<and> open_fds s' = open_fds s \<and> service_inv s'"
  using assms
  by (auto simp: service_inv_def service_bind_def service_close_def Let_def remove_socket_def split: if_splits)

lemma client_open_failed:
  assumes "client_open K path s = (s', Some e)" and "cli_fd s = -1" and "cli_connection s = False"
    and "0 \<le> k_socket K" and "k_socket K \<notin> cli_open_fds s" and "length path < SUN_PATH_SIZE"
  shows "cli_fd s' = -1 \<and> cli_open_fds s' = cli_open_fds s \<and> cli_cbs s' = cli_cbs s"
  using assms by (auto simp: client_open_def client_close_def Let_def split: if_splits)

lemma client_open_close:
  assumes "client_open K path s = (s', None)" and "cli_fd s = -1"
    and "k_socket K \<notin> cli_open_fds s" and "cli_cbs s (k_socket K) = None"
  shows "cli_fd (fst (client_close K s')) = -1 \<and> cli_open_fds (fst (client_close K s')) = cli_open_fds s \<and>
    cli_cbs (fst (client_close K s')) = cli_cbs s \<and> \<not> cli_connection (fst (client_close K s'))"
  using assms
  by (auto simp: client_open_def client_close_def Let_def add_socket_def remove_socket_def split: if_splits)

end
