(* ===== verification/Json_Sample.thy ===== *)
theory Json_Sample
  imports Ipc_Connection "HOL-Library.AList"
begin

text \<open>
  A concrete instance of the JSON library parameter: a datatype of values with the usual accessors and a
  codec for a finite list of values (the text and the binary form of a value are its position in the list).
  It shows that the laws of \<open>json_laws\<close> and \<open>codec_ok\<close> can hold together; the witnesses of the
  theorems that take the library as a parameter are evaluated on it.
\<close>

datatype jv = JNull | JInt int | JStr string | JArr "jv list" | JObj "(string \<times> jv) list"

primrec jv_set :: "jv \<Rightarrow> string \<Rightarrow> jv \<Rightarrow> jv" where
  "jv_set JNull k v = JObj [(k, v)]"
| "jv_set (JObj kvs) k v = JObj (AList.update k v kvs)"
| "jv_set (JInt i) k v = JInt i"
| "jv_set (JStr s) k v = JStr s"
| "jv_set (JArr vs) k v = JArr vs"

primrec jv_find :: "jv \<Rightarrow> string \<Rightarrow> jv option" where
  "jv_find (JObj kvs) k = map_of kvs k"
| "jv_find JNull k = None"
| "jv_find (JInt i) k = None"
| "jv_find (JStr s) k = None"
| "jv_find (JArr vs) k = None"

primrec jv_elems :: "jv \<Rightarrow> jv list" where
  "jv_elems (JArr vs) = vs"
| "jv_elems (JObj kvs) = map snd kvs"
| "jv_elems JNull = []"
| "jv_elems (JInt i) = [JInt i]"
| "jv_elems (JStr s) = [JStr s]"

fun position :: "'a list \<Rightarrow> 'a \<Rightarrow> nat" where
  "position [] x = 0"
| "position (y # ys) x = (if x = y then 0 else Suc (position ys x))"

definition sample_code :: "jv list \<Rightarrow> jv \<Rightarrow> byte list" where
  "sample_code vs v = [of_nat (65 + position vs v)]"

definition sample_decode :: "jv list \<Rightarrow> byte list \<Rightarrow> jv cxx" where
  "sample_decode vs bs =
     (case bs of [] \<Rightarrow> Inl JsonParseError
      | b # _ \<Rightarrow> if 65 \<le> unat b \<and> unat b - 65 < length vs then Inr (vs ! (unat b - 65)) else Inl JsonParseError)"

definition sample_lib :: "jv list \<Rightarrow> jv json_lib" where
  "sample_lib vs = \<lparr>
     jl_null = JNull, jl_of_int = JInt, jl_of_str = JStr, jl_of_list = JArr,
     jl_set = jv_set, jl_find = jv_find,
     jl_key = (\<lambda>d k. case jv_find d k of Some v \<Rightarrow> Inr v | None \<Rightarrow> Inr JNull),
     jl_nth = (\<lambda>d i. case d of JArr xs \<Rightarrow> Inr (if i < length xs then xs ! i else JNull) | _ \<Rightarrow> Inl JsonException),
     jl_size = (\<lambda>d. length (jv_elems d)), jl_elems = jv_elems,
     jl_is_number = (\<lambda>d. case d of JInt i \<Rightarrow> True | _ \<Rightarrow> False),
     jl_get_int = (\<lambda>d. case d of JInt i \<Rightarrow> Inr i | _ \<Rightarrow> Inl JsonException),
     jl_get_str = (\<lambda>d. case d of JStr s \<Rightarrow> Inr s | _ \<Rightarrow> Inl JsonException),
     jl_dump = sample_code vs, jl_parse = sample_decode vs,
     jl_to_cbor = sample_code vs, jl_from_cbor = sample_decode vs\<rparr>"

lemma sample_object: "json_object (sample_lib vs) d \<Longrightarrow> d = JNull \<or> (\<exists>kvs. d = JObj kvs)"
  by (induction rule: json_object.induct) (auto simp: sample_lib_def)

lemma sample_laws: "json_laws (sample_lib vs)"
proof -
  have "jv_find (jv_set d k v) k' = (if k' = k then Some v else jv_find d k')"
    if "json_object (sample_lib vs) d" for d k v k'
    using sample_object [OF that] by (auto simp: update_conv)
  then show ?thesis
    unfolding json_laws_def by (auto simp: sample_lib_def)
qed

lemma sample_position: "v \<in> set vs \<Longrightarrow> position vs v < length vs \<and> vs ! position vs v = v"
  by (induction vs) auto

lemma sample_codec_ok:
  assumes "v \<in> set vs" and "length vs \<le> 100"
  shows "codec_ok (sample_lib vs) e v"
proof -
  have p: "position vs v < length vs" "vs ! position vs v = v" using sample_position [OF assms(1)] by simp_all
  define n where "n = 65 + position vs v"
  have n: "65 \<le> n" "n < 256" "n - 65 = position vs v" using p(1) assms(2) by (simp_all add: n_def)
  have b: "unat (of_nat n :: byte) = n" using n(2) by (simp add: unat_of_nat)
  then have "(of_nat n :: byte) \<noteq> 0" "(of_nat n :: byte) \<noteq> 10" using n(1) by auto
  moreover have "sample_code vs v = [of_nat n]" by (simp only: sample_code_def n_def)
  ultimately show ?thesis
    using p b n by (cases e) (simp_all add: codec_ok_def sample_lib_def sample_decode_def)
qed

end
