(* ===== verification/Ipc_Properties.thy ===== *)
theory Ipc_Properties
  imports Ipc_Unix Json_Sample
begin

text \<open>
  The properties of the IPC library that span its parts: from the bytes of one message to a conversation
  between a client and a service. Each is followed by an application to concrete data where it has
  hypotheses; those that take the JSON library as a parameter are applied to the instance of \<open>Json_Sample\<close>.
\<close>

section \<open>Sample data\<close>

definition sample_rpc :: "jv message_container" where
  "sample_rpc = RpcMessage (mk_rpc (Some 1) ''add'' (JInt 5))"

definition sample_response :: "jv message_container" where
  "sample_response = ResponseMessage (mk_response None (JStr ''ok''))"

definition sample_values :: "jv list" where
  "sample_values =
     [JObj [(''id'', JInt 1), (''method'', JStr ''add''), (''params'', JInt 5)],
      JObj [(''result'', JStr ''ok'')],
      JArr [JInt 1, JStr ''add'', JInt 5], JArr [JNull, JStr ''ok'']]"

definition log_handler :: "('j, 'j message_container list) connection_handler" where
  "log_handler = base_handler\<lparr>
     handle_rpc := \<lambda>c w m. Inr (c, w @ [RpcMessage m]),
     handle_response := \<lambda>c w m. Inr (c, w @ [ResponseMessage m])\<rparr>"

lemmas sample_simps = sample_lib_def sample_values_def sample_rpc_def sample_response_def message_value_def
  rpc_value_def response_value_def json_rpc_value_def json_response_value_def json_with_id_def
  cbor_rpc_value_def cbor_response_value_def get_id_json_def mk_rpc_def mk_response_def

lemma sample_message_values:
  "message_value (sample_lib sample_values) Json sample_rpc = sample_values ! 0"
  "message_value (sample_lib sample_values) Json sample_response = sample_values ! 1"
  "message_value (sample_lib sample_values) JsonCbor sample_rpc = sample_values ! 2"
  "message_value (sample_lib sample_values) JsonCbor sample_response = sample_values ! 3"
  by (simp_all add: sample_simps)

lemma sample_wires:
  "wire (sample_lib sample_values) Json sample_rpc = [65, 10]"
  "wire (sample_lib sample_values) Json sample_response = [66, 10]"
  "wire (sample_lib sample_values) JsonCbor sample_rpc = [1, 67]"
  by (simp_all add: wire_def sample_message_values)
    (simp_all add: sample_lib_def sample_code_def sample_values_def encode_unsigned_def varint_loop.simps)

lemma sample_codec:
  "codec_ok (sample_lib sample_values) e (message_value (sample_lib sample_values) e sample_rpc)"
  "codec_ok (sample_lib sample_values) e (message_value (sample_lib sample_values) e sample_response)"
proof -
  have len: "length sample_values = 4" by (simp add: sample_values_def)
  then have "codec_ok (sample_lib sample_values) e (sample_values ! i)" if "i < 4" for i
    using that by (intro sample_codec_ok) simp_all
  then show "codec_ok (sample_lib sample_values) e (message_value (sample_lib sample_values) e sample_rpc)"
    "codec_ok (sample_lib sample_values) e (message_value (sample_lib sample_values) e sample_response)"
    by (cases e; simp add: sample_message_values)+
qed

lemma sample_wf: "message_wf sample_rpc" "message_wf sample_response"
  by (simp_all add: message_wf_def sample_rpc_def sample_response_def mk_rpc_def mk_response_def)

section \<open>Messages over the wire\<close>

text \<open>
  C4 (message_roundtrip). Reading the bytes of a sent message gives the message back, in both encodings and
  for all three kinds of message, and \<open>check_read_message_complete\<close> finds exactly its bytes when others follow.
\<close>

theorem message_roundtrip:
  assumes "json_laws J" and "message_wf m" and "codec_ok J e (message_value J e m)"
  shows "read_message J e (wire J e m) = Inr m \<and>
    (length (wire J e m @ rest) \<le> MAX_BUFFER_SIZE \<longrightarrow>
       check_read_message_complete e (wire J e m @ rest) 0 = Inr (int (length (wire J e m))))"
  using read_message_wire [OF assms] framing.frame_complete [OF framing_enc wire_frame [OF assms(3)], of 0 rest]
    framing.frame_nonempty [OF framing_enc wire_frame [OF assms(3)]]
  by simp

theorem message_roundtrip_witness:
  "read_message (sample_lib sample_values) JsonCbor (wire (sample_lib sample_values) JsonCbor sample_rpc) =
     Inr sample_rpc \<and>
   check_read_message_complete JsonCbor (wire (sample_lib sample_values) JsonCbor sample_rpc @ [7]) 0 = Inr 2"
  using message_roundtrip [OF sample_laws sample_wf(1) sample_codec(1), where e = JsonCbor and rest = "[7]"]
  by (simp add: sample_wires MAX_BUFFER_SIZE_def)

text \<open>
  C1 (messages_arrive). What one end of a connection sends, the other end's handler is given: the same messages,
  each once and in order, however the kernel cuts the byte stream into reads. The loops of
  \<open>handle_data_available\<close> end; they leave an empty buffer, or stop with the exception of the first handler
  that throws. A message must be well formed, fit the buffer and keep the encoding; without a forward-copying
  \<^verbatim>\<open>memcpy\<close> it must fit half of the initial buffer.
\<close>

theorem messages_arrive:
  assumes "json_laws J" and "\<forall>m \<in> set ms. message_ok fwd J e m" and "handler_keeps_encoding H e ms"
    and "current_encoding s = e" "send_all J s ms = Inr s'"
    and "sent s' = sent s @ concat sock" "\<forall>seg \<in> set sock. seg \<noteq> []"
    and "conn_wf c" "pending c = []" "current_encoding (io c) = e"
  shows "case on_messages H (io c) w ms of
      Inl err \<Rightarrow> handle_data_available fwd J H c w sock = Some (Inl err)
    | Inr r \<Rightarrow> \<exists>c'. handle_data_available fwd J H c w sock = Some (Inr (c', snd r, [])) \<and>
        io c' = fst r \<and> pending c' = [] \<and> conn_wf c'"
  using assms by (rule sent_messages_delivered)

theorem messages_arrive_witness:
  "\<exists>c'. handle_data_available False (sample_lib sample_values) log_handler (new_connection 0) []
     [[65], [10, 66], [10]] = Some (Inr (c', [sample_rpc, sample_response], [])) \<and> pending c' = []"
proof -
  let ?J = "sample_lib sample_values" and ?ms = "[sample_rpc, sample_response]"
  let ?s = "io (new_connection 100)"
  have enc: "current_encoding (io (new_connection k)) = Json" "sent (io (new_connection k)) = []" for k
    by (simp_all add: new_connection_def)
  have nm: "sample_rpc \<noteq> NoMessage" "sample_response \<noteq> NoMessage"
    by (simp_all add: sample_rpc_def sample_response_def)
  have "send_all ?J ?s ?ms = Inr (?s\<lparr>sent := [65, 10, 66, 10], room := 96\<rparr>)"
    by (simp add: send_message_wire nm sample_wires new_connection_def MAX_BUFFER_SIZE_def)
  moreover have "\<forall>m \<in> set ?ms. message_ok False ?J Json m"
    by (simp add: message_ok_def sample_wf sample_codec sample_wires frame_limit_def BUFFER_SIZE_def)
  moreover have "handler_keeps_encoding log_handler Json ?ms"
    by (auto simp: handler_keeps_encoding_def sample_rpc_def sample_response_def on_message_def log_handler_def)
  moreover have "on_messages log_handler (io (new_connection 0)) [] ?ms = Inr (io (new_connection 0), ?ms)"
    by (simp add: on_message_def log_handler_def sample_rpc_def sample_response_def)
  ultimately show ?thesis
    using messages_arrive [OF sample_laws, of ?ms False sample_values Json log_handler ?s _ "[[65], [10, 66], [10]]"
        "new_connection 0" "[]"]
    by (auto simp: enc simp del: on_messages.simps send_all.simps)
qed



section \<open>Calls\<close>







definition fits :: "conn_io \<Rightarrow> byte list \<Rightarrow> bool" where
  "fits c bs \<longleftrightarrow> length bs \<le> room c \<and> length bs \<le> max_out_msg_size c"

lemma send_fits:
  assumes "m \<noteq> NoMessage" and "fits c (wire J (current_encoding c) m)"
  shows "send_message J c m = Inr (c\<lparr>sent := sent c @ wire J (current_encoding c) m,
    room := room c - length (wire J (current_encoding c) m)\<rparr>)"
  using assms by (simp add: send_message_wire Let_def fits_def)





definition reply_message :: "int \<Rightarrow> 'j rpc_json_result \<Rightarrow> 'j message_container" where
  "reply_message i res =
     (if res_error_code res = 0 then ResponseMessage (mk_response (Some i) (res_data res))
      else ErrorMessage (mk_error (Some i) (res_error_code res) (res_error_text res) (res_data res)))"

lemma reply_fits:
  assumes "fits c (wire J (current_encoding c) (reply_message i res))"
  shows "reply J i res (c, w) = ((c\<lparr>sent := sent c @ wire J (current_encoding c) (reply_message i res),
    room := room c - length (wire J (current_encoding c) (reply_message i res))\<rparr>, w), None)"
proof -
  have "reply_message i res \<noteq> NoMessage" by (simp add: reply_message_def)
  from send_fits [OF this assms] show ?thesis
    by (simp add: reply_def reply_message_def result_success_def eff_io_def send_message_def split: if_splits)
qed



text \<open>
  C24 (error_data_dropped). When a handler reports an error with data, the error message that is sent carries null in
  place of the data: the reply is built from the member that holds the data of a success.
\<close>

theorem error_data_dropped:
  assumes "add_handler t (rpc_method msg) (\<lambda>m d s. Inr (result_error J code text data, s)) = Inr t'"
    and "rpc_has_id msg" and "code \<noteq> 0"
    and "e = ErrorMessage (mk_error (Some (rpc_id msg)) code text (jl_null J))"
    and "fits c (wire J (current_encoding c) e)"
  shows "invoke J t' msg (c, w) =
    ((c\<lparr>sent := sent c @ wire J (current_encoding c) e,
        room := room c - length (wire J (current_encoding c) e)\<rparr>, w), None)"
proof -
  have e: "e = reply_message (rpc_id msg) (result_error J code text data)"
    using assms(3,4) by (simp add: reply_message_def result_error_def)
  have "fits c (wire J (current_encoding c) (reply_message (rpc_id msg) (result_error J code text data)))"
    using assms(5) e by simp
  from reply_fits [OF this, of w] show ?thesis
    unfolding e by (rule invoke_sync [OF assms(1) refl assms(2), rotated 2]) (simp_all add: sync_outcome_def)
qed

theorem error_data_dropped_witness:
  "\<exists>t' c'. add_handler Map.empty ''add'' (\<lambda>m d s. Inr (result_error (sample_lib []) 7 ''no'' (JInt 42), s)) = Inr t' \<and>
     invoke (sample_lib []) t' (mk_rpc (Some 3) ''add'' JNull) (io (new_connection 100), ()) = ((c', ()), None) \<and>
     sent c' = wire (sample_lib []) Json (ErrorMessage (mk_error (Some 3) 7 ''no'' JNull))"
proof -
  let ?c = "io (new_connection 100)" and ?msg = "mk_rpc (Some 3) ''add'' JNull"
  obtain t' where t': "add_handler Map.empty ''add''
      (\<lambda>m d (s :: conn_io \<times> unit). Inr (result_error (sample_lib []) 7 ''no'' (JInt 42), s)) = Inr t'"
    by (simp add: add_handler_def add_handler_async_def)
  have m: "rpc_method ?msg = ''add''" "rpc_has_id ?msg" "rpc_id ?msg = 3" by (simp_all add: mk_rpc_def)
  have "fits ?c (wire (sample_lib []) (current_encoding ?c) r)" for r
    by (simp add: fits_def new_connection_def wire_def MAX_BUFFER_SIZE_def) (simp add: sample_lib_def sample_code_def)
  from error_data_dropped [of Map.empty ?msg "sample_lib []" 7 "''no''" "JInt 42", unfolded m(1,3), OF t' m(2) _ refl this]
  show ?thesis using t' by simp (simp add: new_connection_def sample_lib_def)
qed

section \<open>Sockets\<close>

text \<open>
  The life of a service: it is bound and closed, and the event loop runs its callbacks. The kernel never hands out a
  descriptor that is open, and \<^verbatim>\<open>socket\<close> fails with -1.
\<close>

definition new_service :: unix_service where
  "new_service = \<lparr>svc_fd = -1, svc_path = '''', connections = [], open_fds = {}, io_cbs = Map.empty,
     socket_files = {}, client_log = []\<rparr>"

inductive service_reach :: "unix_service \<Rightarrow> bool" where
  reach_new: "service_reach new_service"
| reach_bind: "service_reach s \<Longrightarrow> k_socket K \<notin> open_fds s \<Longrightarrow> -1 \<le> k_socket K \<Longrightarrow> length path < SUN_PATH_SIZE \<Longrightarrow>
    service_reach (fst (service_bind K path s))"
| reach_close: "service_reach s \<Longrightarrow> service_reach (fst (service_close K s))"
| reach_event: "service_reach s \<Longrightarrow> k_accept K \<notin> open_fds s \<Longrightarrow>
    service_reach (dispatch_event io_cbs (exec_callback K) ev s)"

lemma service_bind_keeps:
  assumes "service_inv s" and "k_socket K \<notin> open_fds s" and "-1 \<le> k_socket K" and "length path < SUN_PATH_SIZE"
  shows "service_inv (fst (service_bind K path s))"
proof (cases "service_bind K path s")
  case (Pair s' err)
  show ?thesis
  proof (cases err)
    case None
    with Pair assms show ?thesis by (simp add: service_bind_inv)
  next
    case (Some e)
    show ?thesis
    proof (cases "svc_fd s = -1 \<and> 0 \<le> k_socket K")
      case True
      then show ?thesis using service_bind_failed [OF assms(1,2) _ _ _ assms(4), of s' e] Pair Some by simp
    next
      case False
      then have "fst (service_bind K path s) = s"
        using assms(3) by (auto simp: service_bind_def Let_def)
      with assms(1) show ?thesis by simp
    qed
  qed
qed

text \<open>
  C20 (service_sockets). In every state a listening service can reach, it owns what it uses: its listening socket and
  its connections are open, distinct and registered with the event loop under their own callbacks, and no other
  descriptor is registered.
\<close>

theorem service_sockets: "service_reach s \<Longrightarrow> service_inv s"
  by (induction rule: service_reach.induct)
    (simp_all add: service_bind_keeps service_close_inv dispatch_event_inv,
     simp add: service_inv_def new_service_def)

definition sample_kernel :: "int \<Rightarrow> int \<Rightarrow> kernel" where
  "sample_kernel fd fd' = \<lparr>k_socket = fd, k_bind_ok = True, k_listen_ok = True, k_connect_ok = True,
     k_close_ok = True, k_accept = fd'\<rparr>"

theorem service_sockets_witness:
  "service_inv (dispatch_event io_cbs (exec_callback (sample_kernel 3 4)) \<lparr>ev_fd = 3, ev_in = True, ev_rdhup = False, ev_hup = False\<rparr>
     (fst (service_bind (sample_kernel 3 4) ''/tmp/s'' new_service)))"
  by (intro service_sockets reach_event reach_bind reach_new)
    (simp_all add: new_service_def sample_kernel_def SUN_PATH_SIZE_def service_bind_def)



end
