(* ===== verification/Cll_Batch.thy ===== *)
theory Cll_Batch
  imports Ipc_Message
begin

text \<open>
  Batches of telemetry events (\<^verbatim>\<open>cll-telemetry\<close>). The locale \<open>event_batch\<close> is the contract of the
  interface \<^verbatim>\<open>EventBatch\<close>: what a batch holds is a list of lines, an upload list is a prefix of it, and an
  acknowledged upload list is removed, also when events were added since it was taken. Every
  implementation interprets it: \<open>MemoryEventBatch\<close> here, \<open>FileEventBatch\<close> in \<open>Cll_File\<close>.

  From the contract alone: along any sequence of additions and uploads nothing is lost, duplicated or
  reordered (\<open>conservation\<close>).
\<close>

section \<open>Upload lists\<close>

record event_list =
  el_data :: "byte list"
  el_events :: nat
  el_more :: bool

definition event_line :: "'j json_lib \<Rightarrow> 'j \<Rightarrow> byte list" where
  "event_line J j = jl_dump J j @ [13, 10]"

text \<open>The text form of a value has no newline.\<close>

definition event_ok :: "'j json_lib \<Rightarrow> 'j \<Rightarrow> bool" where
  "event_ok J j \<longleftrightarrow> 10 \<notin> set (jl_dump J j)"

section \<open>The contract\<close>

primrec adds_with :: "('s \<Rightarrow> 'e \<Rightarrow> bool \<times> 's) \<Rightarrow> 's \<Rightarrow> 'e list \<Rightarrow> 's" where
  "adds_with add s [] = s"
| "adds_with add s (e # es) = adds_with add (snd (add s e)) es"

primrec accepted_with :: "('s \<Rightarrow> 'e \<Rightarrow> bool \<times> 's) \<Rightarrow> 's \<Rightarrow> 'e list \<Rightarrow> 'e list" where
  "accepted_with add s [] = []"
| "accepted_with add s (e # es) =
     (if fst (add s e) then [e] else []) @ accepted_with add (snd (add s e)) es"

text \<open>
  What a client does with a batch: add an event, or take a list for upload with the given limits,
  while other events are added, and acknowledge it.
\<close>

datatype 'e batch_op = Add 'e | Upload nat nat "'e list"

definition batch_step ::
  "('s \<Rightarrow> 'e \<Rightarrow> bool \<times> 's) \<Rightarrow> ('s \<Rightarrow> nat \<Rightarrow> nat \<Rightarrow> event_list option \<times> 's) \<Rightarrow> ('s \<Rightarrow> event_list \<Rightarrow> 's) \<Rightarrow>
   'e batch_op \<Rightarrow> 's \<Rightarrow> 's \<times> byte list \<times> 'e list" where
  "batch_step add get uploaded opn s = (case opn of
     Add e \<Rightarrow> (snd (add s e), [], if fst (add s e) then [e] else [])
   | Upload n m es \<Rightarrow> (case get s n m of
       (None, s') \<Rightarrow> (adds_with add s' es, [], accepted_with add s' es)
     | (Some l, s') \<Rightarrow> (uploaded (adds_with add s' es) l, el_data l, accepted_with add s' es)))"

text \<open>A run of operations: the state at the end, all bytes uploaded, all events accepted.\<close>

primrec batch_run ::
  "('s \<Rightarrow> 'e \<Rightarrow> bool \<times> 's) \<Rightarrow> ('s \<Rightarrow> nat \<Rightarrow> nat \<Rightarrow> event_list option \<times> 's) \<Rightarrow> ('s \<Rightarrow> event_list \<Rightarrow> 's) \<Rightarrow>
   'e batch_op list \<Rightarrow> 's \<Rightarrow> 's \<times> byte list \<times> 'e list" where
  "batch_run add get uploaded [] s = (s, [], [])"
| "batch_run add get uploaded (x # xs) s =
     (let (s1, d1, a1) = batch_step add get uploaded x s;
          (s2, d2, a2) = batch_run add get uploaded xs s1
      in (s2, d1 @ d2, a1 @ a2))"

primrec op_events :: "'e batch_op \<Rightarrow> 'e list" where
  "op_events (Add e) = [e]"
| "op_events (Upload n m es) = es"

locale event_batch =
  fixes line :: "'e \<Rightarrow> byte list" and ok :: "'e \<Rightarrow> bool" and inv :: "'s \<Rightarrow> bool"
    and pend :: "'s \<Rightarrow> byte list list"
    and add :: "'s \<Rightarrow> 'e \<Rightarrow> bool \<times> 's"
    and get :: "'s \<Rightarrow> nat \<Rightarrow> nat \<Rightarrow> event_list option \<times> 's"
    and uploaded :: "'s \<Rightarrow> event_list \<Rightarrow> 's"
    and has :: "'s \<Rightarrow> bool"
  assumes add_law: "inv s \<Longrightarrow> ok e \<Longrightarrow> inv (snd (add s e)) \<and>
      pend (snd (add s e)) = pend s @ (if fst (add s e) then [line e] else [])"
    and get_law: "inv s \<Longrightarrow> inv (snd (get s n m)) \<and> pend (snd (get s n m)) = pend s"
    and list_law: "inv s \<Longrightarrow> fst (get s n m) = Some l \<Longrightarrow>
      el_data l = concat (take (el_events l) (pend s)) \<and> el_events l \<le> length (pend s) \<and>
      el_events l \<le> n \<and> length (el_data l) \<le> m"
    and uploaded_law: "inv s \<Longrightarrow> fst (get s n m) = Some l \<Longrightarrow> list_all ok es \<Longrightarrow>
      s2 = adds_with add (snd (get s n m)) es \<Longrightarrow>
      inv (uploaded s2 l) \<and> pend (uploaded s2 l) = drop (el_events l) (pend s2)"
    and has_law: "inv s \<Longrightarrow> pend s \<noteq> [] \<Longrightarrow> has s"
begin

lemma adds_pend:
  "inv s \<Longrightarrow> list_all ok es \<Longrightarrow>
   inv (adds_with add s es) \<and> pend (adds_with add s es) = pend s @ map line (accepted_with add s es)"
proof (induction es arbitrary: s)
  case (Cons e es)
  then have e: "inv (snd (add s e))" "pend (snd (add s e)) = pend s @ (if fst (add s e) then [line e] else [])"
    using add_law [of s e] by simp_all
  with Cons.IH [OF e(1)] Cons.prems(2) show ?case by simp
qed simp

lemma step_conservation:
  assumes "inv s" and "list_all ok (op_events opn)" and "batch_step add get uploaded opn s = (s', d, a)"
  shows "inv s' \<and> d @ concat (pend s') = concat (pend s) @ concat (map line a)"
proof (cases opn)
  case (Add e)
  then show ?thesis using assms add_law [of s e] by (auto simp: batch_step_def)
next
  case (Upload n m es)
  have es: "list_all ok es" using assms(2) Upload by simp
  have g: "inv (snd (get s n m))" "pend (snd (get s n m)) = pend s"
    using get_law [OF assms(1)] by simp_all
  note a = adds_pend [OF g(1) es]
  show ?thesis
  proof (cases "fst (get s n m)")
    case None
    then have "batch_step add get uploaded opn s =
        (adds_with add (snd (get s n m)) es, [], accepted_with add (snd (get s n m)) es)"
      unfolding Upload by (cases "get s n m") (simp add: batch_step_def)
    then show ?thesis using assms(3) a g by auto
  next
    case (Some l)
    then have st: "batch_step add get uploaded opn s =
        (uploaded (adds_with add (snd (get s n m)) es) l, el_data l, accepted_with add (snd (get s n m)) es)"
      unfolding Upload by (cases "get s n m") (simp add: batch_step_def)
    note l = list_law [OF assms(1) Some]
    have "concat (take (el_events l) (pend s)) @
        concat (drop (el_events l) (pend s @ map line (accepted_with add (snd (get s n m)) es))) =
      concat (pend s) @ concat (map line (accepted_with add (snd (get s n m)) es))"
      using l by (simp flip: append_assoc concat_append)
    then show ?thesis
      using uploaded_law [OF assms(1) Some es refl] a g l st assms(3) by auto
  qed
qed

lemma conservation:
  assumes "inv s" and "\<forall>x \<in> set xs. list_all ok (op_events x)"
    and "batch_run add get uploaded xs s = (s', d, a)"
  shows "inv s' \<and> d @ concat (pend s') = concat (pend s) @ concat (map line a)"
  using assms
proof (induction xs arbitrary: s d a)
  case (Cons x xs)
  obtain s1 d1 a1 where 1: "batch_step add get uploaded x s = (s1, d1, a1)" by (metis prod_cases3)
  obtain d2 a2 where 2: "batch_run add get uploaded xs s1 = (s', d2, a2)" "d = d1 @ d2" "a = a1 @ a2"
    using Cons.prems(3) 1 by (auto split: prod.splits)
  have "inv s1 \<and> d1 @ concat (pend s1) = concat (pend s) @ concat (map line a1)"
    using step_conservation [OF Cons.prems(1) _ 1] Cons.prems(2) by simp
  with Cons.IH [OF _ _ 2(1)] Cons.prems(2) 2 show ?case
    by (simp add: append_assoc [symmetric] del: append_assoc)
      (metis append_assoc)
qed simp

end

text \<open>A batch that always has something to give when the first event fits the limits.\<close>

locale live_event_batch = event_batch +
  assumes live_law: "inv s \<Longrightarrow> pend s \<noteq> [] \<Longrightarrow> 0 < n \<Longrightarrow> length (hd (pend s)) \<le> m \<Longrightarrow>
      \<exists>l. fst (get s n m) = Some l \<and> 0 < el_events l"
begin

lemma upload_progress:
  assumes "inv s" and "pend s \<noteq> []" and "0 < n" and "length (hd (pend s)) \<le> m"
    and "batch_step add get uploaded (Upload n m []) s = (s', d, a)"
  shows "length (pend s') < length (pend s)"
proof -
  obtain l where l: "fst (get s n m) = Some l" "0 < el_events l" using live_law [OF assms(1-4)] by auto
  have "s' = uploaded (snd (get s n m)) l"
    using assms(5) l(1) by (cases "get s n m") (simp add: batch_step_def)
  then have "pend s' = drop (el_events l) (pend s)"
    using uploaded_law [OF assms(1) l(1), of "[]"] get_law [OF assms(1)] by simp
  with l(2) assms(2) show ?thesis by simp
qed

lemma upload_keeps:
  assumes "inv s" and "batch_step add get uploaded (Upload n m []) s = (s', d, a)"
  shows "inv s' \<and> set (pend s') \<subseteq> set (pend s)"
proof (cases "fst (get s n m)")
  case None
  then show ?thesis using assms get_law [OF assms(1), of n m] by (cases "get s n m") (auto simp: batch_step_def)
next
  case (Some l)
  then have "s' = uploaded (snd (get s n m)) l"
    using assms(2) by (cases "get s n m") (simp add: batch_step_def)
  then show ?thesis
    using uploaded_law [OF assms(1) Some, of "[]"] get_law [OF assms(1), of n m] by (auto dest: in_set_dropD)
qed

lemma drained:
  assumes "inv s" and "0 < n" and "\<forall>l \<in> set (pend s). length l \<le> m" and "length (pend s) \<le> k"
  shows "pend (((\<lambda>s. fst (batch_step add get uploaded (Upload n m []) s)) ^^ k) s) = []"
  using assms
proof (induction k arbitrary: s)
  case (Suc k)
  obtain s' d a where st: "batch_step add get uploaded (Upload n m []) s = (s', d, a)" by (metis prod_cases3)
  note kept = upload_keeps [OF Suc.prems(1) st]
  have "length (pend s') \<le> k"
  proof (cases "pend s = []")
    case True
    with kept show ?thesis by simp
  next
    case False
    then show ?thesis using upload_progress [OF Suc.prems(1) False Suc.prems(2) _ st] Suc.prems(3,4) by simp
  qed
  then have "pend (((\<lambda>s. fst (batch_step add get uploaded (Upload n m []) s)) ^^ k) s') = []"
    using kept Suc.prems(2,3) by (intro Suc.IH) auto
  then show ?case by (simp add: funpow_Suc_right st del: funpow.simps)
qed simp

end

section \<open>\<^verbatim>\<open>MemoryEventBatch\<close>\<close>

record 'j memory_batch =
  items :: "'j list"
  limit :: nat

definition mem_addEvent :: "'j memory_batch \<Rightarrow> 'j \<Rightarrow> bool \<times> 'j memory_batch" where
  "mem_addEvent b rawData =
     (if length (items b) \<ge> limit b then (False, b) else (True, b\<lparr>items := items b @ [rawData]\<rparr>))"

definition mem_hasEvents :: "'j memory_batch \<Rightarrow> bool" where
  "mem_hasEvents b \<longleftrightarrow> items b \<noteq> []"

fun mem_collect :: "'j json_lib \<Rightarrow> nat \<Rightarrow> nat \<Rightarrow> 'j list \<Rightarrow> byte list \<Rightarrow> nat \<Rightarrow> byte list \<times> nat" where
  "mem_collect J maxCount maxSize [] ret count = (ret, count)"
| "mem_collect J maxCount maxSize (i # is) ret count =
     (let itm = jl_dump J i; ns = length ret + length itm + 2 in
      if ns > maxSize then (ret, count)
      else
        let ret = ret @ itm @ [13, 10] in
        if count + 1 = maxCount then (ret, count + 1)
        else mem_collect J maxCount maxSize is ret (count + 1))"

definition mem_getEventsForUpload :: "'j json_lib \<Rightarrow> 'j memory_batch \<Rightarrow> nat \<Rightarrow> nat \<Rightarrow> event_list option" where
  "mem_getEventsForUpload J b maxCount maxSize =
     (if maxCount = 0 \<or> maxSize = 0 \<or> items b = [] then None
      else
        let (ret, count) = mem_collect J maxCount maxSize (items b) [] 0
        in Some \<lparr>el_data = ret, el_events = count, el_more = count < length (items b)\<rparr>)"

definition mem_onEventsUploaded :: "'j memory_batch \<Rightarrow> event_list \<Rightarrow> 'j memory_batch" where
  "mem_onEventsUploaded b events = b\<lparr>items := drop (el_events events) (items b)\<rparr>"

definition transferAllEvents :: "'j memory_batch \<Rightarrow> 'j list \<times> 'j memory_batch" where
  "transferAllEvents b = (items b, b\<lparr>items := []\<rparr>)"

definition mem_lines :: "'j json_lib \<Rightarrow> 'j memory_batch \<Rightarrow> byte list list" where
  "mem_lines J b = map (event_line J) (items b)"

definition mem_get :: "'j json_lib \<Rightarrow> 'j memory_batch \<Rightarrow> nat \<Rightarrow> nat \<Rightarrow> event_list option \<times> 'j memory_batch" where
  "mem_get J b n m = (mem_getEventsForUpload J b n m, b)"

lemma mem_collect_spec:
  "mem_collect J n m is ret c = (ret', c') \<Longrightarrow> c < n \<Longrightarrow> length ret \<le> m \<Longrightarrow>
   c \<le> c' \<and> c' \<le> n \<and> c' - c \<le> length is \<and> length ret' \<le> m \<and>
   ret' = ret @ concat (map (event_line J) (take (c' - c) is))"
proof (induction J n m "is" ret c rule: mem_collect.induct)
  case (2 J n m i "is" ret c)
  let ?r = "ret @ jl_dump J i @ [13, 10]"
  consider "length ret + length (jl_dump J i) + 2 > m"
    | "length ret + length (jl_dump J i) + 2 \<le> m" "c + 1 = n"
    | "length ret + length (jl_dump J i) + 2 \<le> m" "c + 1 \<noteq> n" by linarith
  then show ?case
  proof cases
    case 3
    then have "mem_collect J n m is ?r (Suc c) = (ret', c')" using 2(2) by (simp add: Let_def)
    then have "Suc c \<le> c' \<and> c' \<le> n \<and> c' - Suc c \<le> length is \<and> length ret' \<le> m \<and>
        ret' = ?r @ concat (map (event_line J) (take (c' - Suc c) is))"
      using "2.IH" [OF refl refl _ refl] 3 2(3) by auto
    moreover from this have "c' - c = Suc (c' - Suc c)" by linarith
    ultimately show ?thesis by (auto simp: event_line_def [of J i])
  qed (use 2 in \<open>auto simp: Let_def event_line_def\<close>)
qed simp

lemma mem_get_spec:
  assumes "mem_getEventsForUpload J b n m = Some l"
  shows "el_data l = concat (take (el_events l) (mem_lines J b)) \<and> el_events l \<le> length (items b) \<and>
    el_events l \<le> n \<and> length (el_data l) \<le> m \<and> (el_more l \<longleftrightarrow> el_events l < length (items b))"
proof -
  obtain ret c where c: "mem_collect J n m (items b) [] 0 = (ret, c)" by fastforce
  then show ?thesis
    using assms mem_collect_spec [OF c]
    by (auto simp: mem_getEventsForUpload_def mem_lines_def take_map split: if_splits)
qed

interpretation mem_batch: event_batch "event_line J" "event_ok J" "\<lambda>_. True" "mem_lines J" mem_addEvent
  "mem_get J" mem_onEventsUploaded mem_hasEvents for J :: "'j json_lib"
proof
  fix s :: "'j memory_batch" and n m :: nat and l es s2
  assume l: "fst (mem_get J s n m) = Some l" "s2 = adds_with mem_addEvent (snd (mem_get J s n m)) es"
  show "True \<and> mem_lines J (mem_onEventsUploaded s2 l) = drop (el_events l) (mem_lines J s2)"
    by (simp add: mem_onEventsUploaded_def mem_lines_def drop_map)
qed (auto simp: mem_addEvent_def mem_lines_def mem_get_def mem_hasEvents_def dest: mem_get_spec)

interpretation mem_live: live_event_batch "event_line J" "event_ok J" "\<lambda>_. True" "mem_lines J" mem_addEvent
  "mem_get J" mem_onEventsUploaded mem_hasEvents for J :: "'j json_lib"
proof
  fix s :: "'j memory_batch" and n m :: nat
  assume a: "mem_lines J s \<noteq> []" "0 < n" "length (hd (mem_lines J s)) \<le> m"
  then obtain i ii where i: "items s = i # ii" by (cases "items s") (auto simp: mem_lines_def)
  obtain ret c where c: "mem_collect J n m (items s) [] 0 = (ret, c)" by fastforce
  have "0 < c"
  proof (cases "n = 1")
    case True
    with a i c show ?thesis by (auto simp: mem_lines_def event_line_def Let_def split: if_splits)
  next
    case False
    with a i c have "mem_collect J n m ii (jl_dump J i @ [13, 10]) 1 = (ret, c)"
      by (auto simp: mem_lines_def event_line_def Let_def split: if_splits)
    from mem_collect_spec [OF this] a False i show ?thesis
      by (auto simp: mem_lines_def event_line_def)
  qed
  moreover have "m \<noteq> 0" using a i by (auto simp: mem_lines_def event_line_def)
  ultimately show "\<exists>l. fst (mem_get J s n m) = Some l \<and> 0 < el_events l"
    using a(2) i c by (auto simp: mem_get_def mem_getEventsForUpload_def)
qed

end
