(* ===== verification/Cll_File.thy ===== *)
theory Cll_File
  imports Cll_Batch
begin

text \<open>
  \<^verbatim>\<open>FileEventBatch\<close>: a batch kept in a file of CRLF-terminated lines. The file system is a map from
  paths to contents. An open batch has a file position, so that the effect of a \<^verbatim>\<open>write\<close> depends on the
  seeks and truncations before it. The results of successive \<^verbatim>\<open>write\<close> calls are a list of return values (\<open>ws\<close>);
  when the list is used up a call writes everything.

  The lemmas show that the batch is a (live) \<open>event_batch\<close> when writes do not fail, that the in-place
  removal of uploaded events copies correctly, and what a short write followed by an error leaves behind.
\<close>

section \<open>Files\<close>

type_synonym file_system = "string \<rightharpoonup> byte list"

definition write_at :: "byte list \<Rightarrow> nat \<Rightarrow> byte list \<Rightarrow> byte list" where
  "write_at content pos bs =
     take pos content @ replicate (pos - length content) 0 @ bs @ drop (pos + length bs) content"

text \<open>
  The write loop of \<^verbatim>\<open>addEvent\<close> and \<^verbatim>\<open>onEventsUploaded\<close>: success, contents, position, bytes written and the results
  not used yet.
\<close>

fun write_loop :: "byte list \<Rightarrow> nat \<Rightarrow> nat \<Rightarrow> byte list \<Rightarrow> int list \<Rightarrow> bool \<times> byte list \<times> nat \<times> nat \<times> int list" where
  "write_loop content pos off data [] =
     (let rest = drop off data in (True, write_at content pos rest, pos + length rest, off + length rest, []))"
| "write_loop content pos off data (r # ws) =
     (if off \<ge> length data then (True, content, pos, off, r # ws)
      else if r < 0 then (False, content, pos, off, ws)
      else
        let chunk = take (nat r) (drop off data) in
        write_loop (write_at content pos chunk) (pos + length chunk) (off + length chunk) data ws)"

section \<open>The batch\<close>

record file_batch =
  fb_path :: string
  fb_fd :: bool            \<comment> \<open>\<^verbatim>\<open>fd >= 0\<close>\<close>
  fb_pos :: nat
  fileSize :: nat
  eventCount :: nat
  streamAtEnd :: bool
  finalized :: bool
  fb_maxCount :: nat
  fb_maxSize :: nat

type_synonym file_state = "file_system \<times> file_batch"

definition content :: "file_state \<Rightarrow> byte list" where
  "content s = (case fst s (fb_path (snd s)) of None \<Rightarrow> [] | Some c \<Rightarrow> c)"

definition set_content :: "byte list \<Rightarrow> file_state \<Rightarrow> file_state" where
  "set_content c s = ((fst s)(fb_path (snd s) \<mapsto> c), snd s)"

definition seekToEndAndGetFileSize :: "file_state \<Rightarrow> file_state" where
  "seekToEndAndGetFileSize s =
     (fst s, (snd s)\<lparr>streamAtEnd := True,
        fb_pos := (if fb_fd (snd s) then length (content s) else fb_pos (snd s)),
        fileSize := (if fb_fd (snd s) then length (content s) else 0)\<rparr>)"

fun count_scan :: "byte list \<Rightarrow> nat \<Rightarrow> nat \<Rightarrow> nat \<Rightarrow> nat \<times> nat" where
  "count_scan [] o' lastNewline n = (lastNewline, n)"
| "count_scan (b # bs) o' lastNewline n =
     (if b = 10 then count_scan bs (o' + 1) (o' + 1) (n + 1) else count_scan bs (o' + 1) lastNewline n)"

definition countEventsInFile :: "file_state \<Rightarrow> file_state" where
  "countEventsInFile s =
     (let b = (snd s)\<lparr>eventCount := 0\<rparr> in
      if \<not> fb_fd b then (fst s, b)
      else
        let (lastNewline, n) = count_scan (content s) 0 0 0;
            s1 = (fst s, b\<lparr>streamAtEnd := False, fb_pos := length (content s), eventCount := n\<rparr>)
        in if lastNewline \<noteq> fileSize b
           then set_content (take lastNewline (content s)) (fst s1, (snd s1)\<lparr>fileSize := lastNewline\<rparr>)
           else s1)"

text \<open>The constructor; \<open>ok\<close> is whether \<^verbatim>\<open>open\<close> succeeds (it creates a file that does not exist).\<close>

definition file_open :: "bool \<Rightarrow> string \<Rightarrow> file_system \<Rightarrow> file_state" where
  "file_open ok path fs =
     (let b = \<lparr>fb_path = path, fb_fd = ok, fb_pos = 0, fileSize = 0, eventCount = 0, streamAtEnd = False,
               finalized = False, fb_maxCount = 0, fb_maxSize = 0\<rparr>;
          fs = (if ok \<and> fs path = None then fs(path \<mapsto> []) else fs)
      in countEventsInFile (seekToEndAndGetFileSize (fs, b)))"

definition setLimit :: "nat \<Rightarrow> nat \<Rightarrow> file_batch \<Rightarrow> file_batch" where
  "setLimit maxCount maxSize b = b\<lparr>fb_maxCount := maxCount, fb_maxSize := maxSize\<rparr>"

definition setFinalized :: "file_batch \<Rightarrow> file_batch" where
  "setFinalized b = b\<lparr>finalized := True\<rparr>"

definition canAddEventInt :: "file_batch \<Rightarrow> nat \<Rightarrow> bool" where
  "canAddEventInt b eventSize \<longleftrightarrow>
     (fb_maxSize b = 0 \<or> fileSize b + eventSize \<le> fb_maxSize b) \<and>
     (fb_maxCount b = 0 \<or> eventCount b + 1 \<le> fb_maxCount b)"

definition canAddEvent :: "file_batch \<Rightarrow> nat \<Rightarrow> bool" where
  "canAddEvent b eventSize \<longleftrightarrow> \<not> finalized b \<and> canAddEventInt b eventSize"

definition file_addString :: "int list \<Rightarrow> file_state \<Rightarrow> byte list \<Rightarrow> bool \<times> file_state" where
  "file_addString ws s data =
     (if \<not> fb_fd (snd s) then (False, s)
      else if finalized (snd s) then (False, s)
      else if \<not> canAddEventInt (snd s) (length data) then (False, s)
      else
        let s = (if streamAtEnd (snd s) then s else seekToEndAndGetFileSize s);
            (ok, c, pos, n, ws') = write_loop (content s) (fb_pos (snd s)) 0 data ws;
            s1 = set_content c (fst s, (snd s)\<lparr>fb_pos := pos\<rparr>)
        in if \<not> ok
           then (False, if n > 0 then set_content (take (fileSize (snd s)) c) s1 else s1)
           else (True, (fst s1, (snd s1)\<lparr>fileSize := fileSize (snd s) + n,
                                         eventCount := eventCount (snd s) + 1\<rparr>)))"

definition file_addEvent :: "'j json_lib \<Rightarrow> int list \<Rightarrow> file_state \<Rightarrow> 'j \<Rightarrow> bool \<times> file_state" where
  "file_addEvent J ws s rawData = file_addString ws s (event_line J rawData)"

text \<open>The \<^verbatim>\<open>memchr\<close> loop: bytes and events up to the last complete line, at most \<open>maxCount\<close> events.\<close>

fun scan_lines :: "nat \<Rightarrow> byte list \<Rightarrow> nat \<Rightarrow> nat \<Rightarrow> nat \<Rightarrow> nat \<times> nat" where
  "scan_lines maxCount [] pos ptr events = (ptr, events)"
| "scan_lines maxCount (b # bs) pos ptr events =
     (if b = 10 then
        (if events + 1 = maxCount then (pos + 1, events + 1)
         else scan_lines maxCount bs (pos + 1) (pos + 1) (events + 1))
      else scan_lines maxCount bs (pos + 1) ptr events)"

definition file_getEventsForUpload :: "file_state \<Rightarrow> nat \<Rightarrow> nat \<Rightarrow> event_list option \<times> file_state" where
  "file_getEventsForUpload s maxCount maxSize =
     (if \<not> fb_fd (snd s) \<or> fileSize (snd s) = 0 \<or> maxCount = 0 then (None, s)
      else
        let maxSize = min (min maxSize (1024 * 1024)) (fileSize (snd s));
            data = take maxSize (content s);
            (n, events) = scan_lines maxCount data 0 0 0
        in (Some \<lparr>el_data = take n data, el_events = events, el_more = n < fileSize (snd s)\<rparr>,
            (fst s, (snd s)\<lparr>streamAtEnd := False, fb_pos := length data\<rparr>)))"

text \<open>
  The copy loop of \<^verbatim>\<open>onEventsUploaded\<close>: chunks of 1 MiB are read at \<open>rpos\<close> and written behind the \<open>n\<close> bytes written so
  far, in the same file. Each turn reads at least one byte, so the length of the file is enough fuel.
\<close>

fun copy_down :: "nat \<Rightarrow> byte list \<Rightarrow> nat \<Rightarrow> nat \<Rightarrow> int list \<Rightarrow> byte list \<times> nat" where
  "copy_down 0 c rpos n ws = (c, n)"
| "copy_down (Suc fuel) c rpos n ws =
     (let buf = take (1024 * 1024) (drop rpos c) in
      if buf = [] then (c, n)
      else
        let (ok, c', pos, k, ws') = write_loop c n 0 buf ws
        in copy_down fuel c' (rpos + length buf) (n + k) ws')"

definition file_onEventsUploaded :: "int list \<Rightarrow> file_state \<Rightarrow> event_list \<Rightarrow> file_state cxx" where
  "file_onEventsUploaded ws s events =
     (if \<not> fb_fd (snd s) then Inr s
      else if fileSize (snd s) = length (el_data events) then
        let b = (snd s)\<lparr>fileSize := 0, eventCount := 0\<rparr> in
        if finalized b then Inr ((fst s)(fb_path b := None), b\<lparr>fb_fd := False\<rparr>)
        else Inr (set_content [] (fst s, b))
      else if fst s (fb_path (snd s)) = None
      then Inl (RuntimeError ''Failed to open input stream for onEventsUploaded'')
      else
        let (c, n) = copy_down (length (content s)) (content s) (length (el_data events)) 0 ws
        in Inr (set_content (take n c) (fst s, (snd s)\<lparr>fb_pos := n, fileSize := n,
                  eventCount := eventCount (snd s) - el_events events\<rparr>)))"

definition file_hasEvents :: "file_state \<Rightarrow> bool" where
  "file_hasEvents s \<longleftrightarrow> fileSize (snd s) \<noteq> 0"

section \<open>Lines\<close>

fun split_lines :: "byte list \<Rightarrow> byte list list" where
  "split_lines [] = []"
| "split_lines (b # bs) =
     (if b = 10 then [b] # split_lines bs
      else case split_lines bs of [] \<Rightarrow> [[b]] | l # ls \<Rightarrow> (b # l) # ls)"

definition complete :: "byte list \<Rightarrow> bool" where
  "complete bs \<longleftrightarrow> bs = [] \<or> last bs = 10"

lemma concat_split_lines [simp]: "concat (split_lines bs) = bs"
  by (induction bs) (auto split: list.splits)

lemma split_lines_line: "10 \<notin> set d \<Longrightarrow> split_lines (d @ 10 # bs) = (d @ [10]) # split_lines bs"
  by (induction d) (auto split: list.splits)

lemma split_lines_nonempty [simp]: "split_lines bs = [] \<longleftrightarrow> bs = []"
  by (cases bs) (auto split: list.splits)

lemma split_lines_append: "complete xs \<Longrightarrow> split_lines (xs @ ys) = split_lines xs @ split_lines ys"
proof (induction xs)
  case (Cons b xs)
  show ?case
  proof (cases "xs = []")
    case False
    then have "complete xs" using Cons.prems by (simp add: complete_def)
    moreover obtain l ls where "split_lines xs = l # ls" using False by (cases "split_lines xs") simp_all
    ultimately show ?thesis using Cons.IH by simp
  qed (use Cons.prems in \<open>simp add: complete_def\<close>)
qed simp

definition is_line :: "byte list \<Rightarrow> bool" where
  "is_line l \<longleftrightarrow> (\<exists>d. l = d @ [10] \<and> 10 \<notin> set d)"

lemma split_lines_concat: "\<forall>l \<in> set ls. is_line l \<Longrightarrow> split_lines (concat ls) = ls"
proof (induction ls)
  case (Cons l ls)
  then obtain d where "l = d @ [10]" "10 \<notin> set d" by (auto simp: is_line_def)
  with Cons show ?case by (simp add: split_lines_line)
qed simp

lemma is_line_split: "complete bs \<Longrightarrow> l \<in> set (split_lines bs) \<Longrightarrow> is_line l"
proof (induction bs arbitrary: l)
  case (Cons b bs)
  show ?case
  proof (cases "bs = []")
    case True
    with Cons.prems show ?thesis by (auto simp: complete_def is_line_def)
  next
    case False
    then have bs: "complete bs" using Cons.prems(1) by (simp add: complete_def)
    obtain k ks where k: "split_lines bs = k # ks" using False by (cases "split_lines bs") simp_all
    then obtain d where d: "k = d @ [10]" "10 \<notin> set d" using Cons.IH [OF bs] by (auto simp: is_line_def)
    have "b \<noteq> 10 \<Longrightarrow> is_line (b # k)" using d unfolding is_line_def by (intro exI [of _ "b # d"]) auto
    moreover have "is_line [10]" by (simp add: is_line_def)
    ultimately show ?thesis using Cons.IH [OF bs] Cons.prems(2) k by (auto split: if_splits)
  qed
qed simp

lemma complete_concat: "\<forall>l \<in> set ls. is_line l \<Longrightarrow> complete (concat ls)"
  by (induction ls rule: rev_induct) (auto simp: complete_def is_line_def)

lemma split_lines_drop:
  assumes "complete bs"
  shows "drop (length (concat (take k (split_lines bs)))) bs = concat (drop k (split_lines bs))"
    "split_lines (concat (drop k (split_lines bs))) = drop k (split_lines bs)"
    "complete (concat (drop k (split_lines bs)))"
proof -
  have "concat (take k (split_lines bs)) @ concat (drop k (split_lines bs)) = bs"
    by (simp flip: concat_append)
  then show "drop (length (concat (take k (split_lines bs)))) bs = concat (drop k (split_lines bs))"
    by (metis drop_append_length)
  have "\<forall>l \<in> set (drop k (split_lines bs)). is_line l"
    using is_line_split [OF assms] by (meson in_set_dropD)
  then show "split_lines (concat (drop k (split_lines bs))) = drop k (split_lines bs)"
    "complete (concat (drop k (split_lines bs)))"
    by (simp_all add: split_lines_concat complete_concat)
qed

lemma is_line_event: "event_ok J e \<Longrightarrow> is_line (event_line J e)"
  unfolding event_ok_def event_line_def is_line_def by (intro exI [of _ "jl_dump J e @ [13]"]) simp

section \<open>Reading\<close>

lemma scan_lines_spec:
  "scan_lines n bs pos ptr ev = (ptr', ev') \<Longrightarrow> pos = ptr + length cur \<Longrightarrow> 10 \<notin> set cur \<Longrightarrow> ev < n \<Longrightarrow>
   ev \<le> ev' \<and> ev' \<le> n \<and> ptr' \<le> pos + length bs \<and>
   ev' - ev \<le> length (split_lines (cur @ bs @ rest)) \<and>
   ptr' = ptr + length (concat (take (ev' - ev) (split_lines (cur @ bs @ rest))))"
proof (induction bs arbitrary: pos ptr ev cur)
  case (Cons b bs)
  show ?case
  proof (cases "b = 10")
    case True
    note sp = split_lines_line [OF Cons.prems(3), of "bs @ rest"]
    show ?thesis
    proof (cases "ev + 1 = n")
      case False
      then have "scan_lines n bs (pos + 1) (pos + 1) (ev + 1) = (ptr', ev')"
        using Cons.prems(1) True by simp
      from Cons.IH [OF this, of "[]"] False Cons.prems(4)
      have IH: "ev + 1 \<le> ev'" "ev' \<le> n" "ptr' \<le> pos + 1 + length bs"
        "ev' - (ev + 1) \<le> length (split_lines (bs @ rest))"
        "ptr' = pos + 1 + length (concat (take (ev' - (ev + 1)) (split_lines (bs @ rest))))" by auto
      then have "ev' - ev = Suc (ev' - (ev + 1))" by simp
      with IH True sp Cons.prems(2) show ?thesis by simp
    qed (use Cons.prems True sp in auto)
  next
    case False
    then show ?thesis using Cons.IH [of "pos + 1" ptr ev "cur @ [b]"] Cons.prems by auto
  qed
qed auto

lemma scan_lines_live:
  "10 \<in> set bs \<Longrightarrow> ev < n \<Longrightarrow> ev < snd (scan_lines n bs pos ptr ev)"
proof (induction bs arbitrary: pos ptr ev)
  case (Cons b bs)
  have mono: "ev \<le> snd (scan_lines n bs pos ptr ev)" for pos ptr ev
    by (induction bs arbitrary: pos ptr ev) (auto, meson Suc_leD)
  show ?case
    using Cons mono [of "Suc ev" "pos + 1" "pos + 1"] by (auto simp: Suc_le_eq)
qed simp

section \<open>Removing uploaded events\<close>

lemma length_write_at: "pos + length bs \<le> length c \<Longrightarrow> length (write_at c pos bs) = length c"
  by (simp add: write_at_def)

lemma copy_down_spec:
  "n \<le> rpos \<Longrightarrow> rpos \<le> length c \<Longrightarrow> length c - rpos \<le> fuel \<Longrightarrow> copy_down fuel c rpos n [] = (c', n') \<Longrightarrow>
   n' = n + (length c - rpos) \<and> take n' c' = take n c @ drop rpos c"
proof (induction fuel arbitrary: c rpos n)
  case (Suc fuel)
  define buf where "buf = take (1024 * 1024) (drop rpos c)"
  show ?case
  proof (cases "buf = []")
    case True
    with Suc.prems show ?thesis by (auto simp: buf_def)
  next
    case False
    define d where "d = write_at c n buf"
    have len: "rpos + length buf \<le> length c" "0 < length buf" using False Suc.prems(2) by (auto simp: buf_def)
    have rest: "buf @ drop (rpos + length buf) c = drop rpos c"
      using append_take_drop_id [of "1024 * 1024" "drop rpos c"]
      by (cases "length c - rpos \<le> 1024 * 1024") (simp_all add: buf_def add.commute)
    have n: "n \<le> length c" using Suc.prems(1,2) by simp
    have d: "length d = length c" "take (n + length buf) d = take n c @ buf"
      "drop (rpos + length buf) d = drop (rpos + length buf) c"
      using Suc.prems(1) len n by (simp_all add: d_def write_at_def)
    have "copy_down fuel d (rpos + length buf) (n + length buf) [] = (c', n')"
      using Suc.prems(4) False unfolding d_def buf_def by (simp add: Let_def)
    moreover have "length d - (rpos + length buf) \<le> fuel" using Suc.prems(3) len d(1) by linarith
    ultimately have "n' = n + length buf + (length d - (rpos + length buf)) \<and>
        take n' c' = take (n + length buf) d @ drop (rpos + length buf) d"
      using Suc.prems(1) len(1) d(1) by (intro Suc.IH) simp_all
    then show ?thesis using d rest len by auto
  qed
qed auto

section \<open>The batch as an \<open>event_batch\<close>\<close>

text \<open>
  An open batch mirrors its file: the sizes agree, the file ends with a complete line, no line is longer
  than the 1 MiB an upload can take, and \<open>streamAtEnd\<close> means what it says. A closed batch is empty.
\<close>

definition file_inv :: "file_state \<Rightarrow> bool" where
  "file_inv s \<longleftrightarrow>
     (if fb_fd (snd s) then
        fst s (fb_path (snd s)) \<noteq> None \<and> fileSize (snd s) = length (content s) \<and> complete (content s) \<and>
        eventCount (snd s) = length (split_lines (content s)) \<and>
        (\<forall>l \<in> set (split_lines (content s)). length l \<le> 1024 * 1024) \<and>
        (streamAtEnd (snd s) \<longrightarrow> fb_pos (snd s) = length (content s))
      else fileSize (snd s) = 0)"

definition file_lines :: "file_state \<Rightarrow> byte list list" where
  "file_lines s = (if fb_fd (snd s) then split_lines (content s) else [])"

definition file_event_ok :: "'j json_lib \<Rightarrow> 'j \<Rightarrow> bool" where
  "file_event_ok J e \<longleftrightarrow> event_ok J e \<and> length (event_line J e) \<le> 1024 * 1024"

text \<open>The operations when every write succeeds; an acknowledged list of an existing file cannot throw.\<close>

definition file_uploaded :: "file_state \<Rightarrow> event_list \<Rightarrow> file_state" where
  "file_uploaded s l = (case file_onEventsUploaded [] s l of Inr s' \<Rightarrow> s' | Inl e \<Rightarrow> s)"

lemma content_simps [simp]:
  "content (set_content c s) = c"
  "fb_path b = fb_path (snd s) \<Longrightarrow> content (fst s, b) = content s"
  "snd (set_content c s) = snd s"
  "fst (set_content c s) (fb_path (snd s)) = Some c"
  by (simp_all add: content_def set_content_def)

lemma file_add_ok:
  assumes "file_inv s" and "is_line l" and "length l \<le> 1024 * 1024" and "file_addString [] s l = (r, s')"
  shows "file_inv s' \<and> file_lines s' = file_lines s @ (if r then [l] else [])"
proof (cases "r")
  case False
  then show ?thesis using assms by (auto simp: file_addString_def Let_def split: if_splits prod.splits)
next
  case True
  then have fd: "fb_fd (snd s)" using assms(4) by (auto simp: file_addString_def split: if_splits)
  define t where "t = (if streamAtEnd (snd s) then s else seekToEndAndGetFileSize s)"
  have t: "content t = content s" "fb_pos (snd t) = length (content s)" "fileSize (snd t) = length (content s)"
    "eventCount (snd t) = eventCount (snd s)" "fb_fd (snd t)" "streamAtEnd (snd t)"
    using assms(1) fd by (auto simp: t_def file_inv_def seekToEndAndGetFileSize_def)
  have s': "s' = set_content (content s @ l) (fst t, (snd t)\<lparr>fb_pos := length (content s) + length l,
      fileSize := length (content s) + length l, eventCount := eventCount (snd s) + 1\<rparr>)"
    using assms(4) True t unfolding file_addString_def t_def [symmetric]
    by (auto simp: Let_def write_at_def set_content_def split: if_splits)
  have "complete (content s)" using assms(1) fd by (simp add: file_inv_def)
  then have sp: "split_lines (content s @ l) = split_lines (content s) @ [l]"
    using assms(2) split_lines_concat [of "[l]"] by (simp add: split_lines_append)
  moreover have "complete (content s @ l)" using assms(2) by (auto simp: complete_def is_line_def)
  ultimately show ?thesis
    using s' t True fd assms(1,3) by (simp add: file_inv_def file_lines_def) (simp add: set_content_def)
qed

lemma file_get_ok:
  assumes "file_inv s" and "file_getEventsForUpload s n m = (r, s')"
  shows "file_inv s' \<and> file_lines s' = file_lines s \<and>
    (\<forall>l. r = Some l \<longrightarrow> el_data l = concat (take (el_events l) (file_lines s)) \<and>
       el_events l \<le> length (file_lines s) \<and> el_events l \<le> n \<and> length (el_data l) \<le> m)"
proof (cases "\<not> fb_fd (snd s) \<or> fileSize (snd s) = 0 \<or> n = 0")
  case True
  with assms show ?thesis by (simp add: file_getEventsForUpload_def)
next
  case False
  define k where "k = min (min m (1024 * 1024)) (fileSize (snd s))"
  obtain p ev where sc: "scan_lines n (take k (content s)) 0 0 0 = (p, ev)" by fastforce
  have "take k (content s) @ drop k (content s) = content s" by simp
  with scan_lines_spec [OF sc, of "[]" "drop k (content s)"] False
  have sp: "ev \<le> n" "ev \<le> length (split_lines (content s))" "p \<le> length (take k (content s))"
    "p = length (concat (take ev (split_lines (content s))))" by auto
  have "take p (take k (content s)) = take p (content s)" using sp(3) by (simp add: min_absorb1)
  also have "\<dots> = concat (take ev (split_lines (content s)))"
    using sp(4) concat_append [of "take ev (split_lines (content s))" "drop ev (split_lines (content s))"]
    by (metis append_take_drop_id concat_split_lines take_append_length)
  finally have data: "take p (take k (content s)) = concat (take ev (split_lines (content s)))" .
  have r: "r = Some \<lparr>el_data = take p (take k (content s)), el_events = ev, el_more = p < fileSize (snd s)\<rparr>"
    "s' = (fst s, (snd s)\<lparr>streamAtEnd := False, fb_pos := length (take k (content s))\<rparr>)"
    using assms(2) False sc by (auto simp: file_getEventsForUpload_def Let_def k_def)
  have "length (concat (take ev (split_lines (content s)))) \<le> m" unfolding data [symmetric] by (simp add: k_def)
  moreover have "file_inv s'" "file_lines s' = split_lines (content s)" "file_lines s = split_lines (content s)"
    using r(2) assms(1) False by (simp_all add: file_inv_def file_lines_def)
  ultimately show ?thesis using r(1) sp(1,2) unfolding data by simp
qed

lemma file_uploaded_ok:
  assumes "file_inv s" and "el_data l = concat (take (el_events l) (file_lines s))"
    and "el_events l \<le> length (file_lines s)"
    and "streamAtEnd (snd s) \<longrightarrow> el_events l < length (file_lines s)"
  shows "file_inv (file_uploaded s l) \<and> file_lines (file_uploaded s l) = drop (el_events l) (file_lines s)"
proof (cases "fb_fd (snd s)")
  case False
  with assms show ?thesis by (simp add: file_uploaded_def file_onEventsUploaded_def file_lines_def)
next
  case fd: True
  let ?c = "content s" and ?k = "el_events l"
  have c: "complete ?c" "fileSize (snd s) = length ?c" "fst s (fb_path (snd s)) \<noteq> None"
    "eventCount (snd s) = length (split_lines ?c)" "\<forall>l \<in> set (split_lines ?c). length l \<le> 1024 * 1024"
    using assms(1) fd by (simp_all add: file_inv_def)
  have ln: "file_lines s = split_lines ?c" using fd by (simp add: file_lines_def)
  note dr = split_lines_drop [OF c(1), of ?k]
  show ?thesis
  proof (cases "length ?c = length (el_data l)")
    case True
    then have "concat (drop ?k (split_lines ?c)) = []" using dr(1) assms(2) ln by simp
    then have "drop ?k (split_lines ?c) = []" using dr(2) by (metis split_lines.simps(1))
    moreover from this have "\<not> streamAtEnd (snd s)" using assms(4) ln by auto
    ultimately show ?thesis
      using True fd c(2) ln
      by (simp add: file_uploaded_def file_onEventsUploaded_def Let_def file_inv_def file_lines_def complete_def)
        (simp add: set_content_def content_def)
  next
    case False
    obtain d n where cd: "copy_down (length ?c) ?c (length (el_data l)) 0 [] = (d, n)" by fastforce
    have le: "length (el_data l) \<le> length ?c"
      using assms(2) ln by (metis append_take_drop_id concat_append concat_split_lines le_add1 length_append)
    from copy_down_spec [OF _ le _ cd] have "take n d = drop (length (el_data l)) ?c" "n = length ?c - length (el_data l)"
      by auto
    then have d: "take n d = concat (drop ?k (split_lines ?c))" "n = length (concat (drop ?k (split_lines ?c)))"
      using dr(1) assms(2) ln by (simp_all flip: length_drop)
    have "file_uploaded s l = set_content (take n d) (fst s, (snd s)\<lparr>fb_pos := n, fileSize := n,
        eventCount := eventCount (snd s) - ?k\<rparr>)"
      using False fd c(2,3) cd by (auto simp: file_uploaded_def file_onEventsUploaded_def)
    moreover have "\<forall>l \<in> set (drop ?k (split_lines ?c)). length l \<le> 1024 * 1024"
      using c(5) by (meson in_set_dropD)
    ultimately show ?thesis
      using d dr(2,3) c(4) fd ln by (simp add: file_inv_def file_lines_def) (simp add: set_content_def)
  qed
qed

lemma file_add_rejected: "file_addString [] s l = (False, s') \<Longrightarrow> s' = s"
  by (auto simp: file_addString_def Let_def split: if_splits)

lemma file_adds_ok:
  "file_inv s \<Longrightarrow> list_all (file_event_ok J) es \<Longrightarrow> s' = adds_with (file_addEvent J []) s es \<Longrightarrow>
   \<exists>more. file_inv s' \<and> file_lines s' = file_lines s @ more \<and> (more = [] \<longrightarrow> s' = s)"
proof (induction es arbitrary: s)
  case (Cons e es)
  obtain r s1 where a: "file_addEvent J [] s e = (r, s1)" by (metis surj_pair)
  then have s1: "file_inv s1 \<and> file_lines s1 = file_lines s @ (if r then [event_line J e] else [])"
    using Cons.prems by (intro file_add_ok) (auto simp: file_addEvent_def file_event_ok_def is_line_event)
  have "\<not> r \<Longrightarrow> s1 = s"
    using a file_add_rejected by (auto simp: file_addEvent_def)
  moreover have "\<exists>more. file_inv s' \<and> file_lines s' = file_lines s1 @ more \<and> (more = [] \<longrightarrow> s' = s1)"
    using s1 Cons.prems(2,3) a by (intro Cons.IH) simp_all
  ultimately show ?case using s1 by auto
qed auto

interpretation file_batch: event_batch "event_line J" "file_event_ok J" file_inv file_lines "file_addEvent J []"
  file_getEventsForUpload file_uploaded file_hasEvents for J :: "'j json_lib"
proof
  fix s and e :: 'j
  assume "file_inv s" "file_event_ok J e"
  then show "file_inv (snd (file_addEvent J [] s e)) \<and> file_lines (snd (file_addEvent J [] s e)) =
      file_lines s @ (if fst (file_addEvent J [] s e) then [event_line J e] else [])"
    using file_add_ok [of s "event_line J e"]
    by (cases "file_addEvent J [] s e") (auto simp: file_addEvent_def file_event_ok_def is_line_event)
next
  fix s n m l s2 and es :: "'j list"
  assume s: "file_inv s" "fst (file_getEventsForUpload s n m) = Some l" "list_all (file_event_ok J) es"
    "s2 = adds_with (file_addEvent J []) (snd (file_getEventsForUpload s n m)) es"
  from file_get_ok [OF s(1) surjective_pairing, of n m] s(2)
  have g: "file_inv (snd (file_getEventsForUpload s n m))"
    "file_lines (snd (file_getEventsForUpload s n m)) = file_lines s"
    "el_data l = concat (take (el_events l) (file_lines s))" "el_events l \<le> length (file_lines s)"
    by simp_all
  from file_adds_ok [OF g(1) s(3,4)] g(2) obtain more where
    "file_inv s2" "file_lines s2 = file_lines s @ more" "more = [] \<longrightarrow> s2 = snd (file_getEventsForUpload s n m)"
    by auto
  moreover have "\<not> streamAtEnd (snd (snd (file_getEventsForUpload s n m)))"
    using s(2) by (auto simp: file_getEventsForUpload_def Let_def split: if_splits prod.splits)
  ultimately have "file_inv s2" "file_lines s2 = file_lines s @ more"
    "streamAtEnd (snd s2) \<longrightarrow> el_events l < length (file_lines s2)"
    using g(4) by (auto simp: neq_Nil_conv)
  with g(3,4) show "file_inv (file_uploaded s2 l) \<and>
      file_lines (file_uploaded s2 l) = drop (el_events l) (file_lines s2)"
    by (intro file_uploaded_ok) simp_all
next
  fix s n m l
  assume "file_inv s"
  then show "file_inv (snd (file_getEventsForUpload s n m)) \<and>
      file_lines (snd (file_getEventsForUpload s n m)) = file_lines s"
    and "fst (file_getEventsForUpload s n m) = Some l \<Longrightarrow>
      el_data l = concat (take (el_events l) (file_lines s)) \<and> el_events l \<le> length (file_lines s) \<and>
      el_events l \<le> n \<and> length (el_data l) \<le> m"
    using file_get_ok [of s n m, OF _ surjective_pairing] by blast+
  show "file_lines s \<noteq> [] \<Longrightarrow> file_hasEvents s"
    using \<open>file_inv s\<close> by (auto simp: file_lines_def file_hasEvents_def file_inv_def split: if_splits)
qed

interpretation file_live: live_event_batch "event_line J" "file_event_ok J" file_inv file_lines
  "file_addEvent J []" file_getEventsForUpload file_uploaded file_hasEvents for J :: "'j json_lib"
proof
  fix s and n m :: nat
  assume s: "file_inv s" "file_lines s \<noteq> []" "0 < n" "length (hd (file_lines s)) \<le> m"
  then have fd: "fb_fd (snd s)" and c: "complete (content s)" "fileSize (snd s) = length (content s)"
    by (auto simp: file_lines_def file_inv_def split: if_splits)
  let ?l = "hd (file_lines s)" and ?k = "min (min m (1024 * 1024)) (fileSize (snd s))"
  have l: "?l \<in> set (split_lines (content s))" "split_lines (content s) = ?l # tl (split_lines (content s))"
    using s(2) fd by (simp_all add: file_lines_def)
  then have pre: "content s = ?l @ concat (tl (split_lines (content s)))"
    by (metis concat.simps(2) concat_split_lines)
  have "length ?l \<le> ?k"
    using s(1,4) fd l(1) arg_cong [OF pre, of length] c(2) by (simp add: file_inv_def)
  then have "take (length ?l) (take ?k (content s)) = ?l"
    by (subst pre) (simp add: min_absorb1)
  moreover have "10 \<in> set ?l" using is_line_split [OF c(1) l(1)] by (auto simp: is_line_def)
  ultimately have "10 \<in> set (take ?k (content s))" by (metis in_set_takeD)
  then have "0 < snd (scan_lines n (take ?k (content s)) 0 0 0)"
    using s(3) by (intro scan_lines_live) simp_all
  moreover have "fileSize (snd s) \<noteq> 0" using l c(2) by auto
  ultimately show "\<exists>k. fst (file_getEventsForUpload s n m) = Some k \<and> 0 < el_events k"
    using fd s(3) by (auto simp: file_getEventsForUpload_def Let_def split: prod.splits)
qed

section \<open>Opening a file\<close>

lemma count_scan_spec:
  "count_scan bs p q k = (q', k') \<Longrightarrow> q + length cur = p \<Longrightarrow> 10 \<notin> set cur \<Longrightarrow>
   q \<le> q' \<and> q' \<le> p + length bs \<and> complete (take (q' - q) (cur @ bs)) \<and> k' = k + length (split_lines (take (q' - q) (cur @ bs)))
   \<and> 10 \<notin> set (drop (q' - q) (cur @ bs))"
proof (induction bs arbitrary: p q k cur)
  case Nil
  then show ?case by (auto simp: complete_def)
next
  case (Cons b bs)
  show ?case
  proof (cases "b = 10")
    case False
    then show ?thesis using Cons.IH [of "p + 1" q k "cur @ [b]"] Cons.prems by auto
  next
    case True
    then have "count_scan bs (p + 1) (p + 1) (k + 1) = (q', k')" using Cons.prems(1) by simp
    from Cons.IH [OF this, of "[]"]
    have IH: "p + 1 \<le> q'" "q' \<le> p + 1 + length bs" "complete (take (q' - (p + 1)) bs)"
      "k' = k + 1 + length (split_lines (take (q' - (p + 1)) bs))" "10 \<notin> set (drop (q' - (p + 1)) bs)" by auto
    have "q' - q = length cur + Suc (q' - (p + 1))" using IH(1) Cons.prems(2) by simp
    then have tk: "take (q' - q) (cur @ b # bs) = cur @ 10 # take (q' - (p + 1)) bs"
      "drop (q' - q) (cur @ b # bs) = drop (q' - (p + 1)) bs" using True by simp_all
    have "complete (cur @ 10 # take (q' - (p + 1)) bs)" using IH(3) by (auto simp: complete_def)
    then show ?thesis
      using IH Cons.prems(2,3) tk by (simp add: split_lines_line)
  qed
qed

text \<open>An opened file is trimmed to its last complete line, and its events are counted.\<close>

lemma file_open_ok:
  assumes "\<And>c l. fs path = Some c \<Longrightarrow> l \<in> set (split_lines c) \<Longrightarrow> length l \<le> 1024 * 1024"
  shows "file_inv (file_open True path fs)"
    "\<exists>rest. (case fs path of None \<Rightarrow> [] | Some c \<Rightarrow> c) = concat (file_lines (file_open True path fs)) @ rest \<and>
      10 \<notin> set rest"
proof -
  define c where "c = (case fs path of None \<Rightarrow> [] | Some c \<Rightarrow> c)"
  obtain q k where qk: "count_scan c 0 0 0 = (q, k)" by fastforce
  from count_scan_spec [OF this, of "[]"]
  have q: "q \<le> length c" "complete (take q c)" "k = length (split_lines (take q c))" "10 \<notin> set (drop q c)" by auto
  have res: "content (file_open True path fs) = take q c" "fb_fd (snd (file_open True path fs))"
    "fileSize (snd (file_open True path fs)) = q" "eventCount (snd (file_open True path fs)) = k"
    "\<not> streamAtEnd (snd (file_open True path fs))" "fst (file_open True path fs) (fb_path (snd (file_open True path fs))) \<noteq> None"
    using qk q(1)
    by (auto simp: file_open_def Let_def seekToEndAndGetFileSize_def countEventsInFile_def content_def
        set_content_def c_def split: option.splits)
  have "split_lines c = split_lines (take q c) @ split_lines (drop q c)"
    using split_lines_append [OF q(2), of "drop q c"] by simp
  then have "\<forall>l \<in> set (split_lines (take q c)). length l \<le> 1024 * 1024"
    using assms by (cases "fs path") (auto simp: c_def)
  then show "file_inv (file_open True path fs)"
    using res q by (simp add: file_inv_def min_absorb2)
  show "\<exists>rest. (case fs path of None \<Rightarrow> [] | Some c \<Rightarrow> c) = concat (file_lines (file_open True path fs)) @ rest \<and>
      10 \<notin> set rest"
    using res q(4) unfolding c_def [symmetric] file_lines_def by (intro exI [of _ "drop q c"]) simp
qed

section \<open>A failed write\<close>

text \<open>
  After a short write and an error the file is truncated but the position stays behind the end, and
  \<open>streamAtEnd\<close> stays set. The next event is written after a hole of zero bytes, and \<open>fileSize\<close> is too small.
\<close>

definition batch_at_end :: file_state where
  "batch_at_end = ([''f'' \<mapsto> []],
     \<lparr>fb_path = ''f'', fb_fd = True, fb_pos = 0, fileSize = 0, eventCount = 0, streamAtEnd = True,
      finalized = False, fb_maxCount = 0, fb_maxSize = 0\<rparr>)"

lemma failed_write_leaves_hole:
  assumes "fb_fd (snd s)" and "\<not> finalized (snd s)" and "streamAtEnd (snd s)" and "fb_maxSize (snd s) = 0"
    and "fb_maxCount (snd s) = 0" and "fb_pos (snd s) = length (content s)" and "fileSize (snd s) = length (content s)"
    and "0 < k" and "k < length d" and "file_addString [int k, -1] s d = (ok, s1)"
    and "file_addString [] s1 d' = (ok', s2)"
  shows "\<not> ok \<and> content s1 = content s \<and> ok' \<and> content s2 = content s @ replicate k 0 @ d' \<and>
    fileSize (snd s2) = length (content s) + length d'"
proof -
  have s1: "\<not> ok" "s1 = set_content (content s) (fst s, (snd s)\<lparr>fb_pos := length (content s) + k\<rparr>)"
    using assms(1-10)
    by (auto simp: file_addString_def canAddEventInt_def write_at_def Let_def set_content_def split: if_splits)
  then have "ok' \<and> s2 = set_content (content s @ replicate k 0 @ d')
      (fst s1, (snd s)\<lparr>fb_pos := length (content s) + k + length d',
         fileSize := length (content s) + length d', eventCount := eventCount (snd s) + 1\<rparr>)"
    using assms(1-7,11)
    by (auto simp: file_addString_def canAddEventInt_def write_at_def Let_def set_content_def content_def)
  with s1 show ?thesis by (simp add: content_def set_content_def)
qed

end
