(* ===== verification/Cxx_Text.thy ===== *)
theory Cxx_Text
  imports Prelude
begin

text \<open>
  The pieces of the C++ library for numbers in text that the components use: decimal output of integers
  (\<^verbatim>\<open>operator<<\<close>, \<^verbatim>\<open>std::to_string\<close>) and input with \<^verbatim>\<open>std::stoull\<close> and \<^verbatim>\<open>std::stoi\<close> (leading white space and a sign are
  accepted, the longest run of digits is read, the rest is ignored).
\<close>

section \<open>Decimal output\<close>

definition digit_char :: "nat \<Rightarrow> char" where
  "digit_char d = char_of (48 + d)"

fun dec_nat :: "nat \<Rightarrow> string" where
  "dec_nat n = (if n < 10 then [digit_char n] else dec_nat (n div 10) @ [digit_char (n mod 10)])"

declare dec_nat.simps [simp del]

definition dec_int :: "int \<Rightarrow> string" where
  "dec_int i = (if i < 0 then CHR ''-'' # dec_nat (nat (- i)) else dec_nat (nat i))"

section \<open>Decimal input\<close>

definition is_digit :: "char \<Rightarrow> bool" where
  "is_digit c \<longleftrightarrow> 48 \<le> (of_char c :: nat) \<and> (of_char c :: nat) \<le> 57"

definition is_space :: "char \<Rightarrow> bool" where
  "is_space c \<longleftrightarrow> c = CHR '' '' \<or> (9 \<le> (of_char c :: nat) \<and> (of_char c :: nat) \<le> 13)"

definition digit_val :: "char \<Rightarrow> nat" where
  "digit_val c = of_char c - 48"

definition dec_val :: "string \<Rightarrow> nat" where
  "dec_val ds = foldl (\<lambda>n d. n * 10 + digit_val d) 0 ds"

text \<open>Sign and digits of a number at the start of a text.\<close>

definition scan_number :: "string \<Rightarrow> (bool \<times> nat) option" where
  "scan_number s =
     (let s = dropWhile is_space s;
          (neg, s) = (case s of c # cs \<Rightarrow> if c = CHR ''-'' then (True, cs)
                        else if c = CHR ''+'' then (False, cs) else (False, s) | [] \<Rightarrow> (False, s));
          ds = takeWhile is_digit s
      in if ds = [] then None else Some (neg, dec_val ds))"

definition stoull :: "string \<Rightarrow> u64 cxx" where
  "stoull s = (case scan_number s of
     None \<Rightarrow> Inl (InvalidArgument ''stoull'')
   | Some (neg, n) \<Rightarrow>
       if n \<ge> 2 ^ 64 then Inl (OutOfRange ''stoull'')
       else Inr (if neg then - of_nat n else of_nat n))"

definition stoi :: "string \<Rightarrow> int cxx" where
  "stoi s = (case scan_number s of
     None \<Rightarrow> Inl (InvalidArgument ''stoi'')
   | Some (neg, n) \<Rightarrow>
       let i = (if neg then - int n else int n) in
       if i < - (2 ^ 31) \<or> i \<ge> 2 ^ 31 then Inl (OutOfRange ''stoi'') else Inr i)"

section \<open>Round trip\<close>

lemma of_digit_char: "d < 10 \<Longrightarrow> (of_char (digit_char d) :: nat) = 48 + d"
  by (simp add: digit_char_def)

lemma digit_char_simps [simp]:
  "d < 10 \<Longrightarrow> is_digit (digit_char d)"
  "d < 10 \<Longrightarrow> digit_val (digit_char d) = d"
  by (simp_all add: is_digit_def digit_val_def of_digit_char)

lemma dec_nat_digits: "\<forall>c \<in> set (dec_nat n). is_digit c"
  by (induction n rule: dec_nat.induct) (subst dec_nat.simps, simp)

lemma dec_nat_nonempty [simp]: "dec_nat n \<noteq> []"
  by (subst dec_nat.simps) simp

lemma dec_val_snoc [simp]: "dec_val (ds @ [d]) = dec_val ds * 10 + digit_val d"
  by (simp add: dec_val_def)

lemma dec_val_dec_nat [simp]: "dec_val (dec_nat n) = n"
proof (induction n rule: dec_nat.induct)
  case (1 n)
  then show ?case
    by (subst dec_nat.simps) (simp add: dec_val_def)
qed

lemma digit_not_sign: "is_digit c \<Longrightarrow> c \<noteq> CHR ''-'' \<and> c \<noteq> CHR ''+'' \<and> \<not> is_space c"
  by (auto simp: is_digit_def is_space_def)

lemma dec_int_inj: "dec_int i = dec_int j \<longleftrightarrow> i = j"
proof
  assume eq: "dec_int i = dec_int j"
  have hd: "CHR ''-'' # xs \<noteq> dec_nat n" for xs n
    using dec_nat_digits [of n] digit_not_sign [of "CHR ''-''"] by (metis list.set_intros(1))
  have val: "dec_nat m = dec_nat n \<Longrightarrow> m = n" for m n by (metis dec_val_dec_nat)
  show "i = j"
    using eq hd hd [symmetric] val [of "nat i" "nat j"] val [of "nat (- i)" "nat (- j)"]
    by (auto simp: dec_int_def split: if_splits)
qed simp

lemma scan_number_dec:
  assumes "case rest of [] \<Rightarrow> True | c # cs \<Rightarrow> \<not> is_digit c"
  shows "scan_number (dec_nat n @ rest) = Some (False, n)"
proof -
  obtain d ds where d: "dec_nat n = d # ds" by (cases "dec_nat n") simp_all
  have dig: "\<forall>c \<in> set (dec_nat n). is_digit c" by (rule dec_nat_digits)
  with d digit_not_sign have "\<not> is_space d" "d \<noteq> CHR ''-''" "d \<noteq> CHR ''+''" by auto
  moreover have "takeWhile is_digit (dec_nat n @ rest) = dec_nat n"
    using dig assms by (cases rest) (simp_all add: takeWhile_append_stop)
  ultimately show ?thesis
    using d dec_val_dec_nat [of n] by (simp add: scan_number_def Let_def)
qed

lemma stoull_dec: "n < 2 ^ 64 \<Longrightarrow> stoull (dec_nat n) = Inr (of_nat n)"
  using scan_number_dec [of "[]" n] by (simp add: stoull_def)

lemma stoi_dec: "- (2 ^ 31) \<le> i \<Longrightarrow> i < 2 ^ 31 \<Longrightarrow> stoi (dec_int i) = Inr i"
proof -
  assume i: "- (2 ^ 31) \<le> i" "i < 2 ^ 31"
  have "scan_number (CHR ''-'' # dec_nat n) = Some (True, n)" for n
    using dec_nat_digits [of n] by (simp add: scan_number_def is_space_def Let_def takeWhile_eq_all_conv [THEN iffD2])
  then show ?thesis
    using i scan_number_dec [of "[]" "nat i"] by (auto simp: stoi_def dec_int_def Let_def)
qed

end
