(* ===== verification/Cll_Multi.thy ===== *)
theory Cll_Multi
  imports Cll_File Cxx_Text
begin

text \<open>
  \<^verbatim>\<open>MultiFileEventBatch\<close>: numbered batch files in a directory. Events go to the newest file; when it is
  full it is closed for writing and a new one is opened; uploads come from the oldest file.

  The batch is an \<open>event_batch\<close>: over all its files nothing is lost, duplicated or reordered. It is not
  a live one, and the last section shows how an event that no file can take leaves it stuck.
\<close>

section \<open>State and operations\<close>

record multi_batch =
  mb_path :: string
  mb_prefix :: string
  mb_suffix :: string
  fileMaxSize :: nat
  fileMaxEvents :: nat
  oldestBatch :: "file_batch option"
  oldBatches :: "int list"
  newestBatch :: file_batch
  newestBatchId :: int

type_synonym multi_state = "file_system \<times> multi_batch"

definition getBatchFileName :: "multi_batch \<Rightarrow> int \<Rightarrow> string" where
  "getBatchFileName m i = mb_path m @ mb_prefix m @ dec_int i @ mb_suffix m"

text \<open>\<open>names\<close> are the regular files of the directory, as \<^verbatim>\<open>readdir\<close> gives them.\<close>

definition batch_id_of_name :: "string \<Rightarrow> string \<Rightarrow> string \<Rightarrow> int option" where
  "batch_id_of_name pre suf name =
     (if length name < length pre + length suf \<or> take (length pre) name \<noteq> pre \<or>
         drop (length name - length suf) name \<noteq> suf
      then None
      else
        (case stoull (take (length name - length pre - length suf) (drop (length pre) name)) of
           Inl e \<Rightarrow> None
         | Inr v \<Rightarrow> Some (sint v)))"

definition getBatches :: "string list \<Rightarrow> string \<Rightarrow> string \<Rightarrow> int list" where
  "getBatches names pre suf = sort (List.map_filter (batch_id_of_name pre suf) names)"

definition openBatch :: "(string \<Rightarrow> bool) \<Rightarrow> file_system \<Rightarrow> multi_batch \<Rightarrow> int \<Rightarrow> bool \<Rightarrow> file_state" where
  "openBatch can_open fs m i write =
     (let name = getBatchFileName m i;
          (fs', ev) = file_open (can_open name) name fs;
          ev = setLimit (fileMaxEvents m) (fileMaxSize m) ev
      in (fs', if write then ev else setFinalized ev))"

text \<open>What stands for the null pointer before the constructor has opened the newest file.\<close>

definition no_batch :: file_batch where
  "no_batch = \<lparr>fb_path = [], fb_fd = False, fb_pos = 0, fileSize = 0, eventCount = 0, streamAtEnd = False,
               finalized = False, fb_maxCount = 0, fb_maxSize = 0\<rparr>"

definition with_slash :: "string \<Rightarrow> string" where
  "with_slash p = (if p \<noteq> [] \<and> last p \<noteq> CHR ''/'' then p @ ''/'' else p)"

definition multi_open ::
  "(string \<Rightarrow> bool) \<Rightarrow> string list \<Rightarrow> file_system \<Rightarrow> string \<Rightarrow> string \<Rightarrow> string \<Rightarrow> nat \<Rightarrow> nat \<Rightarrow> multi_state" where
  "multi_open can_open names fs path pre suf maxEvents maxSize =
     (let ids = getBatches names pre suf;
          m = \<lparr>mb_path = with_slash path, mb_prefix = pre, mb_suffix = suf, fileMaxSize = maxSize,
               fileMaxEvents = maxEvents, oldestBatch = None, oldBatches = butlast ids,
               newestBatch = no_batch, newestBatchId = (if ids = [] then 0 else last ids)\<rparr>;
          (fs', b) = openBatch can_open fs m (newestBatchId m) True
      in (fs', m\<lparr>newestBatch := b\<rparr>))"

fun checkOldest ::
  "(string \<Rightarrow> bool) \<Rightarrow> multi_batch \<Rightarrow> int list \<Rightarrow> file_system \<Rightarrow> file_batch option \<times> int list \<times> file_system" where
  "checkOldest can_open m [] fs = (None, [], fs)"
| "checkOldest can_open m (fr # ids) fs =
     (let (fs', b) = openBatch can_open fs m fr False in
      if file_hasEvents (fs', b) then (Some b, ids, fs')
      else checkOldest can_open m ids (fs'(fb_path b := None)))"

definition checkOldestBatch :: "(string \<Rightarrow> bool) \<Rightarrow> multi_state \<Rightarrow> multi_state" where
  "checkOldestBatch can_open s =
     (if oldestBatch (snd s) \<noteq> None then s
      else
        let (ob, ids, fs) = checkOldest can_open (snd s) (oldBatches (snd s)) (fst s)
        in (fs, (snd s)\<lparr>oldestBatch := ob, oldBatches := ids\<rparr>))"

definition retire_newest :: "multi_batch \<Rightarrow> multi_batch" where
  "retire_newest m =
     (if oldestBatch m = None \<and> oldBatches m = []
      then m\<lparr>oldestBatch := Some (setFinalized (newestBatch m)), newestBatchId := newestBatchId m + 1\<rparr>
      else m\<lparr>oldBatches := oldBatches m @ [newestBatchId m], newestBatchId := newestBatchId m + 1\<rparr>)"

definition rotate :: "(string \<Rightarrow> bool) \<Rightarrow> multi_state \<Rightarrow> multi_state" where
  "rotate can_open s =
     (let m = retire_newest (snd s);
          (fs', nb) = openBatch can_open (fst s) m (newestBatchId m) True
      in (fs', m\<lparr>newestBatch := nb\<rparr>))"

definition multi_addEvent ::
  "'j json_lib \<Rightarrow> (string \<Rightarrow> bool) \<Rightarrow> int list \<Rightarrow> multi_state \<Rightarrow> 'j \<Rightarrow> bool \<times> multi_state" where
  "multi_addEvent J can_open ws s rawData =
     (let data = event_line J rawData;
          s = (if canAddEvent (newestBatch (snd s)) (length data) then s else rotate can_open s);
          (ok, fs, b) = file_addString ws (fst s, newestBatch (snd s)) data
      in (ok, fs, (snd s)\<lparr>newestBatch := b\<rparr>))"

definition multi_getEventsForUpload ::
  "(string \<Rightarrow> bool) \<Rightarrow> multi_state \<Rightarrow> nat \<Rightarrow> nat \<Rightarrow> event_list option \<times> multi_state" where
  "multi_getEventsForUpload can_open s maxCount maxSize =
     (let s = checkOldestBatch can_open s in
      case oldestBatch (snd s) of
        Some b \<Rightarrow>
          let (r, fs, b') = file_getEventsForUpload (fst s, b) maxCount maxSize
          in (map_option (\<lambda>l. l\<lparr>el_more := True\<rparr>) r, fs, (snd s)\<lparr>oldestBatch := Some b'\<rparr>)
      | None \<Rightarrow>
          let (r, fs, b') = file_getEventsForUpload (fst s, newestBatch (snd s)) maxCount maxSize
          in (r, fs, (snd s)\<lparr>newestBatch := b'\<rparr>))"

definition multi_onEventsUploaded :: "int list \<Rightarrow> multi_state \<Rightarrow> event_list \<Rightarrow> multi_state cxx" where
  "multi_onEventsUploaded ws s l =
     (case oldestBatch (snd s) of
        Some b \<Rightarrow>
          cxx_bind (file_onEventsUploaded ws (fst s, b) l) (\<lambda>(fs, b').
            Inr (fs, (snd s)\<lparr>oldestBatch := if file_hasEvents (fs, b') then Some b' else None\<rparr>))
      | None \<Rightarrow>
          cxx_bind (file_onEventsUploaded ws (fst s, newestBatch (snd s)) l) (\<lambda>(fs, b').
            Inr (fs, (snd s)\<lparr>newestBatch := b'\<rparr>)))"

definition multi_hasEvents :: "multi_state \<Rightarrow> bool" where
  "multi_hasEvents s \<longleftrightarrow> oldBatches (snd s) \<noteq> [] \<or> oldestBatch (snd s) \<noteq> None \<or>
     file_hasEvents (fst s, newestBatch (snd s))"

definition setFileLimits :: "nat \<Rightarrow> nat \<Rightarrow> multi_batch \<Rightarrow> multi_batch" where
  "setFileLimits maxEvents maxSize m =
     m\<lparr>fileMaxSize := maxSize, fileMaxEvents := maxEvents,
       oldestBatch := map_option (setLimit maxEvents maxSize) (oldestBatch m),
       newestBatch := setLimit maxEvents maxSize (newestBatch m)\<rparr>"

section \<open>One file among others\<close>

lemma file_cong:
  assumes "fs' (fb_path b) = fs (fb_path b)"
  shows "content (fs', b) = content (fs, b)" "file_inv (fs', b) = file_inv (fs, b)"
    "file_lines (fs', b) = file_lines (fs, b)"
  using assms by (simp_all add: content_def file_inv_def file_lines_def)

lemma file_limits [simp]:
  "content (fs, setLimit n k b) = content (fs, b)" "content (fs, setFinalized b) = content (fs, b)"
  "file_inv (fs, setLimit n k b) = file_inv (fs, b)" "file_inv (fs, setFinalized b) = file_inv (fs, b)"
  "file_lines (fs, setLimit n k b) = file_lines (fs, b)" "file_lines (fs, setFinalized b) = file_lines (fs, b)"
  "fb_path (setLimit n k b) = fb_path b" "fb_path (setFinalized b) = fb_path b"
  "fb_fd (setLimit n k b) = fb_fd b" "fb_fd (setFinalized b) = fb_fd b"
  "finalized (setLimit n k b) = finalized b" "finalized (setFinalized b)"
  "fileSize (setLimit n k b) = fileSize b" "fileSize (setFinalized b) = fileSize b"
  by (simp_all add: content_def file_inv_def file_lines_def setLimit_def setFinalized_def)

lemma set_content_simps [simp]:
  "fst (set_content c s) = (fst s)(fb_path (snd s) \<mapsto> c)"
  by (simp add: set_content_def)

lemma file_addString_frame:
  assumes "file_addString ws (fs, b) d = (r, fs', b')"
  shows "fb_path b' = fb_path b" "fb_fd b' = fb_fd b" "finalized b' = finalized b"
    "q \<noteq> fb_path b \<Longrightarrow> fs' q = fs q"
  using assms
  by (auto simp: file_addString_def set_content_def seekToEndAndGetFileSize_def Let_def
      split: if_splits prod.splits)

lemma file_get_frame:
  assumes "file_getEventsForUpload (fs, b) n k = (r, fs', b')"
  shows "fs' = fs" "fb_path b' = fb_path b" "fb_fd b' = fb_fd b" "finalized b' = finalized b"
  using assms by (auto simp: file_getEventsForUpload_def Let_def split: if_splits prod.splits)

lemma file_uploaded_frame:
  assumes "file_uploaded (fs, b) l = (fs', b')"
  shows "fb_path b' = fb_path b" "finalized b' = finalized b" "q \<noteq> fb_path b \<Longrightarrow> fs' q = fs q"
    "\<not> finalized b \<Longrightarrow> fb_fd b' = fb_fd b"
  using assms
  by (auto simp: file_uploaded_def file_onEventsUploaded_def Let_def set_content_def
      split: if_splits prod.splits)

lemma file_uploaded_open:
  "file_inv (fs, b) \<Longrightarrow> file_onEventsUploaded [] (fs, b) l = Inr (file_uploaded (fs, b) l)"
  by (auto simp: file_uploaded_def file_onEventsUploaded_def file_inv_def Let_def split: prod.splits)

text \<open>What a file of the directory must be for the batch to be able to read it.\<close>

definition good_file :: "file_system \<Rightarrow> string \<Rightarrow> bool" where
  "good_file fs p \<longleftrightarrow> (\<exists>c. fs p = Some c \<and> complete c \<and> (\<forall>l \<in> set (split_lines c). length l \<le> 1024 * 1024))"

definition disk_lines :: "file_system \<Rightarrow> string \<Rightarrow> byte list list" where
  "disk_lines fs p = split_lines (case fs p of None \<Rightarrow> [] | Some c \<Rightarrow> c)"

lemma file_inv_good:
  "file_inv (fs, b) \<Longrightarrow> fb_fd b \<Longrightarrow> good_file fs (fb_path b) \<and> disk_lines fs (fb_path b) = file_lines (fs, b)"
  by (auto simp: file_inv_def good_file_def disk_lines_def file_lines_def content_def)

lemma file_open_frame:
  "fb_path (snd (file_open ok p fs)) = p" "fb_fd (snd (file_open ok p fs)) = ok"
  "finalized (snd (file_open ok p fs)) = False" "q \<noteq> p \<Longrightarrow> fst (file_open ok p fs) q = fs q"
  by (auto simp: file_open_def Let_def seekToEndAndGetFileSize_def countEventsInFile_def set_content_def
      split: prod.splits)

lemma openBatch_ok:
  assumes "good_file fs (getBatchFileName m i) \<or> fs (getBatchFileName m i) = None"
    and "openBatch (\<lambda>_. True) fs m i write = (fs', b)"
  shows "file_inv (fs', b)" "file_lines (fs', b) = disk_lines fs (getBatchFileName m i)" "fb_fd b"
    "fb_path b = getBatchFileName m i" "finalized b = (\<not> write)"
    "q \<noteq> getBatchFileName m i \<Longrightarrow> fs' q = fs q"
proof -
  let ?p = "getBatchFileName m i"
  obtain f c where f: "file_open True ?p fs = (f, c)" by fastforce
  note fr = file_open_frame [where ok = True and p = ?p and fs = fs, unfolded f fst_conv snd_conv]
  have b: "fs' = f" "b = (if write then setLimit (fileMaxEvents m) (fileMaxSize m) c
      else setFinalized (setLimit (fileMaxEvents m) (fileMaxSize m) c))"
    using assms(2) f by (auto simp: openBatch_def Let_def)
  then show "fb_fd b" "fb_path b = ?p" "finalized b = (\<not> write)" "q \<noteq> ?p \<Longrightarrow> fs' q = fs q"
    using fr by auto
  have small: "\<And>x l. fs ?p = Some x \<Longrightarrow> l \<in> set (split_lines x) \<Longrightarrow> length l \<le> 1024 * 1024"
    using assms(1) by (auto simp: good_file_def)
  have inv: "file_inv (f, c)" using file_open_ok(1) [of fs ?p] small f by simp
  then show "file_inv (fs', b)" using b by simp
  obtain rest where rest: "(case fs ?p of None \<Rightarrow> [] | Some c \<Rightarrow> c) = concat (file_lines (f, c)) @ rest" "10 \<notin> set rest"
    using file_open_ok(2) [of fs ?p] small f by auto
  have "complete (concat (file_lines (f, c)) @ rest)"
    using assms(1) rest(1) by (auto simp: good_file_def complete_def)
  with rest(2) have "rest = []" by (cases rest rule: rev_cases) (auto simp: complete_def)
  moreover have "file_lines (f, c) = split_lines (content (f, c))" using fr(2) by (simp add: file_lines_def)
  ultimately show "file_lines (fs', b) = disk_lines fs ?p" using rest(1) b by (simp add: disk_lines_def)
qed

lemma getBatchFileName_inj [simp]: "getBatchFileName m i = getBatchFileName m j \<longleftrightarrow> i = j"
  by (simp add: getBatchFileName_def dec_int_inj)

lemma getBatchFileName_image [simp]: "getBatchFileName m i \<in> getBatchFileName m ` S \<longleftrightarrow> i \<in> S"
  by auto

lemma getBatchFileName_update [simp]:
  "getBatchFileName (m\<lparr>oldestBatch := x\<rparr>) = getBatchFileName m"
  "getBatchFileName (m\<lparr>oldBatches := ids\<rparr>) = getBatchFileName m"
  "getBatchFileName (m\<lparr>newestBatch := b\<rparr>) = getBatchFileName m"
  "getBatchFileName (m\<lparr>newestBatchId := k\<rparr>) = getBatchFileName m"
  by (simp_all add: fun_eq_iff getBatchFileName_def)

lemma getBatchFileName_cong:
  "mb_path m' = mb_path m \<Longrightarrow> mb_prefix m' = mb_prefix m \<Longrightarrow> mb_suffix m' = mb_suffix m \<Longrightarrow>
   getBatchFileName m' = getBatchFileName m"
  by (rule ext) (simp add: getBatchFileName_def)

section \<open>All files together\<close>

definition old_lines :: "file_system \<Rightarrow> (int \<Rightarrow> string) \<Rightarrow> int list \<Rightarrow> byte list list" where
  "old_lines fs F ids = concat (map (\<lambda>i. disk_lines fs (F i)) ids)"

lemma old_lines_simps [simp]:
  "old_lines fs F [] = []" "old_lines fs F (i # ids) = disk_lines fs (F i) @ old_lines fs F ids"
  "old_lines fs F (ids @ ids') = old_lines fs F ids @ old_lines fs F ids'"
  by (simp_all add: old_lines_def)

definition multi_lines :: "multi_state \<Rightarrow> byte list list" where
  "multi_lines s =
     (case oldestBatch (snd s) of None \<Rightarrow> [] | Some b \<Rightarrow> file_lines (fst s, b)) @
     old_lines (fst s) (getBatchFileName (snd s)) (oldBatches (snd s)) @
     file_lines (fst s, newestBatch (snd s))"

lemma multi_lines_eq:
  "multi_lines (fs, m) = (case oldestBatch m of None \<Rightarrow> [] | Some b \<Rightarrow> file_lines (fs, b)) @
     old_lines fs (getBatchFileName m) (oldBatches m) @ file_lines (fs, newestBatch m)"
  by (cases "oldestBatch m") (simp_all add: multi_lines_def)

text \<open>
  The newest file is open for writing under its number, the numbers of the older files are smaller and
  different, the oldest file is closed for writing and is none of them, and larger numbers are free.
\<close>

definition oldest_ok :: "file_system \<Rightarrow> multi_batch \<Rightarrow> file_batch \<Rightarrow> bool" where
  "oldest_ok fs m b \<longleftrightarrow> file_inv (fs, b) \<and> finalized b \<and>
     (\<exists>i. fb_path b = getBatchFileName m i \<and> i < newestBatchId m \<and> i \<notin> set (oldBatches m))"

definition multi_inv :: "multi_state \<Rightarrow> bool" where
  "multi_inv s \<longleftrightarrow>
     file_inv (fst s, newestBatch (snd s)) \<and> fb_fd (newestBatch (snd s)) \<and>
     \<not> finalized (newestBatch (snd s)) \<and>
     fb_path (newestBatch (snd s)) = getBatchFileName (snd s) (newestBatchId (snd s)) \<and>
     distinct (oldBatches (snd s)) \<and>
     (\<forall>i \<in> set (oldBatches (snd s)). i < newestBatchId (snd s) \<and> good_file (fst s) (getBatchFileName (snd s) i)) \<and>
     (\<forall>b. oldestBatch (snd s) = Some b \<longrightarrow> oldest_ok (fst s) (snd s) b) \<and>
     (\<forall>i > newestBatchId (snd s). fst s (getBatchFileName (snd s) i) = None)"

lemma disk_cong: "fs' p = fs p \<Longrightarrow> disk_lines fs' p = disk_lines fs p \<and> good_file fs' p = good_file fs p"
  by (simp add: disk_lines_def good_file_def)

text \<open>A change to the file with one number leaves the others alone.\<close>

lemma oldest_ok_cong:
  assumes "oldest_ok fs m b" and "\<And>q. q \<noteq> getBatchFileName m j \<Longrightarrow> fs' q = fs q"
    and "j \<in> set (oldBatches m) \<or> newestBatchId m \<le> j"
  shows "oldest_ok fs' m b" "file_lines (fs', b) = file_lines (fs, b)"
proof -
  obtain i where i: "fb_path b = getBatchFileName m i" "i < newestBatchId m" "i \<notin> set (oldBatches m)"
    using assms(1) by (auto simp: oldest_ok_def)
  then have "i \<noteq> j" using assms(3) by auto
  with i(1) have "fs' (fb_path b) = fs (fb_path b)" using assms(2) by simp
  note cong = file_cong [of fs' b fs, OF this]
  show "file_lines (fs', b) = file_lines (fs, b)" by (rule cong(3))
  show "oldest_ok fs' m b" using assms(1) unfolding oldest_ok_def cong(2) .
qed

lemma old_lines_cong:
  assumes "\<And>i. i \<in> set ids \<Longrightarrow> fs' (F i) = fs (F i)"
  shows "old_lines fs' F ids = old_lines fs F ids"
    "(\<forall>i \<in> set ids. good_file fs' (F i)) \<longleftrightarrow> (\<forall>i \<in> set ids. good_file fs (F i))"
  using assms disk_cong [of fs' _ fs] by (auto simp: old_lines_def intro!: arg_cong [of _ _ concat])

text \<open>An operation on the newest file.\<close>

lemma newest_update:
  assumes "multi_inv (fs, m)" and "file_inv (fs', b')"
    and "fb_fd b'" "\<not> finalized b'" "fb_path b' = fb_path (newestBatch m)"
    and "\<And>q. q \<noteq> fb_path (newestBatch m) \<Longrightarrow> fs' q = fs q"
    and "file_lines (fs', b') = f (file_lines (fs, newestBatch m))"
  shows "multi_inv (fs', m\<lparr>newestBatch := b'\<rparr>)"
    "multi_lines (fs', m\<lparr>newestBatch := b'\<rparr>) =
       (case oldestBatch m of None \<Rightarrow> [] | Some b \<Rightarrow> file_lines (fs, b)) @
       old_lines fs (getBatchFileName m) (oldBatches m) @ f (file_lines (fs, newestBatch m))"
proof -
  let ?m = "m\<lparr>newestBatch := b'\<rparr>"
  have F: "getBatchFileName ?m = getBatchFileName m" by (rule getBatchFileName_cong) simp_all
  have inv: "fb_path (newestBatch m) = getBatchFileName m (newestBatchId m)"
    "\<forall>i \<in> set (oldBatches m). i < newestBatchId m \<and> good_file fs (getBatchFileName m i)"
    "\<forall>b. oldestBatch m = Some b \<longrightarrow> oldest_ok fs m b"
    "\<forall>i > newestBatchId m. fs (getBatchFileName m i) = None" "distinct (oldBatches m)"
    using assms(1) by (simp_all add: multi_inv_def)
  have fs': "i \<noteq> newestBatchId m \<Longrightarrow> fs' (getBatchFileName m i) = fs (getBatchFileName m i)" for i
    using assms(6) inv(1) by simp
  have old: "i \<in> set (oldBatches m) \<Longrightarrow> fs' (getBatchFileName m i) = fs (getBatchFileName m i)" for i
    using inv(2) fs' by auto
  have ob: "oldest_ok fs' m b" "file_lines (fs', b) = file_lines (fs, b)" if "oldestBatch m = Some b" for b
    using oldest_ok_cong [of fs m b "newestBatchId m" fs'] that inv(1,3) assms(6) by auto
  have "oldest_ok fs' ?m b = oldest_ok fs' m b" for b by (simp add: oldest_ok_def F)
  then show "multi_inv (fs', ?m)"
    using assms(2-5) inv ob(1) old_lines_cong(2) [of "oldBatches m" fs' "getBatchFileName m" fs, OF old] fs' by (simp add: multi_inv_def F)
  show "multi_lines (fs', ?m) =
      (case oldestBatch m of None \<Rightarrow> [] | Some b \<Rightarrow> file_lines (fs, b)) @
      old_lines fs (getBatchFileName m) (oldBatches m) @ f (file_lines (fs, newestBatch m))"
    using assms(7) old_lines_cong(1) [of "oldBatches m" fs' "getBatchFileName m" fs, OF old] ob(2)
    by (cases "oldestBatch m") (simp_all add: multi_lines_def F)
qed

lemma rotate_ok:
  assumes "multi_inv s"
  shows "multi_inv (rotate (\<lambda>_. True) s)" "multi_lines (rotate (\<lambda>_. True) s) = multi_lines s"
proof -
  obtain fs m where s: "s = (fs, m)" by fastforce
  let ?m = "retire_newest m" and ?k = "newestBatchId m"
  have F: "getBatchFileName ?m = getBatchFileName m" "newestBatchId ?m = ?k + 1"
    by (rule getBatchFileName_cong; simp add: retire_newest_def) (simp add: retire_newest_def)
  obtain fs' nb where ob: "openBatch (\<lambda>_. True) fs ?m (?k + 1) True = (fs', nb)" by fastforce
  have rot: "rotate (\<lambda>_. True) s = (fs', ?m\<lparr>newestBatch := nb\<rparr>)"
    using ob by (simp add: rotate_def Let_def s F)
  have F': "getBatchFileName (?m\<lparr>newestBatch := nb\<rparr>) = getBatchFileName m"
    using F(1) by (subst getBatchFileName_cong [of _ ?m]) simp_all
  have inv: "file_inv (fs, newestBatch m)" "fb_fd (newestBatch m)"
    "fb_path (newestBatch m) = getBatchFileName m ?k"
    "\<forall>i \<in> set (oldBatches m). i < ?k \<and> good_file fs (getBatchFileName m i)"
    "\<forall>b. oldestBatch m = Some b \<longrightarrow> oldest_ok fs m b"
    "\<forall>i > ?k. fs (getBatchFileName m i) = None" "distinct (oldBatches m)"
    using assms by (simp_all add: multi_inv_def s)
  have none: "fs (getBatchFileName ?m (?k + 1)) = None" using inv(6) F by simp
  note op = openBatch_ok [OF disjI2 ob, OF none, unfolded F]
  have fs': "i \<noteq> ?k + 1 \<Longrightarrow> fs' (getBatchFileName m i) = fs (getBatchFileName m i)" for i
    using op(6) by simp
  have nl: "file_lines (fs', nb) = []" using op(2) inv(6) by (simp add: disk_lines_def)
  have newest: "file_inv (fs', newestBatch m)" "file_lines (fs', newestBatch m) = file_lines (fs, newestBatch m)"
    using inv(1,3) fs' [of ?k] file_cong [of fs' "newestBatch m" fs] by simp_all
  have good: "good_file fs' (getBatchFileName m ?k)" "disk_lines fs' (getBatchFileName m ?k) = file_lines (fs, newestBatch m)"
    using file_inv_good [OF newest(1) inv(2)] inv(3) newest(2) by simp_all
  have old: "i \<in> set (oldBatches m) \<Longrightarrow> fs' (getBatchFileName m i) = fs (getBatchFileName m i)" for i
    using inv(4) fs' by auto
  note olds = old_lines_cong [of "oldBatches m" fs' "getBatchFileName m" fs, OF old]
  have obt: "oldest_ok fs' m b" "file_lines (fs', b) = file_lines (fs, b)" if "oldestBatch m = Some b" for b
    using oldest_ok_cong [of fs m b "?k + 1" fs'] that inv(5) op(6) by auto
  have common: "\<forall>i > ?k + 1. fs' (getBatchFileName m i) = None" using inv(6) fs' by auto
  show "multi_inv (rotate (\<lambda>_. True) s)"
  proof (cases "oldestBatch m = None \<and> oldBatches m = []")
    case True
    have "oldest_ok fs' (?m\<lparr>newestBatch := nb\<rparr>) (setFinalized (newestBatch m))"
      using True newest(1) inv(3) F' by (auto simp: oldest_ok_def retire_newest_def)
    then show ?thesis
      using True op common F F' by (simp add: rot multi_inv_def) (simp add: retire_newest_def)
  next
    case False
    have "oldest_ok fs' (?m\<lparr>newestBatch := nb\<rparr>) b" if "oldestBatch m = Some b" for b
      using obt(1) [OF that] F' False by (auto simp: oldest_ok_def retire_newest_def)
    then show ?thesis
      using False op common F F' olds(2) inv(4,7) good(1)
      by (simp add: rot multi_inv_def) (auto simp: retire_newest_def)
  qed
  show "multi_lines (rotate (\<lambda>_. True) s) = multi_lines s"
  proof (cases "oldestBatch m = None \<and> oldBatches m = []")
    case True
    then show ?thesis
      using F' nl newest(2) by (simp add: rot multi_lines_def) (simp add: s retire_newest_def)
  next
    case False
    then show ?thesis
      using F' nl olds(1) obt(2) good(2)
      by (cases "oldestBatch m"; simp add: rot multi_lines_def; simp add: s retire_newest_def)
  qed
qed

lemma checkOldest_ok:
  assumes "\<forall>i \<in> set ids. i < newestBatchId m \<and> good_file fs (getBatchFileName m i)" and "distinct ids"
    and "checkOldest (\<lambda>_. True) m ids fs = (ob, ids', fs')"
  shows "(case ob of None \<Rightarrow> [] | Some b \<Rightarrow> file_lines (fs', b)) @
      old_lines fs' (getBatchFileName m) ids' = old_lines fs (getBatchFileName m) ids \<and>
    (\<forall>i \<in> set ids'. good_file fs' (getBatchFileName m i)) \<and> distinct ids' \<and> set ids' \<subseteq> set ids \<and>
    (\<forall>b. ob = Some b \<longrightarrow> file_inv (fs', b) \<and> finalized b \<and>
       (\<exists>i \<in> set ids. fb_path b = getBatchFileName m i \<and> i \<notin> set ids')) \<and>
    (ob = None \<longrightarrow> ids' = []) \<and>
    (\<forall>q. q \<notin> getBatchFileName m ` set ids \<longrightarrow> fs' q = fs q)"
  using assms
proof (induction ids arbitrary: fs)
  case Nil
  then show ?case by simp
next
  case (Cons i ids)
  obtain f b where ob: "openBatch (\<lambda>_. True) fs m i False = (f, b)" by fastforce
  have g: "good_file fs (getBatchFileName m i) \<or> fs (getBatchFileName m i) = None" using Cons.prems(1) by simp
  note op = openBatch_ok [OF g ob]
  have rest: "j \<in> set ids \<Longrightarrow> f (getBatchFileName m j) = fs (getBatchFileName m j)" for j
    using Cons.prems(2) by (intro op(6)) auto
  show ?case
  proof (cases "file_hasEvents (f, b)")
    case True
    then have "ob = Some b" "ids' = ids" "fs' = f" using Cons.prems(3) ob by (auto simp: Let_def)
    then show ?thesis
      using op old_lines_cong [of ids f "getBatchFileName m" fs, OF rest] Cons.prems(1,2) by auto
  next
    case False
    define g where "g = f(fb_path b := None)"
    have run: "checkOldest (\<lambda>_. True) m ids g = (ob, ids', fs')"
      using Cons.prems(3) ob False by (simp add: Let_def g_def)
    have rest': "j \<in> set ids \<Longrightarrow> g (getBatchFileName m j) = fs (getBatchFileName m j)" for j
      using rest op(4) Cons.prems(2) by (auto simp: g_def)
    note olds = old_lines_cong [of ids g "getBatchFileName m" fs, OF rest']
    have "file_lines (f, b) = []"
      using False op(1,3) by (simp add: file_hasEvents_def file_inv_def file_lines_def)
    then have empty: "disk_lines fs (getBatchFileName m i) = []" using op(2) by simp
    have frame: "q \<notin> getBatchFileName m ` set (i # ids) \<Longrightarrow> g q = fs q" for q
      using op(4,6) by (auto simp: g_def)
    have "\<forall>j \<in> set ids. j < newestBatchId m \<and> good_file g (getBatchFileName m j)" "distinct ids"
      using Cons.prems(1,2) olds(2) by auto
    from Cons.IH [OF this run] olds(1) empty frame show ?thesis by auto
  qed
qed

lemma checkOldestBatch_ok:
  assumes "multi_inv s" and "s' = checkOldestBatch (\<lambda>_. True) s"
  shows "multi_inv s'" "multi_lines s' = multi_lines s" "oldestBatch (snd s') = None \<Longrightarrow> oldBatches (snd s') = []"
proof -
  obtain fs m where s: "s = (fs, m)" by fastforce
  have "multi_inv s' \<and> multi_lines s' = multi_lines s \<and> (oldestBatch (snd s') = None \<longrightarrow> oldBatches (snd s') = [])"
  proof (cases "oldestBatch m")
    case (Some b)
    with assms s show ?thesis by (simp add: checkOldestBatch_def)
  next
    case None
    obtain ob ids fs' where run: "checkOldest (\<lambda>_. True) m (oldBatches m) fs = (ob, ids, fs')"
      by (metis prod_cases3)
    let ?m = "m\<lparr>oldestBatch := ob, oldBatches := ids\<rparr>"
    have s': "s' = (fs', ?m)" using assms(2) s None run by (simp add: checkOldestBatch_def)
    have F: "getBatchFileName ?m = getBatchFileName m" by (rule getBatchFileName_cong) simp_all
    have inv: "file_inv (fs, newestBatch m)" "fb_fd (newestBatch m)" "\<not> finalized (newestBatch m)"
      "fb_path (newestBatch m) = getBatchFileName m (newestBatchId m)" "distinct (oldBatches m)"
      "\<forall>i \<in> set (oldBatches m). i < newestBatchId m \<and> good_file fs (getBatchFileName m i)"
      "\<forall>i > newestBatchId m. fs (getBatchFileName m i) = None"
      using assms(1) by (simp_all add: multi_inv_def s)
    note ck = checkOldest_ok [OF inv(6,5) run]
    have fr: "i \<notin> set (oldBatches m) \<Longrightarrow> fs' (getBatchFileName m i) = fs (getBatchFileName m i)" for i
      using ck by simp
    have "newestBatchId m \<notin> set (oldBatches m)" using inv(6) by auto
    with fr inv(4) have nw: "fs' (fb_path (newestBatch m)) = fs (fb_path (newestBatch m))" by simp
    have "oldest_ok fs' ?m b" if "ob = Some b" for b
      using ck that inv(6) by (auto simp: oldest_ok_def F)
    moreover have "\<forall>i > newestBatchId m. fs' (getBatchFileName m i) = None"
      using fr inv(6,7) by (metis order_less_asym)
    ultimately have "multi_inv (fs', ?m)"
      using inv(1-4,6) ck file_cong(2) [of fs' "newestBatch m" fs, OF nw] by (auto simp: multi_inv_def F)
    moreover have "multi_lines (fs', ?m) = multi_lines (fs, m)"
      using conjunct1 [OF ck] file_cong(3) [of fs' "newestBatch m" fs, OF nw] None
      by (cases ob) (simp_all add: multi_lines_def flip: append_assoc)
    ultimately show ?thesis using s s' ck by simp
  qed
  then show "multi_inv s'" "multi_lines s' = multi_lines s" "oldestBatch (snd s') = None \<Longrightarrow> oldBatches (snd s') = []"
    by simp_all
qed

text \<open>An operation on the oldest file.\<close>

lemma oldest_update:
  assumes "multi_inv (fs, m)" and "oldestBatch m = Some b" and "file_inv (fs', b')"
    and "finalized b'" "fb_path b' = fb_path b"
    and "\<And>q. q \<noteq> fb_path b \<Longrightarrow> fs' q = fs q" and "r = None \<longrightarrow> file_lines (fs', b') = []" and "r = None \<or> r = Some b'"
  shows "multi_inv (fs', m\<lparr>oldestBatch := r\<rparr>)"
    "multi_lines (fs', m\<lparr>oldestBatch := r\<rparr>) = file_lines (fs', b') @
       old_lines fs (getBatchFileName m) (oldBatches m) @ file_lines (fs, newestBatch m)"
proof -
  let ?m = "m\<lparr>oldestBatch := r\<rparr>"
  have F: "getBatchFileName ?m = getBatchFileName m" by (rule getBatchFileName_cong) simp_all
  have inv: "file_inv (fs, newestBatch m)" "fb_fd (newestBatch m)" "\<not> finalized (newestBatch m)"
    "fb_path (newestBatch m) = getBatchFileName m (newestBatchId m)" "distinct (oldBatches m)"
    "\<forall>i \<in> set (oldBatches m). i < newestBatchId m \<and> good_file fs (getBatchFileName m i)"
    "\<forall>i > newestBatchId m. fs (getBatchFileName m i) = None" "oldest_ok fs m b"
    using assms(1,2) by (simp_all add: multi_inv_def)
  obtain j where j: "fb_path b = getBatchFileName m j" "j < newestBatchId m" "j \<notin> set (oldBatches m)"
    using inv(8) by (auto simp: oldest_ok_def)
  have fr: "i \<noteq> j \<Longrightarrow> fs' (getBatchFileName m i) = fs (getBatchFileName m i)" for i
    using assms(6) j(1) by simp
  have nw: "fs' (fb_path (newestBatch m)) = fs (fb_path (newestBatch m))" using fr j(2) inv(4) by simp
  have old: "i \<in> set (oldBatches m) \<Longrightarrow> fs' (getBatchFileName m i) = fs (getBatchFileName m i)" for i
    using j(3) by (intro fr) auto
  note olds = old_lines_cong [of "oldBatches m" fs' "getBatchFileName m" fs, OF old]
  have "oldest_ok fs' ?m b'" using assms(3-5) j by (auto simp: oldest_ok_def F)
  moreover have "\<forall>i > newestBatchId m. fs' (getBatchFileName m i) = None"
    using inv(7) fr j(2) by (metis order_less_asym)
  ultimately show "multi_inv (fs', ?m)"
    using inv(1-6) olds(2) file_cong(2) [of fs' "newestBatch m" fs, OF nw] assms(8) by (auto simp: multi_inv_def F)
  show "multi_lines (fs', ?m) = file_lines (fs', b') @
      old_lines fs (getBatchFileName m) (oldBatches m) @ file_lines (fs, newestBatch m)"
    using olds(1) file_cong(3) [of fs' "newestBatch m" fs, OF nw] assms(7,8) by (auto simp: multi_lines_def F)
qed

section \<open>The batch as an \<open>event_batch\<close>\<close>

text \<open>The file an upload list comes from, and that the list is a prefix of what it still holds.\<close>

definition front_batch :: "multi_batch \<Rightarrow> file_batch" where
  "front_batch m = (case oldestBatch m of Some b \<Rightarrow> b | None \<Rightarrow> newestBatch m)"

definition front_valid :: "event_list \<Rightarrow> multi_state \<Rightarrow> bool" where
  "front_valid l s \<longleftrightarrow>
     (oldestBatch (snd s) = None \<longrightarrow> oldBatches (snd s) = []) \<and>
     (let b = front_batch (snd s); ls = file_lines (fst s, b) in
      el_data l = concat (take (el_events l) ls) \<and> el_events l \<le> length ls \<and>
      (streamAtEnd b \<longrightarrow> el_events l < length ls))"

lemma multi_lines_front:
  "oldestBatch (snd s) = None \<longrightarrow> oldBatches (snd s) = [] \<Longrightarrow>
   \<exists>rest. multi_lines s = file_lines (fst s, front_batch (snd s)) @ rest"
  by (cases "oldestBatch (snd s)") (simp_all add: multi_lines_def front_batch_def)

definition multi_uploaded :: "multi_state \<Rightarrow> event_list \<Rightarrow> multi_state" where
  "multi_uploaded s l = (case multi_onEventsUploaded [] s l of Inr s' \<Rightarrow> s' | Inl e \<Rightarrow> s)"

lemma append_to_newest:
  assumes "multi_inv s" and "is_line d" and "length d \<le> 1024 * 1024"
    and "file_addString [] (fst s, newestBatch (snd s)) d = (r, fs', b')"
  shows "multi_inv (fs', (snd s)\<lparr>newestBatch := b'\<rparr>)"
    "multi_lines (fs', (snd s)\<lparr>newestBatch := b'\<rparr>) = multi_lines s @ (if r then [d] else [])"
    "front_valid l s \<Longrightarrow> front_valid l (fs', (snd s)\<lparr>newestBatch := b'\<rparr>)"
proof -
  obtain fs m where s: "s = (fs, m)" by fastforce
  have inv: "file_inv (fs, newestBatch m)" "fb_fd (newestBatch m)" "\<not> finalized (newestBatch m)"
    using assms(1) by (simp_all add: multi_inv_def s)
  have run: "file_addString [] (fs, newestBatch m) d = (r, fs', b')" using assms(4) s by simp
  note ok = file_add_ok [OF inv(1) assms(2,3) run]
  note fr = file_addString_frame [OF run]
  have up: "multi_inv (fs, m)" "file_inv (fs', b')" "fb_fd b'" "\<not> finalized b'"
    "fb_path b' = fb_path (newestBatch m)" "file_lines (fs', b') = file_lines (fs, newestBatch m) @ (if r then [d] else [])"
    using assms(1) s ok fr(1-3) inv by simp_all
  note nu = newest_update [where f = "\<lambda>ls. ls @ (if r then [d] else [])", OF up(1-5) fr(4) up(6)]
  show "multi_inv (fs', (snd s)\<lparr>newestBatch := b'\<rparr>)" using nu(1) s by simp
  show "multi_lines (fs', (snd s)\<lparr>newestBatch := b'\<rparr>) = multi_lines s @ (if r then [d] else [])"
    using nu(2) s by (simp add: multi_lines_eq)
  assume fv: "front_valid l s"
  show "front_valid l (fs', (snd s)\<lparr>newestBatch := b'\<rparr>)"
  proof (cases "oldestBatch m")
    case None
    have "\<not> r \<Longrightarrow> fs' = fs \<and> b' = newestBatch m" using file_add_rejected [of "(fs, newestBatch m)" d] run by auto
    with fv None ok show ?thesis
      by (cases r) (auto simp: front_valid_def front_batch_def s Let_def)
  next
    case (Some b)
    have "oldest_ok fs m b" using assms(1) s Some by (simp add: multi_inv_def)
    then have "file_lines (fs', b) = file_lines (fs, b)"
      by (rule oldest_ok_cong(2) [where j = "newestBatchId m"])
        (use fr(4) up(1) in \<open>auto simp: multi_inv_def\<close>)
    with fv Some show ?thesis by (simp add: front_valid_def front_batch_def s)
  qed
qed

lemma rotate_front_valid:
  assumes "multi_inv s" and "front_valid l s"
  shows "front_valid l (rotate (\<lambda>_. True) s)"
proof -
  obtain fs m where s: "s = (fs, m)" by fastforce
  let ?m = "retire_newest m"
  obtain fs' nb where ob: "openBatch (\<lambda>_. True) fs ?m (newestBatchId ?m) True = (fs', nb)" by fastforce
  have rot: "rotate (\<lambda>_. True) s = (fs', ?m\<lparr>newestBatch := nb\<rparr>)"
    using ob by (simp add: rotate_def Let_def s)
  have F: "getBatchFileName ?m = getBatchFileName m" "newestBatchId ?m = newestBatchId m + 1"
    by (rule getBatchFileName_cong; simp add: retire_newest_def) (simp add: retire_newest_def)
  have inv: "fb_path (newestBatch m) = getBatchFileName m (newestBatchId m)"
    "\<forall>i > newestBatchId m. fs (getBatchFileName m i) = None"
    "\<forall>b. oldestBatch m = Some b \<longrightarrow> oldest_ok fs m b"
    using assms(1) by (simp_all add: multi_inv_def s)
  have "fs (getBatchFileName ?m (newestBatchId ?m)) = None" using inv(2) F by simp
  note op = openBatch_ok(6) [OF disjI2 ob, OF this, unfolded F]
  show ?thesis
  proof (cases "oldestBatch m")
    case None
    have "fs' (fb_path (newestBatch m)) = fs (fb_path (newestBatch m))" using op inv(1) by simp
    note fl = file_cong(3) [of fs' "newestBatch m" fs, OF this]
    have "oldBatches m = []" using assms(2) None by (simp add: front_valid_def s)
    with None fl assms(2) show ?thesis
      unfolding rot by (simp add: front_valid_def front_batch_def s retire_newest_def Let_def)
        (simp add: setFinalized_def)
  next
    case (Some b)
    have "file_lines (fs', b) = file_lines (fs, b)"
      using oldest_ok_cong(2) [of fs m b "newestBatchId m + 1" fs'] inv(3) Some op by auto
    with Some assms(2) show ?thesis
      unfolding rot by (simp add: front_valid_def front_batch_def s retire_newest_def Let_def)
  qed
qed

lemma multi_add_ok:
  assumes "multi_inv s" and "file_event_ok J e" and "multi_addEvent J (\<lambda>_. True) [] s e = (r, s')"
  shows "multi_inv s'" "multi_lines s' = multi_lines s @ (if r then [event_line J e] else [])"
    "front_valid l s \<Longrightarrow> front_valid l s'"
proof -
  define t where "t = (if canAddEvent (newestBatch (snd s)) (length (event_line J e)) then s else rotate (\<lambda>_. True) s)"
  have t: "multi_inv t" "multi_lines t = multi_lines s" "front_valid l s \<Longrightarrow> front_valid l t"
    using assms(1) rotate_ok rotate_front_valid by (auto simp: t_def)
  obtain fs' b' where a: "file_addString [] (fst t, newestBatch (snd t)) (event_line J e) = (r, fs', b')"
    "s' = (fs', (snd t)\<lparr>newestBatch := b'\<rparr>)"
  proof -
    have "multi_addEvent J (\<lambda>_. True) [] s e =
        (let (ok, fs, b) = file_addString [] (fst t, newestBatch (snd t)) (event_line J e)
         in (ok, fs, (snd t)\<lparr>newestBatch := b\<rparr>))"
      by (simp add: multi_addEvent_def t_def Let_def)
    with assms(3) show thesis
      by (cases "file_addString [] (fst t, newestBatch (snd t)) (event_line J e)") (auto intro: that)
  qed
  have l: "is_line (event_line J e)" "length (event_line J e) \<le> 1024 * 1024"
    using assms(2) is_line_event by (auto simp: file_event_ok_def)
  note ap = append_to_newest [OF t(1) l a(1)]
  show "multi_inv s'" "multi_lines s' = multi_lines s @ (if r then [event_line J e] else [])"
    using ap(1,2) a(2) t(2) by simp_all
  show "front_valid l s \<Longrightarrow> front_valid l s'" using ap(3) a(2) t(3) by simp
qed

lemma multi_adds_ok:
  "multi_inv s \<Longrightarrow> list_all (file_event_ok J) es \<Longrightarrow> front_valid l s \<Longrightarrow>
   s' = adds_with (multi_addEvent J (\<lambda>_. True) []) s es \<Longrightarrow> multi_inv s' \<and> front_valid l s'"
proof (induction es arbitrary: s)
  case (Cons e es)
  obtain r s1 where a: "multi_addEvent J (\<lambda>_. True) [] s e = (r, s1)" by (metis surj_pair)
  have "file_event_ok J e" using Cons.prems(2) by simp
  note ok = multi_add_ok [OF Cons.prems(1) this a]
  show ?case using Cons.IH [OF ok(1) _ ok(3)] Cons.prems(2-4) a by simp
qed simp

lemma multi_get_ok:
  assumes "multi_inv s" and "multi_getEventsForUpload (\<lambda>_. True) s n k = (r, s')"
  shows "multi_inv s'" "multi_lines s' = multi_lines s"
    "r = Some l \<Longrightarrow> front_valid l s' \<and> el_events l \<le> n \<and> length (el_data l) \<le> k"
proof -
  obtain fs m where t: "checkOldestBatch (\<lambda>_. True) s = (fs, m)" by fastforce
  note ck = checkOldestBatch_ok [OF assms(1) t [symmetric]]
  have fin: "\<not> streamAtEnd (snd u)" if "file_getEventsForUpload v n k = (Some q, u)" for u v q
    using that by (auto simp: file_getEventsForUpload_def Let_def split: if_splits prod.splits)
  have "multi_inv s' \<and> multi_lines s' = multi_lines (fs, m) \<and>
    (r = Some l \<longrightarrow> front_valid l s' \<and> el_events l \<le> n \<and> length (el_data l) \<le> k)"
  proof (cases "oldestBatch m")
    case (Some b)
    obtain q fs' b' where g: "file_getEventsForUpload (fs, b) n k = (q, fs', b')" by (metis prod_cases3)
    have rs: "r = map_option (\<lambda>l. l\<lparr>el_more := True\<rparr>) q" "s' = (fs', m\<lparr>oldestBatch := Some b'\<rparr>)"
      using assms(2) t Some g by (simp_all add: multi_getEventsForUpload_def)
    have b: "file_inv (fs, b)" "finalized b" using ck(1) Some by (auto simp: multi_inv_def oldest_ok_def)
    note fr = file_get_frame [OF g] and ok = file_get_ok [OF b(1) g]
    have "multi_inv s'" "multi_lines s' = multi_lines (fs, m)"
      using oldest_update [where r = "Some b'" and fs' = fs' and b' = b', OF ck(1) Some] fr b ok rs(2) Some
      by (simp_all add: multi_lines_eq)
    moreover have "r = Some l \<longrightarrow> front_valid l s' \<and> el_events l \<le> n \<and> length (el_data l) \<le> k"
    proof
      assume "r = Some l"
      then obtain l0 where l0: "q = Some l0" "l = l0\<lparr>el_more := True\<rparr>" using rs(1) by auto
      then show "front_valid l s' \<and> el_events l \<le> n \<and> length (el_data l) \<le> k"
        using ok fin [of "(fs, b)" l0 "(fs', b')"] g rs(2) by (auto simp: front_valid_def front_batch_def)
    qed
    ultimately show ?thesis by simp
  next
    case None
    then have old: "oldBatches m = []" using ck(3) by simp
    obtain q fs' b' where g: "file_getEventsForUpload (fs, newestBatch m) n k = (q, fs', b')" by (metis prod_cases3)
    have rs: "r = q" "s' = (fs', m\<lparr>newestBatch := b'\<rparr>)"
      using assms(2) t None g by (simp_all add: multi_getEventsForUpload_def)
    have b: "file_inv (fs, newestBatch m)" "fb_fd (newestBatch m)" "\<not> finalized (newestBatch m)"
      using ck(1) by (simp_all add: multi_inv_def)
    note fr = file_get_frame [OF g] and ok = file_get_ok [OF b(1) g]
    have "multi_inv s'" "multi_lines s' = multi_lines (fs, m)"
      using newest_update [where f = "\<lambda>ls. ls" and fs' = fs' and b' = b', OF ck(1)] fr b ok rs(2)
      by (simp_all add: multi_lines_eq)
    moreover have "r = Some l \<Longrightarrow> front_valid l s' \<and> el_events l \<le> n \<and> length (el_data l) \<le> k"
      using ok fin [of "(fs, newestBatch m)" l "(fs', b')"] g rs None old by (auto simp: front_valid_def front_batch_def)
    ultimately show ?thesis by simp
  qed
  then show "multi_inv s'" "multi_lines s' = multi_lines s"
    "r = Some l \<Longrightarrow> front_valid l s' \<and> el_events l \<le> n \<and> length (el_data l) \<le> k"
    using ck(2) by simp_all
qed

lemma multi_uploaded_ok:
  assumes "multi_inv s" and "front_valid l s"
  shows "multi_inv (multi_uploaded s l)" "multi_lines (multi_uploaded s l) = drop (el_events l) (multi_lines s)"
proof -
  obtain fs m where s: "s = (fs, m)" by fastforce
  define b where "b = front_batch m"
  obtain fs' b' where u: "file_uploaded (fs, b) l = (fs', b')" by fastforce
  have inv: "file_inv (fs, b)" using assms(1) s by (auto simp: b_def front_batch_def multi_inv_def oldest_ok_def split: option.splits)
  have v: "el_data l = concat (take (el_events l) (file_lines (fs, b)))" "el_events l \<le> length (file_lines (fs, b))"
    "streamAtEnd b \<longrightarrow> el_events l < length (file_lines (fs, b))" "oldestBatch m = None \<longrightarrow> oldBatches m = []"
    using assms(2) s by (simp_all add: front_valid_def b_def Let_def)
  from file_uploaded_ok [OF inv v(1,2)] v(3) u
  have ok: "file_inv (fs', b')" "file_lines (fs', b') = drop (el_events l) (file_lines (fs, b))" by simp_all
  note fr = file_uploaded_frame [OF u]
  have un: "file_onEventsUploaded [] (fs, b) l = Inr (fs', b')" using file_uploaded_open [OF inv] u by simp
  have "multi_inv (multi_uploaded s l) \<and> multi_lines (multi_uploaded s l) = drop (el_events l) (multi_lines s)"
  proof (cases "oldestBatch m")
    case (Some x)
    define r where "r = (if file_hasEvents (fs', b') then Some b' else None)"
    have x: "b = x" "finalized b" using Some assms(1) s by (auto simp: b_def front_batch_def multi_inv_def oldest_ok_def)
    have "multi_uploaded s l = (fs', m\<lparr>oldestBatch := r\<rparr>)"
      using Some s un x(1) by (simp add: multi_uploaded_def multi_onEventsUploaded_def r_def)
    moreover have "r = None \<longrightarrow> file_lines (fs', b') = []" using ok(1)
      by (auto simp: r_def file_hasEvents_def file_lines_def file_inv_def split: if_splits)
    ultimately show ?thesis
      using oldest_update [where r = r and fs' = fs' and b' = b' and b = b and m = m and fs = fs] assms(1) s Some x ok fr v(2)
      by (simp add: r_def multi_lines_eq)
  next
    case None
    then have x: "b = newestBatch m" "oldBatches m = []" using v(4) by (simp_all add: b_def front_batch_def)
    have fd: "\<not> finalized b" "fb_fd b" using assms(1) s x by (simp_all add: multi_inv_def)
    have "multi_uploaded s l = (fs', m\<lparr>newestBatch := b'\<rparr>)"
      using None s un x(1) by (simp add: multi_uploaded_def multi_onEventsUploaded_def)
    then show ?thesis
      using newest_update [where f = "drop (el_events l)" and fs' = fs' and b' = b' and m = m and fs = fs]
        assms(1) s None x ok fr fd by (simp add: multi_lines_eq)
  qed
  then show "multi_inv (multi_uploaded s l)" "multi_lines (multi_uploaded s l) = drop (el_events l) (multi_lines s)"
    by simp_all
qed

interpretation multi_batch: event_batch "event_line J" "file_event_ok J" multi_inv multi_lines
  "multi_addEvent J (\<lambda>_. True) []" "multi_getEventsForUpload (\<lambda>_. True)" multi_uploaded multi_hasEvents
  for J :: "'j json_lib"
proof
  fix s and e :: 'j
  assume "multi_inv s" "file_event_ok J e"
  from multi_add_ok [OF this surjective_pairing]
  show "multi_inv (snd (multi_addEvent J (\<lambda>_. True) [] s e)) \<and>
      multi_lines (snd (multi_addEvent J (\<lambda>_. True) [] s e)) =
      multi_lines s @ (if fst (multi_addEvent J (\<lambda>_. True) [] s e) then [event_line J e] else [])" by simp
next
  fix s n m
  assume "multi_inv s"
  from multi_get_ok(1,2) [OF this surjective_pairing]
  show "multi_inv (snd (multi_getEventsForUpload (\<lambda>_. True) s n m)) \<and>
      multi_lines (snd (multi_getEventsForUpload (\<lambda>_. True) s n m)) = multi_lines s" by simp
next
  fix s n m l
  assume a: "multi_inv s" "fst (multi_getEventsForUpload (\<lambda>_. True) s n m) = Some l"
  let ?t = "snd (multi_getEventsForUpload (\<lambda>_. True) s n m)"
  note g = multi_get_ok(1,2) [where n = n and k = m, OF a(1) surjective_pairing]
    multi_get_ok(3) [where n = n and k = m and l = l, OF a(1) surjective_pairing]
  have v: "front_valid l ?t" using g(3) a(2) by simp
  then obtain rest where "multi_lines ?t = file_lines (fst ?t, front_batch (snd ?t)) @ rest"
    using multi_lines_front [of ?t] by (auto simp: front_valid_def)
  then have ml: "multi_lines s = file_lines (fst ?t, front_batch (snd ?t)) @ rest" using g(2) by simp
  have "el_data l = concat (take (el_events l) (file_lines (fst ?t, front_batch (snd ?t))))"
    "el_events l \<le> length (file_lines (fst ?t, front_batch (snd ?t)))"
    using v by (simp_all add: front_valid_def Let_def)
  then show "el_data l = concat (take (el_events l) (multi_lines s)) \<and>
      el_events l \<le> length (multi_lines s) \<and> el_events l \<le> n \<and> length (el_data l) \<le> m"
    unfolding ml using g(3) a(2) by simp
next
  fix s n m l s2 and es :: "'j list"
  assume a: "multi_inv s" "fst (multi_getEventsForUpload (\<lambda>_. True) s n m) = Some l" "list_all (file_event_ok J) es"
    "s2 = adds_with (multi_addEvent J (\<lambda>_. True) []) (snd (multi_getEventsForUpload (\<lambda>_. True) s n m)) es"
  note g = multi_get_ok(1,2) [where n = n and k = m, OF a(1) surjective_pairing]
    multi_get_ok(3) [where n = n and k = m and l = l, OF a(1) surjective_pairing]
  have "front_valid l (snd (multi_getEventsForUpload (\<lambda>_. True) s n m))" using g(3) a(2) by simp
  from multi_adds_ok [OF g(1) a(3) this a(4)]
  show "multi_inv (multi_uploaded s2 l) \<and> multi_lines (multi_uploaded s2 l) = drop (el_events l) (multi_lines s2)"
    by (simp add: multi_uploaded_ok)
next
  fix s
  assume "multi_inv s" "multi_lines s \<noteq> []"
  then show "multi_hasEvents s"
    by (cases s) (auto simp: multi_hasEvents_def multi_lines_eq multi_inv_def file_lines_def file_hasEvents_def
        file_inv_def split: option.splits)
qed

section \<open>Opening the directory\<close>

lemma multi_open_ok:
  assumes "\<And>i. fs (with_slash p @ pre @ dec_int i @ suf) \<noteq> None \<longleftrightarrow> i \<in> set (getBatches names pre suf)"
    and "\<And>i. i \<in> set (getBatches names pre suf) \<Longrightarrow> good_file fs (with_slash p @ pre @ dec_int i @ suf)"
    and "distinct (getBatches names pre suf)"
  shows "multi_inv (multi_open (\<lambda>_. True) names fs p pre suf n k)"
    "multi_lines (multi_open (\<lambda>_. True) names fs p pre suf n k) =
       old_lines fs (\<lambda>i. with_slash p @ pre @ dec_int i @ suf) (getBatches names pre suf)"
proof -
  let ?ids = "getBatches names pre suf" and ?F = "\<lambda>i. with_slash p @ pre @ dec_int i @ suf"
  define m where "m = \<lparr>mb_path = with_slash p, mb_prefix = pre, mb_suffix = suf, fileMaxSize = k,
      fileMaxEvents = n, oldestBatch = None, oldBatches = butlast ?ids,
      newestBatch = no_batch, newestBatchId = (if ?ids = [] then 0 else last ?ids)\<rparr>"
  have F: "getBatchFileName m = ?F" by (simp add: fun_eq_iff getBatchFileName_def m_def)
  obtain fs' b where ob: "openBatch (\<lambda>_. True) fs m (newestBatchId m) True = (fs', b)" by fastforce
  have st: "multi_open (\<lambda>_. True) names fs p pre suf n k = (fs', m\<lparr>newestBatch := b\<rparr>)"
    using ob by (simp add: multi_open_def Let_def m_def)
  have srt: "sorted ?ids" by (simp add: getBatches_def)
  have lt: "i \<in> set (butlast ?ids) \<Longrightarrow> i < newestBatchId m" for i
  proof -
    assume i: "i \<in> set (butlast ?ids)"
    then have ne: "?ids \<noteq> []" by auto
    then obtain xs x where "?ids = xs @ [x]" by (cases ?ids rule: rev_cases) simp_all
    with i srt assms(3) show ?thesis by (auto simp: sorted_append m_def less_le)
  qed
  have gt: "fs (?F i) = None" if "newestBatchId m < i" for i
  proof (rule ccontr)
    assume "fs (?F i) \<noteq> None"
    then have "i \<in> set ?ids" using assms(1) by simp
    then have "?ids \<noteq> []" "i \<in> set (butlast ?ids) \<or> i = last ?ids"
      by (auto, metis Un_iff append_butlast_last_id empty_iff empty_set insertE list.simps(15) set_append)
    with lt [of i] that show False by (auto simp: m_def)
  qed
  have new: "good_file fs (?F (newestBatchId m)) \<or> fs (?F (newestBatchId m)) = None"
    using assms(1,2) by blast
  note op = openBatch_ok [OF _ ob, unfolded F, OF new]
  have fr: "i \<noteq> newestBatchId m \<Longrightarrow> fs' (?F i) = fs (?F i)" for i using op(6) by (simp add: dec_int_inj)
  have old: "i \<in> set (butlast ?ids) \<Longrightarrow> fs' (?F i) = fs (?F i)" for i using lt fr by fastforce
  note olds = old_lines_cong [of "butlast ?ids" fs' ?F fs, OF old]
  have good: "\<forall>i \<in> set (butlast ?ids). good_file fs' (?F i)"
    using olds(2) assms(2) by (meson in_set_butlastD)
  have "\<forall>i > newestBatchId m. fs' (?F i) = None" using gt fr by auto
  then show "multi_inv (multi_open (\<lambda>_. True) names fs p pre suf n k)"
    using op good lt assms(3) unfolding st multi_inv_def
    by (simp add: F) (simp add: m_def distinct_butlast)
  have "file_lines (fs', b) = (if ?ids = [] then [] else disk_lines fs (?F (last ?ids)))"
    using op(2) assms(1) [of 0] by (auto simp: m_def disk_lines_def)
  moreover have "?ids \<noteq> [] \<Longrightarrow> old_lines fs ?F ?ids = old_lines fs ?F (butlast ?ids) @ disk_lines fs (?F (last ?ids))"
    using old_lines_simps(3) [of fs ?F "butlast ?ids" "[last ?ids]"] by simp
  ultimately show "multi_lines (multi_open (\<lambda>_. True) names fs p pre suf n k) = old_lines fs ?F ?ids"
    using olds(1) unfolding st multi_lines_eq by (simp add: F) (auto simp: m_def)
qed

section \<open>An event that no file can take\<close>

text \<open>
  When the newest file is empty, is the only one, and the event is larger than a file may be, the empty file
  becomes the oldest one and stays it: it never has anything to upload, and no later event is reached.
\<close>

definition stuck :: "multi_state \<Rightarrow> bool" where
  "stuck s \<longleftrightarrow> (\<exists>b. oldestBatch (snd s) = Some b \<and> fileSize b = 0)"

lemma stuck_get: "stuck s \<Longrightarrow> multi_getEventsForUpload can_open s n k = (None, s)"
  by (cases s) (auto simp: stuck_def multi_getEventsForUpload_def checkOldestBatch_def file_getEventsForUpload_def)

lemma stuck_has: "stuck s \<Longrightarrow> multi_hasEvents s"
  by (auto simp: stuck_def multi_hasEvents_def)

lemma stuck_add: "stuck s \<Longrightarrow> stuck (snd (multi_addEvent J can_open ws s e))"
  by (auto simp: stuck_def multi_addEvent_def Let_def rotate_def retire_newest_def split: prod.splits)

lemma stuck_adds: "stuck s \<Longrightarrow> stuck (adds_with (multi_addEvent J can_open ws) s es)"
  by (induction es arbitrary: s) (simp_all add: stuck_add)

lemma oversized_event_sticks:
  assumes "oldestBatch (snd s) = None" and "oldBatches (snd s) = []" and "fileSize (newestBatch (snd s)) = 0"
    and "fb_maxSize (newestBatch (snd s)) \<noteq> 0" and "fb_maxSize (newestBatch (snd s)) < length (event_line J e)"
  shows "stuck (snd (multi_addEvent J can_open ws s e))"
proof -
  have "\<not> canAddEvent (newestBatch (snd s)) (length (event_line J e))"
    using assms(3-5) by (simp add: canAddEvent_def canAddEventInt_def)
  then show ?thesis
    using assms(1-3)
    by (auto simp: stuck_def multi_addEvent_def Let_def rotate_def retire_newest_def split: prod.splits)
qed

end
