(* ===== verification/Cll_Properties.thy ===== *)
theory Cll_Properties
  imports Cll_Multi Json_Sample
begin

text \<open>
  The properties of the telemetry batches. The general ones come from the contract \<open>event_batch\<close> through
  its interpretations; the others are about what the contract does not promise.
\<close>

section \<open>Sample data\<close>

abbreviation sample_json :: "jv json_lib" where "sample_json \<equiv> sample_lib [JInt 1, JInt 2]"

lemma sample_line: "event_line sample_json (JInt 1) = [65, 13, 10]" "event_line sample_json (JInt 2) = [66, 13, 10]"
  by (simp_all add: event_line_def sample_lib_def sample_code_def)

lemma sample_event_ok: "file_event_ok sample_json (JInt 1)" "file_event_ok sample_json (JInt 2)"
  by (simp_all add: file_event_ok_def event_ok_def sample_line, simp_all add: sample_lib_def sample_code_def)

lemma batch_at_end_inv: "file_inv batch_at_end"
  by (simp add: batch_at_end_def file_inv_def content_def complete_def)

section \<open>Nothing is lost\<close>





text \<open>
  C15 (file_conservation). The same for a batch in one file whose writes succeed: the file stays a sequence of complete
  lines whose number and total size the batch knows.
\<close>

theorem file_conservation:
  assumes "file_inv s" and "\<forall>x \<in> set xs. list_all (file_event_ok J) (op_events x)"
    and "batch_run (file_addEvent J []) file_getEventsForUpload file_uploaded xs s = (s', d, a)"
  shows "file_inv s' \<and> d @ concat (file_lines s') = concat (file_lines s) @ concat (map (event_line J) a)"
  using assms by (rule file_batch.conservation)

theorem file_conservation_witness:
  "let (s', d, a) = batch_run (file_addEvent sample_json []) file_getEventsForUpload file_uploaded
         [Add (JInt 1), Upload 1 100 [JInt 2]] batch_at_end
   in file_inv s' \<and> d @ concat (file_lines s') = concat (map (event_line sample_json) a)"
proof -
  obtain s' d a where run: "batch_run (file_addEvent sample_json []) file_getEventsForUpload file_uploaded
      [Add (JInt 1), Upload 1 100 [JInt 2]] batch_at_end = (s', d, a)"
    by (metis prod_cases3)
  have "file_lines batch_at_end = []" by (simp add: file_lines_def batch_at_end_def content_def)
  with file_conservation [OF batch_at_end_inv _ run] show ?thesis
    unfolding run by (simp add: sample_event_ok)
qed

text \<open>
  The same for the batch in memory, where an event is refused exactly when the limit is
  reached.
\<close>

theorem memory_conservation:
  assumes "\<forall>x \<in> set xs. list_all (event_ok J) (op_events x)"
    and "batch_run mem_addEvent (mem_get J) mem_onEventsUploaded xs s = (s', d, a)"
  shows "d @ concat (map (event_line J) (items s')) = concat (map (event_line J) (items s @ a))"
  using mem_batch.conservation [OF TrueI assms] by (simp add: mem_lines_def)

theorem memory_conservation_witness:
  "let (s', d, a) = batch_run mem_addEvent (mem_get sample_json) mem_onEventsUploaded
         [Add (JInt 1), Upload 1 100 [JInt 2]] \<lparr>items = [], limit = 1\<rparr>
   in d @ concat (map (event_line sample_json) (items s')) = concat (map (event_line sample_json) a)"
proof -
  obtain s' d a where run: "batch_run mem_addEvent (mem_get sample_json) mem_onEventsUploaded
      [Add (JInt 1), Upload 1 100 [JInt 2]] \<lparr>items = [], limit = 1\<rparr> = (s', d, a)"
    by (metis prod_cases3)
  from memory_conservation [OF _ run] show ?thesis
    using sample_event_ok unfolding run by (simp add: file_event_ok_def)
qed

section \<open>Uploads make progress\<close>

text \<open>
  C17 (file_drained). When every line fits the upload size, repeated uploads empty a file batch: as many as there are
  lines are enough, whatever the limit on the number of events is.
\<close>

theorem file_drained:
  assumes "file_inv s" and "0 < n" and "\<forall>l \<in> set (file_lines s). length l \<le> m"
  shows "file_lines (((\<lambda>s. fst (batch_step (file_addEvent J []) file_getEventsForUpload file_uploaded
     (Upload n m []) s)) ^^ length (file_lines s)) s) = []"
  using assms by (intro file_live.drained) simp_all

theorem file_drained_witness:
  "let s = snd (file_addEvent sample_json [] (snd (file_addEvent sample_json [] batch_at_end (JInt 1))) (JInt 2))
   in length (file_lines s) = 2 \<and>
      file_lines (((\<lambda>s. fst (batch_step (file_addEvent sample_json []) file_getEventsForUpload file_uploaded
        (Upload 1 3 []) s)) ^^ 2) s) = []"
proof -
  define s where "s = snd (file_addEvent sample_json [] (snd (file_addEvent sample_json [] batch_at_end (JInt 1))) (JInt 2))"
  have c: "content s = [65, 13, 10, 66, 13, 10]" and fd: "fb_fd (snd s)"
    by (simp_all add: s_def file_addEvent_def sample_line file_addString_def batch_at_end_def canAddEventInt_def
        write_at_def) (simp_all add: content_def set_content_def)
  have lines: "file_lines s = [[65, 13, 10], [66, 13, 10]]" by (simp add: file_lines_def c fd)
  have "file_inv s"
    using file_batch.adds_pend [OF batch_at_end_inv, of sample_json "[JInt 1, JInt 2]"]
    by (simp add: sample_event_ok s_def)
  from file_drained [OF this, of 1 3 sample_json] show ?thesis
    unfolding s_def [symmetric] by (simp add: lines numeral_2_eq_2)
qed

text \<open>
  An event larger than the upload size blocks the batch in memory for good: the upload
  list is empty but not null, acknowledging it removes nothing, and later events do not change that.
\<close>

theorem oversized_event_blocks:
  assumes "items s = e # es" and "m < length (event_line J e)" and "0 < n" and "0 < m"
  shows "\<exists>l. mem_getEventsForUpload J s n m = Some l \<and> el_events l = 0 \<and> el_data l = [] \<and>
    mem_onEventsUploaded s l = s"
  using assms by (simp add: mem_getEventsForUpload_def event_line_def mem_onEventsUploaded_def)

theorem oversized_event_blocks_witness:
  "\<exists>l. mem_getEventsForUpload sample_json \<lparr>items = [JInt 1, JInt 2], limit = 9\<rparr> 5 2 = Some l \<and> el_events l = 0 \<and>
     el_data l = [] \<and> mem_onEventsUploaded \<lparr>items = [JInt 1, JInt 2], limit = 9\<rparr> l = \<lparr>items = [JInt 1, JInt 2], limit = 9\<rparr>"
  using oversized_event_blocks [of "\<lparr>items = [JInt 1, JInt 2], limit = 9\<rparr>" "JInt 1" "[JInt 2]" 2 sample_json 5]
  by (simp add: sample_line)

text \<open>
  C25 (oversized_event_sticks_files). When an event is larger than a file may be and the newest file is empty and the only
  one, adding it makes the empty file the oldest batch. From then on no event is ever uploaded, whatever is
  added, while the batch claims to have events.
\<close>

theorem oversized_event_sticks_files:
  assumes "oldestBatch (snd s) = None" and "oldBatches (snd s) = []" and "fileSize (newestBatch (snd s)) = 0"
    and "fb_maxSize (newestBatch (snd s)) \<noteq> 0" and "fb_maxSize (newestBatch (snd s)) < length (event_line J e)"
    and "t = adds_with (multi_addEvent J can_open ws) (snd (multi_addEvent J can_open ws s e)) es"
  shows "fst (multi_getEventsForUpload can_open t n m) = None \<and> multi_hasEvents t"
proof -
  have "stuck t" unfolding assms(6) by (intro stuck_adds oversized_event_sticks assms(1-5))
  then show ?thesis by (simp add: stuck_get stuck_has)
qed

definition small_multi :: multi_state where
  "small_multi = multi_open (\<lambda>_. True) [] Map.empty ''d'' ''b'' ''.log'' 0 2"

theorem oversized_event_sticks_files_witness:
  "let t = adds_with (multi_addEvent sample_json (\<lambda>_. True) [])
         (snd (multi_addEvent sample_json (\<lambda>_. True) [] small_multi (JInt 1))) [JInt 2]
   in fst (multi_getEventsForUpload (\<lambda>_. True) t 10 100) = None \<and> multi_hasEvents t"
proof -
  have "oldestBatch (snd small_multi) = None" "oldBatches (snd small_multi) = []"
    "fileSize (newestBatch (snd small_multi)) = 0" "fb_maxSize (newestBatch (snd small_multi)) = 2"
    by (simp_all add: small_multi_def multi_open_def getBatches_def List.map_filter_def openBatch_def file_open_def
        seekToEndAndGetFileSize_def countEventsInFile_def content_def set_content_def setLimit_def Let_def)
  then show ?thesis
    using oversized_event_sticks_files [of small_multi sample_json "JInt 1" _ "\<lambda>_. True" "[]" "[JInt 2]" 10 100]
    by (simp add: sample_line Let_def)
qed

section \<open>Files\<close>





text \<open>
  The number of a batch is read back from the name of its file.
\<close>

theorem batch_name_roundtrip:
  assumes "0 \<le> i" and "i < 2 ^ 63" and "mb_path m = []"
  shows "batch_id_of_name (mb_prefix m) (mb_suffix m) (getBatchFileName m i) = Some i"
proof -
  have "sint (of_nat (nat i) :: u64) = signed_take_bit 63 (int (nat i))"
    by (simp only: signed_of_nat) simp
  then have "sint (of_nat (nat i) :: u64) = i"
    using assms(1,2) by (simp add: signed_take_bit_int_eq_self)
  moreover have "stoull (dec_int i) = Inr (of_nat (nat i))"
    using assms(1,2) stoull_dec [of "nat i"] by (simp add: dec_int_def nat_less_iff)
  ultimately show ?thesis using assms(3) by (simp add: batch_id_of_name_def getBatchFileName_def)
qed

theorem batch_name_roundtrip_witness:
  "batch_id_of_name ''b'' ''.log'' (getBatchFileName ((snd small_multi)\<lparr>mb_path := [], mb_prefix := ''b'', mb_suffix := ''.log''\<rparr>) 42) =
   Some 42"
  using batch_name_roundtrip [of 42 "(snd small_multi)\<lparr>mb_path := [], mb_prefix := ''b'', mb_suffix := ''.log''\<rparr>"] by simp

text \<open>
  C18 (file_recovery). Opening a file that ends in an incomplete line, as an interrupted write leaves it, drops exactly that
  line: the batch is consistent and holds the complete lines.
\<close>

theorem file_recovery:
  assumes "fs path = Some c" and "\<forall>l \<in> set (split_lines c). length l \<le> 1024 * 1024"
  shows "file_inv (file_open True path fs) \<and>
    (\<exists>rest. c = concat (file_lines (file_open True path fs)) @ rest \<and> 10 \<notin> set rest)"
  using file_open_ok [of fs path] assms by simp

theorem file_recovery_witness:
  "\<exists>rest. [65, 13, 10, 66 :: byte] = concat (file_lines (file_open True ''f'' [''f'' \<mapsto> [65, 13, 10, 66]])) @ rest \<and>
     10 \<notin> set rest"
  using file_recovery [of "[''f'' \<mapsto> [65, 13, 10, 66]]" "''f''" "[65, 13, 10, 66]"] by simp

text \<open>
  C26 (failed_write_hole). When a write of an event fails after some bytes, the event is reported as not added and the file
  is cut back, but the position is not: the next event is written behind a hole of as many zero bytes, and the
  recorded size no longer is the size of the file.
\<close>

theorem failed_write_hole:
  assumes "fb_fd (snd s)" and "\<not> finalized (snd s)" and "streamAtEnd (snd s)" and "fb_maxSize (snd s) = 0"
    and "fb_maxCount (snd s) = 0" and "fb_pos (snd s) = length (content s)" and "fileSize (snd s) = length (content s)"
    and "0 < k" and "k < length d" and "file_addString [int k, -1] s d = (ok, s1)"
    and "file_addString [] s1 d' = (ok', s2)"
  shows "\<not> ok \<and> content s1 = content s \<and> ok' \<and> content s2 = content s @ replicate k 0 @ d' \<and>
    fileSize (snd s2) = length (content s) + length d'"
  using assms by (rule failed_write_leaves_hole)

theorem failed_write_hole_witness:
  "let s1 = snd (file_addString [1, -1] batch_at_end [97, 13, 10]);
       s2 = snd (file_addString [] s1 [98, 13, 10])
   in content s2 = [0, 98, 13, 10] \<and> fileSize (snd s2) = 3"
  using failed_write_hole [of batch_at_end 1 "[97, 13, 10]" _ _ "[98, 13, 10]",
      OF _ _ _ _ _ _ _ _ _ surjective_pairing surjective_pairing]
  by (simp add: batch_at_end_def content_def)

end
