(* ===== verification/Cll_Buffered.thy ===== *)
theory Cll_Buffered
  imports Cll_File Json_Sample
begin

text \<open>
  The batch that collects events in memory before it forwards them to another batch
  (\<^verbatim>\<open>cll-telemetry/src/buffered_event_batch.cpp\<close>, \<^verbatim>\<open>buffered_event_batch_private.h\<close>). The operations of the wrapped batch are
  arguments; the lemmas about them are proved from the contract \<open>event_batch\<close> and used for the batch in a file.
  The limits are subtracted as natural numbers: by the contract the wrapped batch never exceeds them.
\<close>

section \<open>Lists\<close>

datatype buffered_type = Wrapped | Memory

datatype buffered_list =
    WrapperBufferedEventList buffered_type "event_list option" bool
  | MergedBufferedEventList event_list event_list

text \<open>A list around another one uses it without a test, so a null pointer is undefined.\<close>

definition wrapper_getData :: "event_list option \<Rightarrow> byte list cxx" where
  "wrapper_getData l = (case l of None \<Rightarrow> Inl Undefined | Some r \<Rightarrow> Inr (el_data r))"

definition wrapper_getDataSize :: "event_list option \<Rightarrow> nat cxx" where
  "wrapper_getDataSize l = (case l of None \<Rightarrow> Inl Undefined | Some r \<Rightarrow> Inr (length (el_data r)))"

definition wrapper_getEventCount :: "event_list option \<Rightarrow> nat cxx" where
  "wrapper_getEventCount l = (case l of None \<Rightarrow> Inl Undefined | Some r \<Rightarrow> Inr (el_events r))"

definition wrapper_hasMoreEvents :: "bool \<Rightarrow> event_list option \<Rightarrow> bool cxx" where
  "wrapper_hasMoreEvents hasMemoryEvents l =
     (if hasMemoryEvents then Inr True else case l of None \<Rightarrow> Inl Undefined | Some r \<Rightarrow> Inr (el_more r))"

text \<open>The data of a merged list, put together by its constructor.\<close>

definition merged_data :: "event_list \<Rightarrow> event_list \<Rightarrow> byte list" where
  "merged_data r rm = el_data r @ el_data rm"

fun bl_getData :: "buffered_list \<Rightarrow> byte list cxx" where
  "bl_getData (WrapperBufferedEventList t l mo) = wrapper_getData l"
| "bl_getData (MergedBufferedEventList r rm) = Inr (merged_data r rm)"

fun bl_getDataSize :: "buffered_list \<Rightarrow> nat cxx" where
  "bl_getDataSize (WrapperBufferedEventList t l mo) = wrapper_getDataSize l"
| "bl_getDataSize (MergedBufferedEventList r rm) = Inr (length (merged_data r rm))"

fun bl_getEventCount :: "buffered_list \<Rightarrow> nat cxx" where
  "bl_getEventCount (WrapperBufferedEventList t l mo) = wrapper_getEventCount l"
| "bl_getEventCount (MergedBufferedEventList r rm) = Inr (el_events r + el_events rm)"

fun bl_hasMoreEvents :: "buffered_list \<Rightarrow> bool cxx" where
  "bl_hasMoreEvents (WrapperBufferedEventList t l mo) = wrapper_hasMoreEvents mo l"
| "bl_hasMoreEvents (MergedBufferedEventList r rm) = Inr (el_more r \<or> el_more rm)"

lemmas bl_getters [simp] = wrapper_getData_def wrapper_getDataSize_def wrapper_getEventCount_def wrapper_hasMoreEvents_def
  merged_data_def

section \<open>The batch\<close>

record ('s, 'j) buffered_batch =
  wrapped :: 's
  mem :: "'j memory_batch"

definition flushInternal :: "('s \<Rightarrow> 'j \<Rightarrow> bool \<times> 's) \<Rightarrow> ('s, 'j) buffered_batch \<Rightarrow> ('s, 'j) buffered_batch" where
  "flushInternal w_add b =
     (let (its, m) = transferAllEvents (mem b)
      in b\<lparr>wrapped := adds_with w_add (wrapped b) its, mem := m\<rparr>)"

definition buf_addEvent :: "('s \<Rightarrow> 'j \<Rightarrow> bool \<times> 's) \<Rightarrow> ('s, 'j) buffered_batch \<Rightarrow> 'j \<Rightarrow> bool \<times> ('s, 'j) buffered_batch" where
  "buf_addEvent w_add b rawData =
     (let (r, m) = mem_addEvent (mem b) rawData
      in if r then (True, b\<lparr>mem := m\<rparr>)
         else let b1 = flushInternal w_add b; (r2, m2) = mem_addEvent (mem b1) rawData in (r2, b1\<lparr>mem := m2\<rparr>))"

definition buf_getEventsForUpload ::
  "'j json_lib \<Rightarrow> ('s \<Rightarrow> bool) \<Rightarrow> ('s \<Rightarrow> nat \<Rightarrow> nat \<Rightarrow> event_list option \<times> 's) \<Rightarrow> ('s, 'j) buffered_batch \<Rightarrow> nat \<Rightarrow> nat \<Rightarrow>
   buffered_list \<times> ('s, 'j) buffered_batch" where
  "buf_getEventsForUpload J w_has w_get b maxCount maxSize =
     (let (ret, b1) = (if w_has (wrapped b) then let (ret, w) = w_get (wrapped b) maxCount maxSize in (ret, b\<lparr>wrapped := w\<rparr>)
                       else (None, b))
      in case ret of
           None \<Rightarrow> (WrapperBufferedEventList Memory (mem_getEventsForUpload J (mem b1) maxCount maxSize) False, b1)
         | Some r \<Rightarrow>
             (case (if \<not> el_more r \<and> mem_hasEvents (mem b1)
                    then mem_getEventsForUpload J (mem b1) (maxCount - el_events r) (maxSize - length (el_data r)) else None) of
                Some rm \<Rightarrow> (MergedBufferedEventList r rm, b1)
              | None \<Rightarrow> (WrapperBufferedEventList Wrapped (Some r) (mem_hasEvents (mem b1)), b1)))"

text \<open>Erasing mo events than the memory batch has is undefined.\<close>

definition mem_erase :: "'j memory_batch \<Rightarrow> event_list \<Rightarrow> 'j memory_batch cxx" where
  "mem_erase m l = (if length (items m) < el_events l then Inl Undefined else Inr (mem_onEventsUploaded m l))"

fun buf_onEventsUploaded ::
  "('s \<Rightarrow> event_list \<Rightarrow> 's) \<Rightarrow> ('s, 'j) buffered_batch \<Rightarrow> buffered_list \<Rightarrow> ('s, 'j) buffered_batch cxx" where
  "buf_onEventsUploaded w_uploaded b (WrapperBufferedEventList t None mo) = Inl Undefined"
| "buf_onEventsUploaded w_uploaded b (WrapperBufferedEventList Wrapped (Some r) mo) =
     Inr (b\<lparr>wrapped := w_uploaded (wrapped b) r\<rparr>)"
| "buf_onEventsUploaded w_uploaded b (WrapperBufferedEventList Memory (Some r) mo) =
     cxx_bind (mem_erase (mem b) r) (\<lambda>m. Inr (b\<lparr>mem := m\<rparr>))"
| "buf_onEventsUploaded w_uploaded b (MergedBufferedEventList r rm) =
     cxx_bind (mem_erase (mem b) rm) (\<lambda>m. Inr (b\<lparr>wrapped := w_uploaded (wrapped b) r, mem := m\<rparr>))"

definition buf_hasEvents :: "('s \<Rightarrow> bool) \<Rightarrow> ('s, 'j) buffered_batch \<Rightarrow> bool" where
  "buf_hasEvents w_has b \<longleftrightarrow> mem_hasEvents (mem b) \<or> w_has (wrapped b)"

definition buf_flush :: "('s \<Rightarrow> 'j \<Rightarrow> bool \<times> 's) \<Rightarrow> ('s, 'j) buffered_batch \<Rightarrow> ('s, 'j) buffered_batch" where
  "buf_flush w_add b = flushInternal w_add b"

section \<open>Adding\<close>

lemma adds_fit:
  "length (items (mem b)) + length es \<le> limit (mem b) \<Longrightarrow>
   adds_with (buf_addEvent w_add) b es = b\<lparr>mem := (mem b)\<lparr>items := items (mem b) @ es\<rparr>\<rparr>"
proof (induction es arbitrary: b)
  case (Cons e es)
  let ?b = "b\<lparr>mem := (mem b)\<lparr>items := items (mem b) @ [e]\<rparr>\<rparr>"
  have "snd (buf_addEvent w_add b e) = ?b"
    using Cons.prems by (simp add: buf_addEvent_def mem_addEvent_def)
  then show ?case using Cons.IH [of ?b] Cons.prems by simp
qed simp

lemma add_full:
  assumes "length (items (mem b)) = limit (mem b)" "0 < limit (mem b)"
  shows "buf_addEvent w_add b e =
    (True, \<lparr>wrapped = adds_with w_add (wrapped b) (items (mem b)), mem = (mem b)\<lparr>items := [e]\<rparr>\<rparr>)"
  using assms by (cases b) (simp add: buf_addEvent_def mem_addEvent_def flushInternal_def transferAllEvents_def)

section \<open>Uploading\<close>

text \<open>The share of both parts in a list.\<close>

fun bl_parts :: "buffered_list \<Rightarrow> nat \<times> nat" where
  "bl_parts (WrapperBufferedEventList t None mo) = (0, 0)"
| "bl_parts (WrapperBufferedEventList Wrapped (Some r) mo) = (el_events r, 0)"
| "bl_parts (WrapperBufferedEventList Memory (Some r) mo) = (0, el_events r)"
| "bl_parts (MergedBufferedEventList r rm) = (el_events r, el_events rm)"

lemma buf_get_cases:
  assumes "buf_getEventsForUpload J w_has w_get b n m = (l, b1)" and "bl_getData l = Inr d"
    and "w_get (wrapped b) n m = (ret, w)"
  obtains (wrap) r mo where "ret = Some r" "l = WrapperBufferedEventList Wrapped (Some r) mo" "b1 = b\<lparr>wrapped := w\<rparr>"
    | (merged) r rm where "ret = Some r" "l = MergedBufferedEventList r rm" "b1 = b\<lparr>wrapped := w\<rparr>"
        "mem_getEventsForUpload J (mem b) (n - el_events r) (m - length (el_data r)) = Some rm"
    | (memory) rm where "l = WrapperBufferedEventList Memory (Some rm) False" "mem_getEventsForUpload J (mem b) n m = Some rm"
        "b1 = b \<or> b1 = b\<lparr>wrapped := w\<rparr>"
proof -
  let ?mem_list = "WrapperBufferedEventList Memory (mem_getEventsForUpload J (mem b) n m) False"
  have memory_case: thesis if "l = ?mem_list" "b1 = b \<or> b1 = b\<lparr>wrapped := w\<rparr>"
    using memory that assms(2) by (cases "mem_getEventsForUpload J (mem b) n m") auto
  show thesis
  proof (cases "w_has (wrapped b) \<and> ret \<noteq> None")
    case False
    then have "l = ?mem_list" "b1 = b \<or> b1 = b\<lparr>wrapped := w\<rparr>"
      using assms(1,3) by (auto simp: buf_getEventsForUpload_def Let_def split: if_splits)
    then show thesis by (rule memory_case)
  next
    case True
    then obtain r where r: "ret = Some r" by blast
    let ?rm = "if \<not> el_more r \<and> mem_hasEvents (mem b)
      then mem_getEventsForUpload J (mem b) (n - el_events r) (m - length (el_data r)) else None"
    have l: "(l, b1) = (case ?rm of Some rm \<Rightarrow> (MergedBufferedEventList r rm, b\<lparr>wrapped := w\<rparr>)
        | None \<Rightarrow> (WrapperBufferedEventList Wrapped (Some r) (mem_hasEvents (mem b)), b\<lparr>wrapped := w\<rparr>))"
      using assms(1,3) True r by (simp add: buf_getEventsForUpload_def Let_def cong: if_cong option.case_cong)
    show thesis
    proof (cases ?rm)
      case None
      then show thesis using l wrap [OF r] by simp
    next
      case (Some rm)
      then show thesis using l merged [OF r, of rm] by (simp split: if_splits)
    qed
  qed
qed

context event_batch
begin

lemma buffered_upload_from:
  fixes b :: "('s, 'j) buffered_batch"
  assumes "inv (wrapped b)"
    and "buf_getEventsForUpload J has get b n m = (l, b1)" and "bl_getData l = Inr d" and "bl_parts l = (k1, k2)"
    and "length (items (mem b)) + length es \<le> limit (mem b)"
  shows "d = concat (take k1 (pend (wrapped b))) @ concat (take k2 (mem_lines J (mem b))) \<and>
    k1 + k2 \<le> n \<and> length d \<le> m \<and>
    (\<exists>b2. buf_onEventsUploaded uploaded (adds_with (buf_addEvent add') b1 es) l = Inr b2 \<and>
       inv (wrapped b2) \<and> pend (wrapped b2) = drop k1 (pend (wrapped b)) \<and> items (mem b2) = drop k2 (items (mem b)) @ es)"
proof -
  obtain ret w where w: "get (wrapped b) n m = (ret, w)" by fastforce
  have sw: "snd (get (wrapped b) n m) = w" "fst (get (wrapped b) n m) = ret" using w by simp_all
  have keep: "inv w" "pend w = pend (wrapped b)" using get_law [OF assms(1), of n m] unfolding sw by blast+
  have up: "inv (uploaded w r) \<and> pend (uploaded w r) = drop (el_events r) (pend (wrapped b))" if "ret = Some r" for r
    using uploaded_law [OF assms(1), of n m r "[]" w] that unfolding sw keep(2) [symmetric] by simp
  have lst: "el_data r = concat (take (el_events r) (pend (wrapped b))) \<and> el_events r \<le> n \<and> length (el_data r) \<le> m" if "ret = Some r" for r
    using list_law [OF assms(1), of n m r] that unfolding sw by blast
  have fit: "adds_with (buf_addEvent add') b1 es = b1\<lparr>mem := (mem b1)\<lparr>items := items (mem b1) @ es\<rparr>\<rparr>"
    if "mem b1 = mem b" using adds_fit [of b1 es add'] assms(5) that by simp
  have mem_part: "el_data rm = concat (take (el_events rm) (mem_lines J (mem b))) \<and> el_events rm \<le> length (items (mem b)) \<and>
      el_events rm \<le> n' \<and> length (el_data rm) \<le> m'" if "mem_getEventsForUpload J (mem b) n' m' = Some rm" for n' m' rm
    using mem_get_spec [OF that] by blast
  have erase: "mem_erase ((mem b)\<lparr>items := items (mem b) @ es\<rparr>) rm =
      Inr ((mem b)\<lparr>items := drop (el_events rm) (items (mem b)) @ es\<rparr>)" if "el_events rm \<le> length (items (mem b))" for rm
    using that by (simp add: mem_erase_def mem_onEventsUploaded_def)
  from assms(2,3) w show ?thesis
  proof (cases rule: buf_get_cases)
    case (wrap r mo)
    then have "k1 = el_events r" "k2 = 0" "d = el_data r" "mem b1 = mem b" using assms(3,4) by simp_all
    with lst [OF wrap(1)] up [OF wrap(1)] fit wrap(2,3) show ?thesis by auto
  next
    case (merged r rm)
    have "mem b1 = mem b" using merged(3) by simp
    note facts = lst [OF merged(1)] up [OF merged(1)] fit [OF this] mem_part [OF merged(4)]
    have "k1 = el_events r" "k2 = el_events rm" "d = el_data r @ el_data rm" using merged(2) assms(3,4) by simp_all
    with facts erase [of rm] merged(2,3) show ?thesis by auto
  next
    case (memory rm)
    have "mem b1 = mem b" "inv (wrapped b1)" "pend (wrapped b1) = pend (wrapped b)" using memory(3) keep assms(1) by auto
    moreover have "k1 = 0" "k2 = el_events rm" "d = el_data rm" using memory(1) assms(3,4) by simp_all
    ultimately show ?thesis using fit memory(1) mem_part [OF memory(2)] erase [of rm] by auto
  qed
qed

end

section \<open>Properties\<close>

text \<open>
  C16 (buffered_upload). The buffered batch over a batch in a file: an upload list has the first events of the file followed by the
  first events of the memory, within both limits, and acknowledging it removes exactly these events, also
  when events were added since, as long as the buffer did not fill up.
\<close>

theorem buffered_upload:
  fixes b :: "(_, 'j) buffered_batch"
  assumes "file_inv (wrapped b)"
    and "buf_getEventsForUpload J file_hasEvents file_getEventsForUpload b n m = (l, b1)"
    and "bl_getData l = Inr d" and "bl_parts l = (k1, k2)"
    and "length (items (mem b)) + length es \<le> limit (mem b)"
  shows "d = concat (take k1 (file_lines (wrapped b))) @ concat (take k2 (mem_lines J (mem b))) \<and>
    k1 + k2 \<le> n \<and> length d \<le> m \<and>
    (\<exists>b2. buf_onEventsUploaded file_uploaded (adds_with (buf_addEvent (file_addEvent J [])) b1 es) l = Inr b2 \<and>
       file_inv (wrapped b2) \<and> file_lines (wrapped b2) = drop k1 (file_lines (wrapped b)) \<and>
       items (mem b2) = drop k2 (items (mem b)) @ es)"
  using assms by (rule file_batch.buffered_upload_from)

text \<open>A batch with one event in the file and one in memory.\<close>

abbreviation buffered_json :: "jv json_lib" where "buffered_json \<equiv> sample_lib [JInt 1, JInt 2]"

lemma buffered_dump: "jl_dump buffered_json (JInt 1) = [65]" "jl_dump buffered_json (JInt 2) = [66]"
  by (simp_all add: sample_lib_def sample_code_def)

definition file_sample :: file_state where
  "file_sample = ([''f'' \<mapsto> [65, 13, 10]],
     \<lparr>fb_path = ''f'', fb_fd = True, fb_pos = 3, fileSize = 3, eventCount = 1, streamAtEnd = True,
      finalized = False, fb_maxCount = 0, fb_maxSize = 0\<rparr>)"

definition buffered_sample :: "nat \<Rightarrow> (file_state, jv) buffered_batch" where
  "buffered_sample k = \<lparr>wrapped = file_sample, mem = \<lparr>items = [JInt 2], limit = k\<rparr>\<rparr>"

lemma file_sample_facts: "file_inv file_sample" "file_lines file_sample = [[65, 13, 10]]"
  by (simp_all add: file_sample_def file_inv_def file_lines_def content_def complete_def)

lemma buffered_sample_get:
  "\<exists>b1. buf_getEventsForUpload buffered_json file_hasEvents file_getEventsForUpload (buffered_sample k) 5 100 =
     (MergedBufferedEventList \<lparr>el_data = [65, 13, 10], el_events = 1, el_more = False\<rparr>
        \<lparr>el_data = [66, 13, 10], el_events = 1, el_more = False\<rparr>, b1)"
  by (simp add: buf_getEventsForUpload_def buffered_sample_def file_sample_def file_hasEvents_def file_getEventsForUpload_def
      content_def mem_getEventsForUpload_def mem_hasEvents_def buffered_dump Let_def)

theorem buffered_upload_witness:
  "\<exists>l b1 b2. buf_getEventsForUpload buffered_json file_hasEvents file_getEventsForUpload (buffered_sample 2) 5 100 = (l, b1) \<and>
     bl_getData l = Inr [65, 13, 10, 66, 13, 10] \<and>
     buf_onEventsUploaded file_uploaded (adds_with (buf_addEvent (file_addEvent buffered_json [])) b1 [JInt 1]) l = Inr b2 \<and>
     file_lines (wrapped b2) = [] \<and> items (mem b2) = [JInt 1]"
proof -
  let ?l = "MergedBufferedEventList \<lparr>el_data = [65, 13, 10], el_events = 1, el_more = False\<rparr>
    \<lparr>el_data = [66, 13, 10], el_events = 1, el_more = False\<rparr>"
  obtain b1 where get: "buf_getEventsForUpload buffered_json file_hasEvents file_getEventsForUpload (buffered_sample 2) 5 100 = (?l, b1)"
    using buffered_sample_get by blast
  have inv: "file_inv (wrapped (buffered_sample 2))" by (simp add: buffered_sample_def file_sample_facts)
  have d: "bl_getData ?l = Inr [65, 13, 10, 66, 13, 10]" "bl_parts ?l = (1, 1)" by simp_all
  have fits: "length (items (mem (buffered_sample 2))) + length [JInt 1] \<le> limit (mem (buffered_sample 2))"
    by (simp add: buffered_sample_def)
  from buffered_upload [OF inv get d fits] obtain b2 where
    "buf_onEventsUploaded file_uploaded (adds_with (buf_addEvent (file_addEvent buffered_json [])) b1 [JInt 1]) ?l = Inr b2"
    "file_lines (wrapped b2) = drop 1 (file_lines (wrapped (buffered_sample 2)))"
    "items (mem b2) = drop 1 (items (mem (buffered_sample 2))) @ [JInt 1]" by blast
  then show ?thesis using get d(1) by (auto simp: buffered_sample_def file_sample_facts)
qed

lemma buf_get_mem: "buf_getEventsForUpload J w_has w_get b n m = (l, b1) \<Longrightarrow> mem b1 = mem b"
  by (auto simp: buf_getEventsForUpload_def Let_def split: if_splits option.splits prod.splits)

lemma memory_part_cases:
  assumes "bl_parts l = (k1, k2)" "0 < k2"
  obtains mo rm where "l = WrapperBufferedEventList Memory (Some rm) mo" "el_events rm = k2"
    | r rm where "l = MergedBufferedEventList r rm" "el_events rm = k2"
  using assms by (cases l rule: bl_parts.cases) auto

text \<open>
  C38 (buffered_flush_race). Uploads and a full buffer: when a list with events of the memory has been taken and an event is added that
  makes the buffer flush before the list is acknowledged, the addition reports success, but acknowledging erases from
  the memory, which now has the new event only. With one event of the memory in the list the new event is
  lost; with more than one the code erases past the end of the vector, which is undefined.
\<close>

theorem buffered_flush_race:
  assumes "buf_getEventsForUpload J file_hasEvents file_getEventsForUpload b n m = (l, b1)"
    and "bl_parts l = (k1, k2)" and "0 < k2"
    and "length (items (mem b)) = limit (mem b)" and "0 < limit (mem b)"
    and "buf_addEvent (file_addEvent J []) b1 e = (accepted, b2)"
  shows "accepted \<and>
    (if k2 = 1 then \<exists>b3. buf_onEventsUploaded file_uploaded b2 l = Inr b3 \<and> items (mem b3) = []
     else buf_onEventsUploaded file_uploaded b2 l = Inl Undefined)"
proof -
  have mem: "mem b1 = mem b" using buf_get_mem [OF assms(1)] .
  have add: "accepted" "items (mem b2) = [e]"
    using add_full [of b1 "file_addEvent J []" e] mem assms(4-6) by auto
  from assms(2,3) show ?thesis
    by (cases rule: memory_part_cases) (use add assms(3) in \<open>auto simp: mem_erase_def mem_onEventsUploaded_def\<close>)
qed

theorem buffered_flush_race_witness:
  "\<exists>l b1 b2 b3. buf_getEventsForUpload buffered_json file_hasEvents file_getEventsForUpload (buffered_sample 1) 5 100 = (l, b1) \<and>
     buf_addEvent (file_addEvent buffered_json []) b1 (JInt 1) = (True, b2) \<and>
     buf_onEventsUploaded file_uploaded b2 l = Inr b3 \<and> items (mem b3) = []"
proof -
  let ?l = "MergedBufferedEventList \<lparr>el_data = [65, 13, 10], el_events = 1, el_more = False\<rparr>
    \<lparr>el_data = [66, 13, 10], el_events = 1, el_more = False\<rparr>"
  obtain b1 where get: "buf_getEventsForUpload buffered_json file_hasEvents file_getEventsForUpload (buffered_sample 1) 5 100 = (?l, b1)"
    using buffered_sample_get by blast
  obtain acc b2 where add: "buf_addEvent (file_addEvent buffered_json []) b1 (JInt 1) = (acc, b2)" by fastforce
  have full: "length (items (mem (buffered_sample 1))) = limit (mem (buffered_sample 1))" "0 < limit (mem (buffered_sample 1))"
    by (simp_all add: buffered_sample_def)
  have parts: "bl_parts ?l = (1, 1)" by simp
  from buffered_flush_race [OF get parts _ full add] show ?thesis using get add by auto
qed

end
