(* ===== verification/Ld_Utils.thy ===== *)
theory Ld_Utils
  imports Prelude Cxx_Text
begin

text \<open>
  String and path helpers of the dynamic linker (\<^verbatim>\<open>mcpelauncher-linker/bionic/linker/linker_utils.cpp\<close> and
  \<^verbatim>\<open>core/base/strings.cpp\<close>). A C string is the list of its characters before the terminator; a read of the
  terminator is the case of the empty rest. File offsets (\<^verbatim>\<open>off64_t\<close>) and sizes are 64-bit words.

  The main result is that \<open>normalize_path\<close>, which edits a character buffer in place, computes the
  path-component specification \<open>norm_comps\<close> and never writes behind its buffer.
\<close>

section \<open>Strings\<close>

text \<open>\<^verbatim>\<open>Split\<close>, as its caller uses it: with at least one delimiter (it aborts otherwise).\<close>

fun Split :: "string \<Rightarrow> string \<Rightarrow> string list" where
  "Split [] delims = [[]]"
| "Split (c # cs) delims =
     (if c \<in> set delims then [] # Split cs delims
      else case Split cs delims of [] \<Rightarrow> [[c]] | w # ws \<Rightarrow> (c # w) # ws)"

definition Trim :: "string \<Rightarrow> string" where
  "Trim s = rev (dropWhile is_space (rev (dropWhile is_space s)))"

definition StartsWith :: "string \<Rightarrow> string \<Rightarrow> bool" where
  "StartsWith s pre \<longleftrightarrow> take (length pre) s = pre"

definition EndsWith :: "string \<Rightarrow> string \<Rightarrow> bool" where
  "EndsWith s suf \<longleftrightarrow> length s \<ge> length suf \<and> drop (length s - length suf) s = suf"

definition split_path :: "string option \<Rightarrow> string \<Rightarrow> string list \<Rightarrow> string list" where
  "split_path path delims old = (case path of
     None \<Rightarrow> old
   | Some p \<Rightarrow> if p = [] then old else Split p delims)"

section \<open>Substitution of parameters\<close>

text \<open>The first parameter whose token follows the dollar sign, plain or in braces: what it is replaced by and what follows.\<close>

fun match_param :: "(string \<times> string) list \<Rightarrow> string \<Rightarrow> (string \<times> string) option" where
  "match_param [] after = None"
| "match_param (p # ps) after =
     (if take (length (fst p)) after = fst p then Some (snd p, drop (length (fst p)) after)
      else if take (length (fst p) + 2) after = ''{'' @ fst p @ ''}''
      then Some (snd p, drop (length (fst p) + 2) after)
      else match_param ps after)"

lemma match_param_shorter: "match_param ps after = Some (r, rest) \<Longrightarrow> length rest \<le> length after"
  by (induction ps) (auto split: if_splits)

function format_string :: "(string \<times> string) list \<Rightarrow> string \<Rightarrow> string" where
  "format_string ps [] = []"
| "format_string ps (c # cs) =
     (if c = CHR ''$'' then
        (case match_param ps cs of
           Some (replacement, rest) \<Rightarrow> replacement @ format_string ps rest
         | None \<Rightarrow> c # format_string ps cs)
      else c # format_string ps cs)"
  by pat_completeness auto
termination by (relation "measure (\<lambda>(ps, s). length s)") (auto dest: match_param_shorter)

section \<open>Paths\<close>

definition dirname :: "string \<Rightarrow> string" where
  "dirname path =
     (if CHR ''/'' \<notin> set path then ''.''
      else let d = rev (tl (dropWhile (\<lambda>c. c \<noteq> CHR ''/'') (rev path))) in if d = [] then ''/'' else d)"

text \<open>
  The output buffer of \<^verbatim>\<open>normalize_path\<close> is kept reversed. \<open>pop_component\<close> is its inner loop, which moves the write
  pointer back to the last slash, or to the start.
\<close>

definition pop_component :: "string \<Rightarrow> string" where
  "pop_component out = tl (dropWhile (\<lambda>c. c \<noteq> CHR ''/'') out)"

fun normalize_loop :: "string \<Rightarrow> string \<Rightarrow> string" where
  "normalize_loop [] out = rev out"
| "normalize_loop (c # cs) out =
     (if c = CHR ''/'' then
        if take 2 cs = ''./'' then normalize_loop (drop 1 cs) out
        else if cs = ''..'' then normalize_loop [] (CHR ''/'' # pop_component out)
        else if take 3 cs = ''../'' then normalize_loop (drop 2 cs) (pop_component out)
        else if take 1 cs = ''/'' then normalize_loop cs out
        else normalize_loop cs (c # out)
      else normalize_loop cs (c # out))"

definition normalize_path :: "string \<Rightarrow> string option" where
  "normalize_path path =
     (if path = [] \<or> hd path \<noteq> CHR ''/'' then None else Some (normalize_loop path []))"

definition file_is_in_dir :: "string \<Rightarrow> string \<Rightarrow> bool" where
  "file_is_in_dir file dir \<longleftrightarrow> take (length dir) file = dir \<and>
     (case drop (length dir) file of [] \<Rightarrow> False | c # rest \<Rightarrow> c = CHR ''/'' \<and> CHR ''/'' \<notin> set rest)"

definition file_is_under_dir :: "string \<Rightarrow> string \<Rightarrow> bool" where
  "file_is_under_dir file dir \<longleftrightarrow> take (length dir) file = dir \<and>
     (case drop (length dir) file of [] \<Rightarrow> False | c # rest \<Rightarrow> c = CHR ''/'')"

text \<open>\<^verbatim>\<open>strstr(path, "!/")\<close>: what is before and after the first separator.\<close>

fun split_zip :: "string \<Rightarrow> (string \<times> string) option" where
  "split_zip (a # b # cs) =
     (if a = CHR ''!'' \<and> b = CHR ''/'' then Some ([], cs)
      else map_option (\<lambda>(z, e). (a # z, e)) (split_zip (b # cs)))"
| "split_zip _ = None"

definition parse_zip_path :: "string \<Rightarrow> (string \<times> string) option" where
  "parse_zip_path input =
     (case normalize_path input of
        None \<Rightarrow> None
      | Some path \<Rightarrow>
          (case split_zip path of
             None \<Rightarrow> None
           | Some r \<Rightarrow> if length path \<ge> 512 then None else Some r))"

text \<open>The file system \<^verbatim>\<open>resolve_path\<close> asks: \<^verbatim>\<open>realpath\<close>, and whether \<^verbatim>\<open>stat\<close> succeeds and finds a directory.\<close>

record path_fs =
  pf_realpath :: "string \<Rightarrow> string option"
  pf_stat_dir :: "string \<Rightarrow> bool option"

definition resolve_path :: "path_fs \<Rightarrow> string \<Rightarrow> string" where
  "resolve_path F path =
     (case pf_realpath F path of
        Some r \<Rightarrow>
          (case pf_stat_dir F r of None \<Rightarrow> '''' | Some d \<Rightarrow> if \<not> d then '''' else r)
      | None \<Rightarrow>
          (case normalize_path path of
             None \<Rightarrow> ''''
           | Some n \<Rightarrow>
               (case parse_zip_path n of
                  Some (z, entry) \<Rightarrow>
                    (case pf_realpath F z of None \<Rightarrow> '''' | Some r \<Rightarrow> r @ ''!/'' @ entry)
                | None \<Rightarrow> if pf_stat_dir F n = Some True then n else '''')))"

definition resolve_paths :: "path_fs \<Rightarrow> string list \<Rightarrow> string list" where
  "resolve_paths F paths = filter (\<lambda>r. r \<noteq> []) (map (resolve_path F) (filter (\<lambda>p. p \<noteq> []) paths))"

section \<open>Offsets\<close>

definition PAGE_SIZE :: u64 where "PAGE_SIZE = 4096"

definition kPageMask :: u64 where "kPageMask = NOT (PAGE_SIZE - 1)"

definition page_start :: "u64 \<Rightarrow> u64" where
  "page_start offset = offset AND kPageMask"

definition page_offset :: "u64 \<Rightarrow> u64" where
  "page_offset offset = offset AND (PAGE_SIZE - 1)"

text \<open>\<^verbatim>\<open>safe_add\<close> aborts on a negative offset; its unsigned comparison decides whether the sum fits.\<close>

definition INT64_MAX :: u64 where "INT64_MAX = 0x7FFFFFFFFFFFFFFF"

definition safe_add :: "u64 \<Rightarrow> u64 \<Rightarrow> u64 option cxx" where
  "safe_add a b =
     (if sint a < 0 then Inl (RuntimeError ''CHECK failed'')
      else if INT64_MAX - a < b then Inr None
      else Inr (Some (a + b)))"

section \<open>Normalisation by components\<close>

text \<open>
  The specification works on the components between slashes, with a stack of the components kept so far. An empty component
  and a dot are skipped, two dots drop the last component, and what follows the last slash is kept, two dots
  excepted.
\<close>

definition join :: "string list \<Rightarrow> string" where
  "join st = concat (map ((#) (CHR ''/'')) (rev st))"

fun norm_comps :: "string list \<Rightarrow> string list \<Rightarrow> string" where
  "norm_comps [] st = join st"
| "norm_comps [c] st = (if c = ''..'' then join (tl st) @ ''/'' else join st @ ''/'' @ c)"
| "norm_comps (c # d # cs) st =
     norm_comps (d # cs)
       (if c = '''' \<or> c = ''.'' then st else if c = ''..'' then tl st else c # st)"

abbreviation slash_free :: "string list \<Rightarrow> bool" where
  "slash_free cs \<equiv> (\<forall>c \<in> set cs. CHR ''/'' \<notin> set c)"

lemma join_simps [simp]: "join [] = []" "join (c # st) = join st @ CHR ''/'' # c"
  by (simp_all add: join_def)

lemma normalize_char: "c \<noteq> CHR ''/'' \<Longrightarrow> normalize_loop (c # cs) out = normalize_loop cs (c # out)"
  by simp

lemma normalize_copy:
  "CHR ''/'' \<notin> set w \<Longrightarrow> normalize_loop (w @ r) out = normalize_loop r (rev w @ out)"
proof (induction w arbitrary: out)
  case (Cons c w)
  then have "c \<noteq> CHR ''/''" by auto
  with Cons show ?case by (simp only: append_Cons normalize_char) simp
qed simp

lemma pop_join: "slash_free st \<Longrightarrow> pop_component (rev (join st)) = rev (join (tl st))"
proof (cases st)
  case (Cons c st')
  assume "slash_free st"
  then have "\<forall>x \<in> set (rev c). x \<noteq> CHR ''/''" using Cons by auto
  then show ?thesis
    using Cons by (simp add: pop_component_def dropWhile_append_stop [where P = "\<lambda>c. c \<noteq> CHR ''/''"])
qed (simp add: pop_component_def)

text \<open>A slash in front of a component that is neither empty nor made of dots is copied with the component.\<close>

lemma normalize_plain:
  assumes "CHR ''/'' \<notin> set c" and "c \<noteq> ''.''" and "c \<noteq> ''..''" and "c \<noteq> []"
    and "r = [] \<or> hd r = CHR ''/''"
  shows "normalize_loop (CHR ''/'' # c @ r) out = normalize_loop r (rev c @ CHR ''/'' # out)"
proof -
  have "take 2 (c @ r) \<noteq> ''./''" "c @ r \<noteq> ''..''" "take 3 (c @ r) \<noteq> ''../''" "take 1 (c @ r) \<noteq> ''/''"
    using assms by (cases c; cases "tl c"; cases "tl (tl c)"; cases r;
        auto simp: numeral_2_eq_2 numeral_3_eq_3)+
  then have "normalize_loop (CHR ''/'' # c @ r) out = normalize_loop (c @ r) (CHR ''/'' # out)"
    by simp
  then show ?thesis by (simp add: normalize_copy assms(1))
qed

lemma normalize_comps:
  "comps \<noteq> [] \<Longrightarrow> slash_free comps \<Longrightarrow> slash_free st \<Longrightarrow>
   normalize_loop (concat (map ((#) (CHR ''/'')) comps)) (rev (join st)) = norm_comps comps st"
proof (induction comps st rule: norm_comps.induct)
  case (2 c st)
  show ?case
  proof (cases "c = [] \<or> c = ''.'' \<or> c = ''..''")
    case True
    with 2 show ?thesis by (auto simp: pop_join)
  next
    case False
    then show ?thesis using normalize_plain [of c "[]" "rev (join st)"] 2 by simp
  qed
next
  case (3 c d cs st)
  let ?r = "concat (map ((#) (CHR ''/'')) (d # cs))"
  consider "c = []" | "c = ''.''" | "c = ''..''" | "c \<notin> {[], ''.'', ''..''}" by auto
  then show ?case
  proof cases
    case c: 3
    have "slash_free (tl st)" using "3.prems"(3) by (cases st) simp_all
    with c "3.IH" "3.prems" show ?thesis by (simp add: pop_join)
  next
    case c: 4
    then have "normalize_loop (CHR ''/'' # c @ ?r) (rev (join st)) = normalize_loop ?r (rev (join (c # st)))"
      using "3.prems" by (subst normalize_plain) auto
    with c "3.IH" "3.prems" show ?thesis by simp
  qed (use 3 in \<open>simp_all add: pop_join\<close>)
qed simp

lemma Split_nonempty [simp]: "Split s d \<noteq> []"
  by (cases s) (auto split: list.splits)

lemma Split_slash:
  "concat (map ((#) (CHR ''/'')) (Split s ''/'')) = CHR ''/'' # s \<and> slash_free (Split s ''/'')"
  by (induction s) (auto split: list.splits)

lemma Split_join:
  "comps \<noteq> [] \<Longrightarrow> slash_free comps \<Longrightarrow> Split (tl (concat (map ((#) (CHR ''/'')) comps))) ''/'' = comps"
proof (induction comps)
  case (Cons c comps)
  have word: "CHR ''/'' \<notin> set w \<Longrightarrow> Split (w @ r) ''/'' =
      (case Split r ''/'' of [] \<Rightarrow> [w] | x # xs \<Rightarrow> (w @ x) # xs)" for w r
    by (induction w) (auto split: list.splits)
  show ?case
  proof (cases comps)
    case Nil
    then show ?thesis using word [of c "[]"] Cons.prems by simp
  next
    case (Cons d ds)
    then have "Split (tl (concat (map ((#) (CHR ''/'')) comps))) ''/'' = comps"
      using Cons.IH Cons.prems by simp
    then show ?thesis using word [of c "concat (map ((#) (CHR ''/'')) comps)"] Cons.prems Cons by simp
  qed
qed simp

lemma normalize_path_eq:
  "normalize_path p = (if p \<noteq> [] \<and> hd p = CHR ''/'' then Some (norm_comps (Split (tl p) ''/'') []) else None)"
proof (cases "p \<noteq> [] \<and> hd p = CHR ''/''")
  case True
  then have p: "concat (map ((#) (CHR ''/'')) (Split (tl p) ''/'')) = p"
    using Split_slash [of "tl p"] by (cases p) simp_all
  have "normalize_loop p (rev (join [])) = norm_comps (Split (tl p) ''/'') []"
    using normalize_comps [of "Split (tl p) ''/''" "[]"] Split_slash [of "tl p"]
    unfolding p by (simp del: normalize_loop.simps)
  with True show ?thesis by (simp add: normalize_path_def)
qed (auto simp: normalize_path_def)

text \<open>A normal form: plain components, and after the last slash anything but two dots.\<close>

definition plain :: "string \<Rightarrow> bool" where
  "plain c \<longleftrightarrow> c \<notin> {[], ''.'', ''..''} \<and> CHR ''/'' \<notin> set c"

definition normal_form :: "string \<Rightarrow> bool" where
  "normal_form s \<longleftrightarrow> (\<exists>st c. s = join st @ CHR ''/'' # c \<and> list_all plain st \<and> CHR ''/'' \<notin> set c \<and> c \<noteq> ''..'')"

lemma norm_comps_normal:
  "comps \<noteq> [] \<Longrightarrow> slash_free comps \<Longrightarrow> list_all plain st \<Longrightarrow> normal_form (norm_comps comps st)"
proof (induction comps st rule: norm_comps.induct)
  case (2 c st)
  have "list_all plain (tl st)" using 2(3) by (cases st) simp_all
  then have "normal_form (join (tl st) @ ''/'')"
    unfolding normal_form_def by (intro exI [of _ "tl st"] exI [of _ "[]"]) simp
  moreover have "c \<noteq> ''..'' \<Longrightarrow> normal_form (join st @ ''/'' @ c)"
    using 2 unfolding normal_form_def by (intro exI [of _ st] exI [of _ c]) simp
  ultimately show ?case by simp
next
  case (3 c d cs st)
  have "list_all plain (tl st)" using 3(4) by (cases st) simp_all
  then have "list_all plain (if c = [] \<or> c = ''.'' then st else if c = ''..'' then tl st else c # st)"
    using 3(3,4) by (simp add: plain_def [of c])
  then have "normal_form (norm_comps (d # cs)
      (if c = [] \<or> c = ''.'' then st else if c = ''..'' then tl st else c # st))"
    using 3(3) by (intro 3(1)) simp_all
  then show ?case by (simp only: norm_comps.simps)
qed simp

lemma norm_comps_plain:
  "list_all plain cs \<Longrightarrow> c \<noteq> ''..'' \<Longrightarrow> norm_comps (cs @ [c]) st = join (rev cs @ st) @ CHR ''/'' # c"
proof (induction cs arbitrary: st)
  case (Cons a cs)
  obtain d ds where d: "cs @ [c] = d # ds" by (cases "cs @ [c]") auto
  have "norm_comps (a # cs @ [c]) st = norm_comps (cs @ [c]) (a # st)"
    using Cons.prems(1) unfolding d norm_comps.simps by (simp add: plain_def)
  with Cons show ?case by simp
qed simp

lemma normal_form_fixed:
  assumes "normal_form s"
  shows "normalize_path s = Some s"
proof -
  obtain st c where s: "s = join st @ CHR ''/'' # c" "list_all plain st" "CHR ''/'' \<notin> set c" "c \<noteq> ''..''"
    using assms by (auto simp: normal_form_def)
  have eq: "s = concat (map ((#) (CHR ''/'')) (rev st @ [c]))" using s(1) by (simp add: join_def)
  have "slash_free (rev st @ [c])" using s(2,3) by (auto simp: list_all_iff plain_def)
  then have "Split (tl s) ''/'' = rev st @ [c]" unfolding eq by (intro Split_join) simp_all
  moreover have "s \<noteq> [] \<and> hd s = CHR ''/''"
    using eq by (cases "rev st") simp_all
  ultimately show ?thesis
    using s norm_comps_plain [of "rev st" c "[]"] by (simp add: normalize_path_eq)
qed

lemma normalize_shorter: "length (normalize_loop s out) \<le> length s + length out"
proof (induction s out rule: normalize_loop.induct)
  case (2 c cs out)
  have pop: "length (pop_component out) \<le> length out"
    by (simp add: pop_component_def) (meson diff_le_self le_trans length_dropWhile_le)
  show ?case
  proof (cases "c = CHR ''/''")
    case False
    with 2(6) show ?thesis by simp
  next
    case c: True
    consider "take 2 cs = ''./''" | "take 2 cs \<noteq> ''./''" "cs = ''..''"
      | "take 2 cs \<noteq> ''./''" "cs \<noteq> ''..''" "take 3 cs = ''../''"
      | "take 2 cs \<noteq> ''./''" "cs \<noteq> ''..''" "take 3 cs \<noteq> ''../''" by blast
    then show ?thesis
    proof cases
      case 1
      with 2(1) c show ?thesis by simp
    next
      case 2
      with c pop show ?thesis by simp
    next
      case 3
      with 2(3) c pop show ?thesis by simp
    next
      case 4
      with 2(4,5) c show ?thesis by (cases "take 1 cs = ''/''") simp_all
    qed
  qed
qed simp

section \<open>Properties\<close>

text \<open>
  C27 (path_normalized). \<open>normalize_path\<close> rejects what does not start with a slash. On an absolute path the loop over the
  character buffer computes the specification on the components between the slashes (empty components and
  dots vanish, two dots remove the component before them). The result is in normal form, is never longer than the buffer
  allocated for it, and normalising it again changes nothing.
\<close>

theorem path_normalized:
  "normalize_path p = (if p \<noteq> [] \<and> hd p = CHR ''/'' then Some (norm_comps (Split (tl p) ''/'') []) else None) \<and>
   (\<forall>q. normalize_path p = Some q \<longrightarrow> normal_form q \<and> normalize_path q = Some q \<and> length q \<le> length p)"
proof (intro conjI allI impI)
  fix q
  assume q: "normalize_path p = Some q"
  then show "normal_form q"
    using norm_comps_normal [of "Split (tl p) ''/''" "[]"] Split_slash [of "tl p"]
    by (auto simp: normalize_path_eq split: if_splits)
  then show "normalize_path q = Some q" by (rule normal_form_fixed)
  show "length q \<le> length p"
    using q normalize_shorter [of p "[]"] by (auto simp: normalize_path_def split: if_splits)
qed (rule normalize_path_eq)

theorem path_normalized_witness:
  "normalize_path ''/system/./lib//../x/..'' = Some ''/system/'' \<and> normal_form ''/system/'' \<and>
   normalize_path ''/system/'' = Some ''/system/''"
proof -
  have n: "normalize_path ''/system/./lib//../x/..'' = Some ''/system/''"
    by (simp add: normalize_path_def pop_component_def)
  with path_normalized [of "''/system/./lib//../x/..''"] show ?thesis by blast
qed

end
