(* ===== verification/Ld_Alloc.thy ===== *)
theory Ld_Alloc
  imports Prelude Ld_Utils
begin

text \<open>
  The block allocator of the dynamic linker
  (\<^verbatim>\<open>mcpelauncher-linker/bionic/linker/linker_block_allocator.cpp\<close>). It hands out blocks of one size from mapped
  pages and keeps its bookkeeping in the memory it manages: every page starts with a pointer to the next page, and a
  free run of blocks stores in its first block the address of the next run and the number of its blocks.

  Memory is a map from addresses to 8-byte cells; a field of a structure is the cell at its offset. The addresses that
  \<^verbatim>\<open>mmap\<close> will return are a list of the world (an exhausted list is a failing \<^verbatim>\<open>mmap\<close>), what is unmapped is
  recorded. \<^verbatim>\<open>abort\<close> is an error value. The invariant \<open>blk_inv\<close> says that the free runs and the blocks handed out
  partition the blocks of the pages; \<open>alloc_ok\<close> and \<open>free_ok\<close> show that the operations keep it and leave the contents
  of all other blocks alone.
\<close>

section \<open>State\<close>

record blk_world =
  cells :: "nat \<Rightarrow> nat"
  mmaps :: "nat list"
  munmaps :: "nat list"

record LinkerBlockAllocator =
  block_size :: nat
  page_list :: nat
  free_block_list :: nat
  allocated :: u64

type_synonym blk_state = "LinkerBlockAllocator \<times> blk_world"

definition kAllocateSize :: nat where "kAllocateSize = unat PAGE_SIZE * 100"

definition abort_error :: cxx_error where "abort_error = RuntimeError ''abort''"

definition round_up :: "u64 \<Rightarrow> u64 \<Rightarrow> u64" where
  "round_up n multiplier = (n + (multiplier - 1)) AND NOT (multiplier - 1)"

text \<open>The size of \<^verbatim>\<open>FreeBlockInfo\<close> is 16: a pointer and a count.\<close>

definition new_allocator :: "u64 \<Rightarrow> LinkerBlockAllocator" where
  "new_allocator n =
     \<lparr>block_size = unat (round_up (if n < 16 then 16 else n) 16),
      page_list = 0, free_block_list = 0, allocated = 0\<rparr>"

definition set_cells :: "(nat \<Rightarrow> nat) \<Rightarrow> blk_world \<Rightarrow> blk_world" where
  "set_cells m w = w\<lparr>cells := m\<rparr>"

definition memset0 :: "nat \<Rightarrow> nat \<Rightarrow> (nat \<Rightarrow> nat) \<Rightarrow> nat \<Rightarrow> nat" where
  "memset0 a n m = (\<lambda>x. if a \<le> x \<and> x < a + n then 0 else m x)"

section \<open>Operations\<close>

definition create_new_page :: "blk_state \<Rightarrow> blk_state cxx" where
  "create_new_page s =
     (case mmaps (snd s) of
        [] \<Rightarrow> Inl abort_error
      | page # rest \<Rightarrow>
          let m = cells (snd s);
              m1 = m(page + 16 := free_block_list (fst s),
                     page + 16 + 8 := (kAllocateSize - 16) div block_size (fst s),
                     page := page_list (fst s))
          in Inr ((fst s)\<lparr>free_block_list := page + 16, page_list := page\<rparr>,
                  (snd s)\<lparr>cells := m1, mmaps := rest\<rparr>))"

definition take_block :: "blk_state \<Rightarrow> nat \<times> blk_state" where
  "take_block s =
     (let bs = block_size (fst s); m = cells (snd s); b = free_block_list (fst s);
          (fl, m1) = (if m (b + 8) > 1
                      then (b + bs, m(b + bs := m b, b + bs + 8 := m (b + 8) - 1))
                      else (m b, m))
      in (b, (fst s)\<lparr>free_block_list := fl, allocated := allocated (fst s) + 1\<rparr>,
             set_cells (memset0 b bs m1) (snd s)))"

definition blk_alloc :: "blk_state \<Rightarrow> (nat \<times> blk_state) cxx" where
  "blk_alloc s =
     cxx_bind (if free_block_list (fst s) = 0 then create_new_page s else Inr s)
       (\<lambda>s1. Inr (take_block s1))"

text \<open>\<^verbatim>\<open>find_page\<close> follows the list of pages; the address it looks for is not null.\<close>

partial_function (option) find_page :: "(nat \<Rightarrow> nat) \<Rightarrow> nat \<Rightarrow> nat \<Rightarrow> nat cxx option" where
  "find_page m page block =
     (if page = 0 then Some (Inl abort_error)
      else if page + 8 \<le> block \<and> block < page + kAllocateSize then Some (Inr page)
      else find_page m (m page) block)"

definition put_block :: "nat \<Rightarrow> blk_state \<Rightarrow> blk_state" where
  "put_block block s =
     (let m = memset0 block (block_size (fst s)) (cells (snd s))
      in ((fst s)\<lparr>free_block_list := block, allocated := allocated (fst s) - 1\<rparr>,
          set_cells (m(block := free_block_list (fst s), block + 8 := 1)) (snd s)))"

text \<open>The remainder is computed on unsigned 64-bit values: a negative offset wraps around.\<close>

definition blk_free :: "nat \<Rightarrow> blk_state \<Rightarrow> blk_state cxx option" where
  "blk_free block s =
     (if block = 0 then Some (Inr s)
      else map_option (\<lambda>r. cxx_bind r (\<lambda>page.
             if (int block - int (page + 16)) mod 2 ^ 64 mod int (block_size (fst s)) \<noteq> 0
             then Inl abort_error
             else Inr (put_block block s)))
           (find_page (cells (snd s)) (page_list (fst s)) block))"

text \<open>\<^verbatim>\<open>purge\<close> returns all pages when no block is in use.\<close>

partial_function (option) unmap_pages :: "nat \<Rightarrow> blk_world \<Rightarrow> blk_world option" where
  "unmap_pages page w =
     (if page = 0 then Some w
      else unmap_pages (cells w page) (w\<lparr>munmaps := munmaps w @ [page]\<rparr>))"

definition purge :: "blk_state \<Rightarrow> blk_state option" where
  "purge s =
     (if allocated (fst s) \<noteq> 0 then Some s
      else map_option (\<lambda>w. ((fst s)\<lparr>page_list := 0, free_block_list := 0\<rparr>, w))
             (unmap_pages (page_list (fst s)) (snd s)))"

section \<open>Invariant\<close>

fun runs_ok :: "(nat \<Rightarrow> nat) \<Rightarrow> nat \<Rightarrow> (nat \<times> nat) list \<Rightarrow> bool" where
  "runs_ok m p [] \<longleftrightarrow> p = 0"
| "runs_ok m p ((a, n) # rs) \<longleftrightarrow> p = a \<and> 0 < a \<and> 0 < n \<and> m (a + 8) = n \<and> runs_ok m (m a) rs"

fun pages_ok :: "(nat \<Rightarrow> nat) \<Rightarrow> nat \<Rightarrow> nat list \<Rightarrow> bool" where
  "pages_ok m p [] \<longleftrightarrow> p = 0"
| "pages_ok m p (a # ps) \<longleftrightarrow> p = a \<and> 0 < a \<and> pages_ok m (m a) ps"

definition run_blocks :: "nat \<Rightarrow> nat \<Rightarrow> nat \<Rightarrow> nat list" where
  "run_blocks bs a n = map (\<lambda>i. a + i * bs) [0..<n]"

definition free_blocks :: "nat \<Rightarrow> (nat \<times> nat) list \<Rightarrow> nat list" where
  "free_blocks bs rs = concat (map (\<lambda>(a, n). run_blocks bs a n) rs)"

definition page_blocks :: "nat \<Rightarrow> nat \<Rightarrow> nat list" where
  "page_blocks bs p = run_blocks bs (p + 16) ((kAllocateSize - 16) div bs)"

definition all_blocks :: "nat \<Rightarrow> nat list \<Rightarrow> nat set" where
  "all_blocks bs ps = (\<Union>p \<in> set ps. set (page_blocks bs p))"

definition apart :: "nat list \<Rightarrow> bool" where
  "apart ps \<longleftrightarrow> distinct ps \<and>
     (\<forall>p \<in> set ps. \<forall>q \<in> set ps. p \<noteq> q \<longrightarrow> p + kAllocateSize \<le> q \<or> q + kAllocateSize \<le> p)"

definition blk_rel :: "blk_state \<Rightarrow> (nat \<times> nat) list \<Rightarrow> nat list \<Rightarrow> nat set \<Rightarrow> bool" where
  "blk_rel s rs ps L \<longleftrightarrow>
     16 \<le> block_size (fst s) \<and> block_size (fst s) \<le> kAllocateSize - 16 \<and>
     runs_ok (cells (snd s)) (free_block_list (fst s)) rs \<and>
     pages_ok (cells (snd s)) (page_list (fst s)) ps \<and>
     apart (ps @ mmaps (snd s)) \<and> 0 \<notin> set (mmaps (snd s)) \<and>
     distinct (free_blocks (block_size (fst s)) rs) \<and>
     set (free_blocks (block_size (fst s)) rs) \<inter> L = {} \<and>
     set (free_blocks (block_size (fst s)) rs) \<union> L = all_blocks (block_size (fst s)) ps \<and>
     allocated (fst s) = of_nat (card L)"

definition blk_inv :: "blk_state \<Rightarrow> nat set \<Rightarrow> bool" where
  "blk_inv s L \<longleftrightarrow> (\<exists>rs ps. blk_rel s rs ps L)"

section \<open>Blocks do not overlap\<close>

lemma run_blocks_Suc: "run_blocks bs a (Suc n) = a # run_blocks bs (a + bs) n"
  by (rule nth_equalityI) (auto simp: run_blocks_def nth_Cons split: nat.splits simp del: upt_Suc)

lemma set_run_blocks: "set (run_blocks bs a n) = {a + i * bs | i. i < n}"
  by (auto simp: run_blocks_def)

lemma page_block_range:
  assumes "b \<in> set (page_blocks bs p)" and "0 < bs"
  shows "p + 16 \<le> b \<and> b + bs \<le> p + kAllocateSize"
proof -
  obtain i where i: "b = p + 16 + i * bs" "i < (kAllocateSize - 16) div bs"
    using assms(1) by (auto simp: page_blocks_def set_run_blocks)
  then have "Suc i * bs \<le> kAllocateSize - 16"
    using assms(2) by (metis Suc_leI div_times_less_eq_dividend le_trans mult_le_mono1)
  moreover have "16 \<le> kAllocateSize" by (simp add: kAllocateSize_def PAGE_SIZE_def)
  ultimately show ?thesis using i(1) by simp
qed

lemma run_spaced:
  assumes "b \<in> set (run_blocks bs a n)" and "c \<in> set (run_blocks bs a n)" and "b \<noteq> c"
  shows "b + bs \<le> c \<or> c + bs \<le> b"
proof -
  obtain i j where ij: "b = a + i * bs" "c = a + j * bs" using assms by (auto simp: set_run_blocks)
  consider "i < j" | "j < i" using assms(3) ij by force
  then show ?thesis
  proof cases
    case 1
    then have "Suc i * bs \<le> j * bs" by (intro mult_le_mono1) simp
    then show ?thesis using ij by simp
  next
    case 2
    then have "Suc j * bs \<le> i * bs" by (intro mult_le_mono1) simp
    then show ?thesis using ij by simp
  qed
qed

lemma blocks_spaced:
  assumes "apart ps" and "0 < bs" and "b \<in> all_blocks bs ps" and "c \<in> all_blocks bs ps" and "b \<noteq> c"
  shows "b + bs \<le> c \<or> c + bs \<le> b"
proof -
  obtain p q where pq: "p \<in> set ps" "q \<in> set ps" "b \<in> set (page_blocks bs p)" "c \<in> set (page_blocks bs q)"
    using assms(3,4) by (auto simp: all_blocks_def)
  show ?thesis
  proof (cases "p = q")
    case True
    then show ?thesis using pq assms(5) run_spaced by (simp add: page_blocks_def)
  next
    case False
    then have "p + kAllocateSize \<le> q \<or> q + kAllocateSize \<le> p" using assms(1) pq by (simp add: apart_def)
    then show ?thesis
      using page_block_range [OF pq(3) assms(2)] page_block_range [OF pq(4) assms(2)] by linarith
  qed
qed

lemma header_apart:
  assumes "apart ps" and "0 < bs" and "b \<in> all_blocks bs ps" and "p \<in> set ps"
  shows "p < b \<or> b + bs \<le> p"
proof -
  obtain q where q: "q \<in> set ps" "b \<in> set (page_blocks bs q)" using assms(3) by (auto simp: all_blocks_def)
  have "p = q \<or> p + kAllocateSize \<le> q \<or> q + kAllocateSize \<le> p" using assms(1,4) q(1) by (auto simp: apart_def)
  moreover have "0 < kAllocateSize" by (simp add: kAllocateSize_def PAGE_SIZE_def)
  ultimately show ?thesis using page_block_range [OF q(2) assms(2)] by linarith
qed

lemma apart_append: "apart (ps @ qs) \<Longrightarrow> apart ps"
  by (auto simp: apart_def)

section \<open>Frames\<close>

text \<open>Two memories agree outside of the given blocks.\<close>

definition agree_outside :: "nat \<Rightarrow> nat set \<Rightarrow> (nat \<Rightarrow> nat) \<Rightarrow> (nat \<Rightarrow> nat) \<Rightarrow> bool" where
  "agree_outside bs B m m' \<longleftrightarrow> (\<forall>x. (\<forall>b \<in> B. x < b \<or> b + bs \<le> x) \<longrightarrow> m' x = m x)"

lemma runs_ok_cong:
  "\<forall>r \<in> set rs. m' (fst r) = m (fst r) \<and> m' (fst r + 8) = m (fst r + 8) \<Longrightarrow> runs_ok m' p rs = runs_ok m p rs"
  by (induction rs arbitrary: p) auto

lemma pages_ok_cong: "\<forall>a \<in> set ps. m' a = m a \<Longrightarrow> pages_ok m' p ps = pages_ok m p ps"
  by (induction ps arbitrary: p) simp_all

lemma run_head: "0 < n \<Longrightarrow> a \<in> set (run_blocks bs a n)"
  by (auto simp: set_run_blocks intro!: exI [of _ 0])

lemma runs_ok_head_free:
  "runs_ok m p rs \<Longrightarrow> (a, n) \<in> set rs \<Longrightarrow> a \<in> set (free_blocks bs rs)"
proof (induction rs arbitrary: p)
  case (Cons r rs)
  obtain c k where r: "r = (c, k)" by (cases r) auto
  show ?case
  proof (cases "(a, n) = r")
    case True
    then show ?thesis using Cons.prems r run_head by (auto simp: free_blocks_def)
  next
    case False
    then show ?thesis using Cons r by (auto simp: free_blocks_def)
  qed
qed simp

lemma agree_runs:
  assumes "apart ps" and "16 \<le> bs" and "agree_outside bs B m m'" and "B \<subseteq> all_blocks bs ps"
    and "set (free_blocks bs rs) \<subseteq> all_blocks bs ps - B" and "runs_ok m p rs"
  shows "runs_ok m' p rs"
proof -
  have "m' a = m a \<and> m' (a + 8) = m (a + 8)" if "(a, n) \<in> set rs" for a n
  proof -
    have a: "a \<in> all_blocks bs ps - B" using runs_ok_head_free [OF assms(6) that] assms(5) by blast
    have "a + bs \<le> b \<or> b + bs \<le> a" if "b \<in> B" for b
      using blocks_spaced [OF assms(1), of bs a b] a that assms(2,4) by auto
    then have "\<forall>b \<in> B. a < b \<or> b + bs \<le> a" "\<forall>b \<in> B. a + 8 < b \<or> b + bs \<le> a + 8"
      using assms(2) by (force, force)
    then show ?thesis using assms(3) by (auto simp: agree_outside_def)
  qed
  then have "\<forall>r \<in> set rs. m' (fst r) = m (fst r) \<and> m' (fst r + 8) = m (fst r + 8)"
    by (metis prod.collapse)
  then show ?thesis using assms(6) runs_ok_cong by blast
qed

lemma agree_pages:
  assumes "apart ps" and "16 \<le> bs" and "agree_outside bs B m m'" and "B \<subseteq> all_blocks bs ps" and "pages_ok m p ps"
  shows "pages_ok m' p ps"
proof -
  have "m' a = m a" if "a \<in> set ps" for a
    using header_apart [OF assms(1), of bs _ a] that assms(2,3,4) by (auto simp: agree_outside_def)
  then show ?thesis using assms(5) pages_ok_cong [of ps m' m p] by blast
qed

lemma agree_block:
  assumes "apart ps" and "16 \<le> bs" and "agree_outside bs B m m'" and "B \<subseteq> all_blocks bs ps"
    and "c \<in> all_blocks bs ps - B" and "i < bs"
  shows "m' (c + i) = m (c + i)"
proof -
  have "c + i < b \<or> b + bs \<le> c + i" if "b \<in> B" for b
    using blocks_spaced [OF assms(1), of bs c b] that assms(2,4,5,6) by force
  then show ?thesis using assms(3) by (simp add: agree_outside_def)
qed

section \<open>The operations keep the invariant\<close>

lemma free_blocks_Cons [simp]: "free_blocks bs ((a, n) # rs) = run_blocks bs a n @ free_blocks bs rs"
  by (simp add: free_blocks_def)

lemma set_cells_sel [simp]:
  "cells (set_cells m w) = m" "mmaps (set_cells m w) = mmaps w" "munmaps (set_cells m w) = munmaps w"
  by (simp_all add: set_cells_def)

lemma all_blocks_Cons: "all_blocks bs (p # ps) = set (page_blocks bs p) \<union> all_blocks bs ps"
  by (simp add: all_blocks_def)

lemma fresh_page_apart:
  assumes "apart (ps @ p # rest)" and "0 < bs" and "b \<in> all_blocks bs ps"
  shows "b + bs \<le> p \<or> p + kAllocateSize \<le> b"
proof -
  obtain q where q: "q \<in> set ps" "b \<in> set (page_blocks bs q)" using assms(3) by (auto simp: all_blocks_def)
  then have "q + kAllocateSize \<le> p \<or> p + kAllocateSize \<le> q"
    using assms(1) by (auto simp: apart_def)
  then show ?thesis using page_block_range [OF q(2) assms(2)] by linarith
qed

lemma create_new_page_ok:
  assumes "blk_rel s rs ps L" and "mmaps (snd s) = p # rest"
  shows "\<exists>s' n. create_new_page s = Inr s' \<and> blk_rel s' ((p + 16, n) # rs) (p # ps) L \<and>
    free_block_list (fst s') = p + 16 \<and> block_size (fst s') = block_size (fst s) \<and>
    (\<forall>b \<in> all_blocks (block_size (fst s)) ps. \<forall>i < block_size (fst s). cells (snd s') (b + i) = cells (snd s) (b + i))"
proof -
  let ?bs = "block_size (fst s)" and ?m = "cells (snd s)" and ?n = "(kAllocateSize - 16) div block_size (fst s)"
  let ?m' = "?m(p + 16 := free_block_list (fst s), p + 16 + 8 := ?n, p := page_list (fst s))"
  let ?s' = "((fst s)\<lparr>free_block_list := p + 16, page_list := p\<rparr>, (snd s)\<lparr>cells := ?m', mmaps := rest\<rparr>)"
  have size: "16 \<le> ?bs" "?bs \<le> kAllocateSize - 16" and ap: "apart (ps @ p # rest)" and p0: "0 < p"
    and runs: "runs_ok ?m (free_block_list (fst s)) rs" and pages: "pages_ok ?m (page_list (fst s)) ps"
    and d: "distinct (free_blocks ?bs rs)"
    and disj: "set (free_blocks ?bs rs) \<inter> L = {}" and un: "set (free_blocks ?bs rs) \<union> L = all_blocks ?bs ps"
    using assms by (auto simp: blk_rel_def)
  have n: "0 < ?n" using size by (simp add: div_greater_zero_iff)
  have k: "16 + 16 \<le> kAllocateSize" by (simp add: kAllocateSize_def PAGE_SIZE_def)
  have away: "b + ?bs \<le> p \<or> p + kAllocateSize \<le> b" if "b \<in> all_blocks ?bs ps" for b
    using fresh_page_apart [OF ap _ that] size by linarith
  have same: "?m' (b + i) = ?m (b + i)" if "b \<in> all_blocks ?bs ps" "i < ?bs" for b i
    using away [OF that(1)] that(2) k by auto
  have runs': "runs_ok ?m' (free_block_list (fst s)) rs"
  proof -
    have "?m' a = ?m a \<and> ?m' (a + 8) = ?m (a + 8)" if "(a, j) \<in> set rs" for a j
    proof -
      have "a \<in> all_blocks ?bs ps" using runs_ok_head_free [OF runs that] un by blast
      then show ?thesis using same [of a 0] same [of a 8] size by simp
    qed
    then have "\<forall>r \<in> set rs. ?m' (fst r) = ?m (fst r) \<and> ?m' (fst r + 8) = ?m (fst r + 8)"
      by (metis prod.collapse)
    then show ?thesis using runs runs_ok_cong by blast
  qed
  have pages': "pages_ok ?m' (page_list (fst s)) ps"
  proof -
    have "?m' a = ?m a" if "a \<in> set ps" for a
    proof -
      have "a + kAllocateSize \<le> p \<or> p + kAllocateSize \<le> a" using ap that by (auto simp: apart_def)
      then show ?thesis using k by auto
    qed
    then show ?thesis using pages pages_ok_cong [of ps ?m' ?m "page_list (fst s)"] by blast
  qed
  have fresh: "set (page_blocks ?bs p) \<inter> all_blocks ?bs ps = {}"
    using away page_block_range [of _ ?bs p] size by fastforce
  have dp: "distinct (run_blocks ?bs (p + 16) ?n)"
    using size by (auto simp: run_blocks_def distinct_map inj_on_def)
  have fb: "free_blocks ?bs ((p + 16, ?n) # rs) = page_blocks ?bs p @ free_blocks ?bs rs"
    by (simp add: page_blocks_def)
  have "blk_rel ?s' ((p + 16, ?n) # rs) (p # ps) L"
    unfolding blk_rel_def
  proof (intro conjI)
    show "runs_ok (cells (snd ?s')) (free_block_list (fst ?s')) ((p + 16, ?n) # rs)"
      using runs' n by simp
    show "pages_ok (cells (snd ?s')) (page_list (fst ?s')) (p # ps)" using pages' p0 by simp
    show "apart ((p # ps) @ mmaps (snd ?s'))" using ap by (auto simp: apart_def)
    show "distinct (free_blocks (block_size (fst ?s')) ((p + 16, ?n) # rs))"
      using dp d fresh un by (auto simp: page_blocks_def)
    show "set (free_blocks (block_size (fst ?s')) ((p + 16, ?n) # rs)) \<inter> L = {}"
      using fb fresh un disj by auto
    show "set (free_blocks (block_size (fst ?s')) ((p + 16, ?n) # rs)) \<union> L = all_blocks (block_size (fst ?s')) (p # ps)"
      using fb un by (auto simp: all_blocks_Cons)
  qed (use assms size in \<open>simp_all add: blk_rel_def\<close>)
  then show ?thesis using same assms(2) by (auto simp: create_new_page_def Let_def)
qed

text \<open>What an operation promises for the blocks in use besides the one it works on.\<close>

definition keeps_blocks :: "nat set \<Rightarrow> blk_state \<Rightarrow> blk_state \<Rightarrow> bool" where
  "keeps_blocks L s s' \<longleftrightarrow> block_size (fst s') = block_size (fst s) \<and>
     (\<forall>c \<in> L. \<forall>i < block_size (fst s). cells (snd s') (c + i) = cells (snd s) (c + i))"

lemma blk_rel_finite: "blk_rel s rs ps L \<Longrightarrow> finite L"
  by (rule finite_subset [of _ "all_blocks (block_size (fst s)) ps"]) (auto simp: blk_rel_def all_blocks_def)

lemma agree_keeps:
  assumes "blk_rel s rs ps L" and "agree_outside (block_size (fst s)) B (cells (snd s)) (cells (snd s'))"
    and "block_size (fst s') = block_size (fst s)" and "B \<subseteq> all_blocks (block_size (fst s)) ps" and "L' \<subseteq> L - B"
  shows "keeps_blocks L' s s'"
proof -
  have "apart ps" "16 \<le> block_size (fst s)" using assms(1) apart_append by (auto simp: blk_rel_def)
  moreover have "L' \<subseteq> all_blocks (block_size (fst s)) ps - B" using assms(1,5) by (auto simp: blk_rel_def)
  ultimately show ?thesis
    using agree_block [OF _ _ assms(2,4)] assms(3) unfolding keeps_blocks_def by blast
qed

lemma agree_take:
  assumes "16 \<le> bs"
  shows "agree_outside bs {a, a + bs} m (memset0 a bs (m(a + bs := u, a + bs + 8 := v)))"
    and "agree_outside bs {a} m (memset0 a bs m)"
proof -
  have "memset0 a bs (m(a + bs := u, a + bs + 8 := v)) x = m x"
    if "x < a \<or> a + bs \<le> x" "x < a + bs \<or> a + bs + bs \<le> x" for x
    using that assms by (auto simp: memset0_def)
  then show "agree_outside bs {a, a + bs} m (memset0 a bs (m(a + bs := u, a + bs + 8 := v)))"
    by (simp add: agree_outside_def)
qed (simp add: agree_outside_def memset0_def not_le [symmetric])

lemma take_block_ok:
  assumes rel: "blk_rel s ((a, n) # rs) ps L"
  shows "\<exists>s' rs'. take_block s = (a, s') \<and> blk_rel s' rs' ps (insert a L) \<and> a \<notin> L \<and> 0 < a \<and>
    keeps_blocks L s s' \<and> (\<forall>i < block_size (fst s). cells (snd s') (a + i) = 0)"
proof -
  let ?bs = "block_size (fst s)" and ?m = "cells (snd s)"
  obtain k where k: "n = Suc k" using rel by (cases n) (simp_all add: blk_rel_def)
  let ?B = "if 0 < k then {a, a + ?bs} else {a}"
  let ?m1 = "if 0 < k then ?m(a + ?bs := ?m a, a + ?bs + 8 := k) else ?m"
  let ?rs = "if 0 < k then (a + ?bs, k) # rs else rs"
  let ?s' = "((fst s)\<lparr>free_block_list := (if 0 < k then a + ?bs else ?m a), allocated := allocated (fst s) + 1\<rparr>,
              set_cells (memset0 a ?bs ?m1) (snd s))"
  have bs: "16 \<le> ?bs" and ap: "apart ps" and cells: "free_block_list (fst s) = a" "?m (a + 8) = Suc k" "0 < a"
    and runs: "runs_ok ?m (?m a) rs" and pages: "pages_ok ?m (page_list (fst s)) ps"
    using rel k apart_append by (auto simp: blk_rel_def)
  have fb: "free_blocks ?bs ((a, n) # rs) = a # free_blocks ?bs ?rs"
    by (simp add: k run_blocks_Suc) (simp add: run_blocks_def)
  then have d: "a \<notin> set (free_blocks ?bs ?rs)" "distinct (free_blocks ?bs ?rs)"
    and disj: "a \<notin> L" "set (free_blocks ?bs ?rs) \<inter> L = {}"
    and un: "insert a (set (free_blocks ?bs ?rs)) \<union> L = all_blocks ?bs ps"
    using rel unfolding blk_rel_def by (metis distinct.simps(2), metis distinct.simps(2), auto)
  have next_free: "0 < k \<Longrightarrow> a + ?bs \<in> set (free_blocks ?bs ?rs)" using run_head [of k] by simp
  have agree: "agree_outside ?bs ?B ?m (memset0 a ?bs ?m1)"
    using agree_take [OF bs, of a] by (cases "0 < k") simp_all
  have sub: "a \<in> all_blocks ?bs ps" "set (free_blocks ?bs ?rs) \<subseteq> all_blocks ?bs ps" using un by blast+
  then have B: "?B \<subseteq> all_blocks ?bs ps" using next_free by (cases "0 < k") auto
  have "set (free_blocks ?bs rs) \<subseteq> all_blocks ?bs ps - ?B"
  proof (cases "0 < k")
    case True
    have "a + ?bs \<notin> set (free_blocks ?bs rs)" using d(2) run_head [OF True, of "a + ?bs"] True by auto
    then show ?thesis using sub d(1) True by auto
  qed (use sub d(1) in auto)
  then have runs': "runs_ok (memset0 a ?bs ?m1) (?m a) rs" using agree_runs [OF ap bs agree B _ runs] by blast
  have "blk_rel ?s' ?rs ps (insert a L)"
    unfolding blk_rel_def
  proof (intro conjI)
    show "runs_ok (cells (snd ?s')) (free_block_list (fst ?s')) ?rs"
      using runs' cells bs by (simp add: memset0_def)
    show "pages_ok (cells (snd ?s')) (page_list (fst ?s')) ps"
      using agree_pages [OF ap bs agree B pages] by simp
    show "allocated (fst ?s') = of_nat (card (insert a L))"
      using rel disj(1) blk_rel_finite [OF rel] by (simp add: blk_rel_def)
  qed (use rel d disj un in \<open>simp_all add: blk_rel_def\<close>)
  moreover have "take_block s = (a, ?s')"
    using cells by (auto simp: take_block_def Let_def)
  moreover have "keeps_blocks L s ?s'"
  proof (rule agree_keeps [OF rel, of ?B])
    have "0 < k \<Longrightarrow> a + ?bs \<notin> L" using disj(2) next_free by blast
    then show "L \<subseteq> L - ?B" using disj(1) by (cases "0 < k") auto
  qed (use agree B in simp_all)
  moreover have "\<forall>i < ?bs. cells (snd ?s') (a + i) = 0" by (simp add: memset0_def)
  ultimately show ?thesis using disj(1) cells(3) by blast
qed

lemma alloc_ok:
  assumes "blk_inv s L" and "mmaps (snd s) \<noteq> [] \<or> free_block_list (fst s) \<noteq> 0"
  shows "\<exists>b s'. blk_alloc s = Inr (b, s') \<and> blk_inv s' (insert b L) \<and> b \<notin> L \<and> 0 < b \<and>
    keeps_blocks L s s' \<and> (\<forall>i < block_size (fst s). cells (snd s') (b + i) = 0)"
proof -
  obtain rs ps where rel: "blk_rel s rs ps L" using assms(1) by (auto simp: blk_inv_def)
  show ?thesis
  proof (cases "free_block_list (fst s) = 0")
    case False
    then obtain a n rs' where "rs = (a, n) # rs'" using rel by (cases rs) (auto simp: blk_rel_def)
    then show ?thesis
      using take_block_ok [of s a n rs' ps L] rel False unfolding blk_alloc_def blk_inv_def by fastforce
  next
    case True
    then obtain p rest where p: "mmaps (snd s) = p # rest" using assms(2) by (cases "mmaps (snd s)") auto
    obtain s1 n where s1: "create_new_page s = Inr s1" "blk_rel s1 ((p + 16, n) # rs) (p # ps) L"
      "block_size (fst s1) = block_size (fst s)"
      "\<forall>b \<in> all_blocks (block_size (fst s)) ps. \<forall>i < block_size (fst s). cells (snd s1) (b + i) = cells (snd s) (b + i)"
      using create_new_page_ok [OF rel p] by blast
    obtain s' rs' where s': "take_block s1 = (p + 16, s')" "blk_rel s' rs' (p # ps) (insert (p + 16) L)" "p + 16 \<notin> L"
      "keeps_blocks L s1 s'" "\<forall>i < block_size (fst s1). cells (snd s') (p + 16 + i) = 0"
      using take_block_ok [OF s1(2)] by blast
    have "L \<subseteq> all_blocks (block_size (fst s)) ps" using rel by (auto simp: blk_rel_def)
    then have "keeps_blocks L s s'" using s1(3,4) s'(4) unfolding keeps_blocks_def by (metis subsetD)
    moreover have "blk_alloc s = Inr (p + 16, s')" using True s1(1) s'(1) by (simp add: blk_alloc_def)
    moreover have "blk_inv s' (insert (p + 16) L)" using s'(2) by (auto simp: blk_inv_def)
    ultimately show ?thesis using s'(3,5) s1(3) by (intro exI [of _ "p + 16"] exI [of _ s']) simp
  qed
qed

lemma alloc_fails:
  assumes "blk_inv s L"
  shows "blk_alloc s = Inl e \<longleftrightarrow> e = abort_error \<and> mmaps (snd s) = [] \<and> free_block_list (fst s) = 0"
  by (cases "mmaps (snd s)") (auto simp: blk_alloc_def create_new_page_def Let_def)

lemma find_page_ok:
  assumes "apart ps" and "q \<in> set ps" and "q + 8 \<le> b" and "b < q + kAllocateSize" and "pages_ok m p ps"
  shows "find_page m p b = Some (Inr q)"
  using assms
proof (induction ps arbitrary: p)
  case (Cons a ps)
  have p: "p = a" "0 < a" and rest: "pages_ok m (m a) ps" and ap: "apart ps"
    using Cons.prems by (auto simp: apart_def)
  show ?case
  proof (cases "a = q")
    case True
    with p Cons.prems(3,4) show ?thesis by (subst find_page.simps) simp
  next
    case False
    then have q: "q \<in> set ps" using Cons.prems(2) by simp
    have "a + kAllocateSize \<le> q \<or> q + kAllocateSize \<le> a" using Cons.prems(1,2) False by (auto simp: apart_def)
    then have "\<not> (a + 8 \<le> b \<and> b < a + kAllocateSize)" using Cons.prems(3,4) by linarith
    then show ?thesis using Cons.IH [OF ap q Cons.prems(3,4) rest] p by (subst find_page.simps) auto
  qed
qed simp

lemma find_page_foreign:
  assumes "\<forall>q \<in> set ps. b < q + 8 \<or> q + kAllocateSize \<le> b" and "pages_ok m p ps"
  shows "find_page m p b = Some (Inl abort_error)"
  using assms by (induction ps arbitrary: p) (subst find_page.simps; auto)+

lemma put_block_ok:
  assumes rel: "blk_rel s rs ps L" and b: "b \<in> L"
  shows "blk_rel (put_block b s) ((b, 1) # rs) ps (L - {b}) \<and> keeps_blocks (L - {b}) s (put_block b s)"
proof -
  let ?bs = "block_size (fst s)" and ?m = "cells (snd s)"
  let ?m' = "(memset0 b ?bs ?m)(b := free_block_list (fst s), b + 8 := 1)"
  have bs: "16 \<le> ?bs" and ap: "apart ps" and runs: "runs_ok ?m (free_block_list (fst s)) rs"
    and pages: "pages_ok ?m (page_list (fst s)) ps"
    and disj: "set (free_blocks ?bs rs) \<inter> L = {}" and un: "set (free_blocks ?bs rs) \<union> L = all_blocks ?bs ps"
    using rel apart_append by (auto simp: blk_rel_def)
  have agree: "agree_outside ?bs {b} ?m ?m'"
    using bs by (simp add: agree_outside_def memset0_def)
  have B: "{b} \<subseteq> all_blocks ?bs ps" using un b by blast
  have "0 < b" using B page_block_range [of b ?bs] bs by (auto simp: all_blocks_def) fastforce
  have fb: "set (free_blocks ?bs rs) \<subseteq> all_blocks ?bs ps - {b}" using un disj b by blast
  have one: "free_blocks ?bs ((b, 1) # rs) = b # free_blocks ?bs rs" by (simp add: run_blocks_def)
  have fin: "finite L" using blk_rel_finite [OF rel] .
  have "blk_rel (put_block b s) ((b, 1) # rs) ps (L - {b})"
    unfolding blk_rel_def
  proof (intro conjI)
    show "runs_ok (cells (snd (put_block b s))) (free_block_list (fst (put_block b s))) ((b, 1) # rs)"
      using agree_runs [OF ap bs agree B fb runs] \<open>0 < b\<close> by (simp add: put_block_def Let_def)
    show "pages_ok (cells (snd (put_block b s))) (page_list (fst (put_block b s))) ps"
      using agree_pages [OF ap bs agree B pages] by (simp add: put_block_def Let_def)
    have "of_nat (card L) = (of_nat (card (L - {b})) + 1 :: u64)"
      using fin b card_Suc_Diff1 [of L b] by (metis add.commute of_nat_Suc)
    then show "allocated (fst (put_block b s)) = of_nat (card (L - {b}))"
      using rel by (simp add: put_block_def Let_def blk_rel_def)
    show "distinct (free_blocks (block_size (fst (put_block b s))) ((b, 1) # rs))"
      using one fb rel by (auto simp: put_block_def Let_def blk_rel_def)
    show "set (free_blocks (block_size (fst (put_block b s))) ((b, 1) # rs)) \<inter> (L - {b}) = {}"
      using one disj by (auto simp: put_block_def Let_def)
    show "set (free_blocks (block_size (fst (put_block b s))) ((b, 1) # rs)) \<union> (L - {b}) =
        all_blocks (block_size (fst (put_block b s))) ps"
      using one un b by (simp add: put_block_def Let_def) blast
  qed (use rel in \<open>simp_all add: blk_rel_def put_block_def Let_def\<close>)
  moreover have "keeps_blocks (L - {b}) s (put_block b s)"
    by (rule agree_keeps [OF rel, of "{b}"]) (use agree B in \<open>simp_all add: put_block_def Let_def\<close>)
  ultimately show ?thesis ..
qed

lemma free_ok:
  assumes "blk_inv s L" and b: "b \<in> L"
  shows "\<exists>s'. blk_free b s = Some (Inr s') \<and> blk_inv s' (L - {b}) \<and> keeps_blocks (L - {b}) s s'"
proof -
  let ?bs = "block_size (fst s)"
  obtain rs ps where rel: "blk_rel s rs ps L" using assms(1) by (auto simp: blk_inv_def)
  then have bs: "16 \<le> ?bs" and ap: "apart ps" and pages: "pages_ok (cells (snd s)) (page_list (fst s)) ps"
    and "b \<in> all_blocks ?bs ps"
    using b apart_append by (auto simp: blk_rel_def)
  then obtain q where q: "q \<in> set ps" "b \<in> set (page_blocks ?bs q)" by (auto simp: all_blocks_def)
  have range: "q + 16 \<le> b" "b + ?bs \<le> q + kAllocateSize" using page_block_range [OF q(2)] bs by auto
  obtain i where i: "b = q + 16 + i * ?bs" using q(2) by (auto simp: page_blocks_def set_run_blocks)
  have "i * ?bs < 2 ^ 64" using range i by (simp add: kAllocateSize_def PAGE_SIZE_def)
  then have "int (i * ?bs) < 2 ^ 64" by (metis of_nat_less_iff of_nat_numeral of_nat_power)
  then have off: "(int b - int (q + 16)) mod 2 ^ 64 mod int ?bs = 0"
    using i by (simp add: mod_pos_pos_trivial)
  have "find_page (cells (snd s)) (page_list (fst s)) b = Some (Inr q)"
    using find_page_ok [OF ap q(1) _ _ pages] range bs by simp
  then have "blk_free b s = Some (Inr (put_block b s))"
    using off range by (simp add: blk_free_def)
  then show ?thesis using put_block_ok [OF rel b] by (auto simp: blk_inv_def)
qed

lemma unmap_pages_ok:
  "pages_ok (cells w) p ps \<Longrightarrow> unmap_pages p w = Some (w\<lparr>munmaps := munmaps w @ ps\<rparr>)"
proof (induction ps arbitrary: p w)
  case Nil
  then show ?case by (subst unmap_pages.simps) simp
next
  case (Cons a ps)
  have "unmap_pages (cells w a) (w\<lparr>munmaps := munmaps w @ [a]\<rparr>) = Some (w\<lparr>munmaps := munmaps w @ a # ps\<rparr>)"
    using Cons.IH [of "w\<lparr>munmaps := munmaps w @ [a]\<rparr>" "cells w a"] Cons.prems by simp
  then show ?case using Cons.prems by (subst unmap_pages.simps) simp
qed

lemma round_up_16:
  fixes n :: u64
  assumes "unat n + 15 < 2 ^ 64"
  shows "unat (round_up n 16) = (unat n + 15) div 16 * 16"
proof -
  have "round_up n 16 = (n + 15) AND NOT (mask 4)" by (simp add: round_up_def mask_eq_exp_minus_1)
  also have "\<dots> = push_bit 4 (drop_bit 4 (n + 15))"
    by (rule bit_word_eqI) (auto simp: bit_simps)
  finally have "round_up n 16 = push_bit 4 (drop_bit 4 (n + 15))" .
  moreover have n: "unat (n + 15) = unat n + 15" using assms by (simp add: unat_word_ariths)
  moreover have "unat (drop_bit 4 (n + 15) * 16) = unat (drop_bit 4 (n + 15)) * 16"
    using assms n div_times_less_eq_dividend [of "unat n + 15" 16] by (simp add: unat_word_ariths unat_drop_bit)
  ultimately show ?thesis by (simp add: unat_drop_bit push_bit_eq_mult)
qed

section \<open>Histories of an allocator\<close>

text \<open>
  The states an allocator goes through while its blocks are taken, written to, given back and purged, with the set of
  blocks in use. The mappings that the system will hand out do not overlap.
\<close>

inductive blk_reach :: "blk_state \<Rightarrow> nat set \<Rightarrow> bool" where
  created: "unat n \<le> kAllocateSize - 16 \<Longrightarrow> apart (mmaps w) \<Longrightarrow> 0 \<notin> set (mmaps w) \<Longrightarrow>
     blk_reach (new_allocator n, w) {}"
| alloc: "blk_reach s L \<Longrightarrow> blk_alloc s = Inr (b, s') \<Longrightarrow> blk_reach s' (insert b L)"
| free: "blk_reach s L \<Longrightarrow> b \<in> L \<Longrightarrow> blk_free b s = Some (Inr s') \<Longrightarrow> blk_reach s' (L - {b})"
| store: "blk_reach s L \<Longrightarrow> b \<in> L \<Longrightarrow> i < block_size (fst s) \<Longrightarrow>
     blk_reach (fst s, set_cells ((cells (snd s))(b + i := v)) (snd s)) L"
| purge: "blk_reach s {} \<Longrightarrow> purge s = Some s' \<Longrightarrow> blk_reach s' {}"

lemma created_ok:
  assumes "unat n \<le> kAllocateSize - 16" and "apart (mmaps w)" and "0 \<notin> set (mmaps w)"
  shows "blk_rel (new_allocator n, w) [] [] {}"
proof -
  let ?k = "if n < 16 then 16 else n"
  have k: "16 \<le> unat ?k" "unat ?k \<le> 409584"
    using assms(1) by (simp_all add: word_less_nat_alt kAllocateSize_def PAGE_SIZE_def)
  then have "unat (round_up ?k 16) = (unat ?k + 15) div 16 * 16" by (intro round_up_16) simp
  moreover have "16 \<le> x \<Longrightarrow> x \<le> 409584 \<Longrightarrow> 16 \<le> (x + 15) div 16 * 16 \<and> (x + 15) div 16 * 16 \<le> 409584" for x :: nat
    using div_le_mono [of "x + 15" 409599 16] div_le_mono [of 31 "x + 15" 16] by simp
  ultimately have "16 \<le> unat (round_up ?k 16)" "unat (round_up ?k 16) \<le> kAllocateSize - 16"
    using k by (simp_all add: kAllocateSize_def PAGE_SIZE_def)
  then show ?thesis using assms
    by (simp add: blk_rel_def new_allocator_def free_blocks_def all_blocks_def)
qed

lemma store_ok:
  assumes rel: "blk_rel s rs ps L" and "b \<in> L" and "i < block_size (fst s)"
  shows "blk_rel (fst s, set_cells ((cells (snd s))(b + i := v)) (snd s)) rs ps L"
proof -
  let ?bs = "block_size (fst s)" and ?m = "cells (snd s)"
  have bs: "16 \<le> ?bs" and ap: "apart ps" and runs: "runs_ok ?m (free_block_list (fst s)) rs"
    and pages: "pages_ok ?m (page_list (fst s)) ps"
    and disj: "set (free_blocks ?bs rs) \<inter> L = {}" and un: "set (free_blocks ?bs rs) \<union> L = all_blocks ?bs ps"
    using rel apart_append by (auto simp: blk_rel_def)
  have agree: "agree_outside ?bs {b} ?m (?m(b + i := v))" using assms(3) by (auto simp: agree_outside_def)
  have B: "{b} \<subseteq> all_blocks ?bs ps" and fb: "set (free_blocks ?bs rs) \<subseteq> all_blocks ?bs ps - {b}"
    using un disj assms(2) by blast+
  show ?thesis
    using rel agree_runs [OF ap bs agree B fb runs] agree_pages [OF ap bs agree B pages] by (simp add: blk_rel_def)
qed

lemma purge_ok:
  assumes rel: "blk_rel s rs ps {}"
  shows "purge s = Some ((fst s)\<lparr>page_list := 0, free_block_list := 0\<rparr>, (snd s)\<lparr>munmaps := munmaps (snd s) @ ps\<rparr>) \<and>
    blk_rel ((fst s)\<lparr>page_list := 0, free_block_list := 0\<rparr>, (snd s)\<lparr>munmaps := munmaps (snd s) @ ps\<rparr>) [] [] {}"
proof -
  have "unmap_pages (page_list (fst s)) (snd s) = Some ((snd s)\<lparr>munmaps := munmaps (snd s) @ ps\<rparr>)"
    using rel by (intro unmap_pages_ok) (simp add: blk_rel_def)
  moreover have "apart (mmaps (snd s))" using rel by (auto simp: blk_rel_def apart_def)
  ultimately show ?thesis
    using rel by (simp add: purge_def blk_rel_def free_blocks_def all_blocks_def)
qed

lemma blk_reach_inv: "blk_reach s L \<Longrightarrow> blk_inv s L"
proof (induction rule: blk_reach.induct)
  case (created n w)
  then show ?case using created_ok by (auto simp: blk_inv_def)
next
  case (alloc s L b s')
  show ?case
  proof (cases "mmaps (snd s) \<noteq> [] \<or> free_block_list (fst s) \<noteq> 0")
    case True
    then show ?thesis using alloc_ok [OF alloc.IH True] alloc.hyps(2) by auto
  next
    case False
    then show ?thesis using alloc_fails [OF alloc.IH, of abort_error] alloc.hyps(2) by simp
  qed
next
  case (free s L b s')
  then show ?case using free_ok [OF free.IH free.hyps(2)] by auto
next
  case (store s L b i v)
  then show ?case unfolding blk_inv_def using store_ok by blast
next
  case (purge s s')
  then obtain rs ps where "blk_rel s rs ps {}" by (auto simp: blk_inv_def)
  then show ?case using purge_ok [of s rs ps] purge.hyps(2) by (auto simp: blk_inv_def)
qed

text \<open>
  C28 (allocator_blocks). In every state of an allocator the counter is the number of blocks in use and two
  blocks in use never overlap. An allocation returns a block that is not in use, filled with zeros, and changes no byte of
  a block in use; it aborts only when \<^verbatim>\<open>mmap\<close> fails. Giving back a block in use always succeeds and changes no byte of
  the other blocks in use.
\<close>

theorem allocator_blocks:
  assumes "blk_reach s L"
  shows "allocated (fst s) = of_nat (card L) \<and>
    (\<forall>b \<in> L. \<forall>c \<in> L. b = c \<or> b + block_size (fst s) \<le> c \<or> c + block_size (fst s) \<le> b) \<and>
    (\<forall>b s'. blk_alloc s = Inr (b, s') \<longrightarrow> b \<notin> L \<and> b \<noteq> 0 \<and> keeps_blocks L s s' \<and>
       (\<forall>i < block_size (fst s). cells (snd s') (b + i) = 0)) \<and>
    (\<forall>e. blk_alloc s = Inl e \<longrightarrow> mmaps (snd s) = []) \<and>
    (\<forall>b \<in> L. \<exists>s'. blk_free b s = Some (Inr s') \<and> keeps_blocks (L - {b}) s s')"
proof -
  have inv: "blk_inv s L" using assms by (rule blk_reach_inv)
  then obtain rs ps where rel: "blk_rel s rs ps L" by (auto simp: blk_inv_def)
  have "b = c \<or> b + block_size (fst s) \<le> c \<or> c + block_size (fst s) \<le> b" if "b \<in> L" "c \<in> L" for b c
  proof -
    have "0 < block_size (fst s)" "b \<in> all_blocks (block_size (fst s)) ps" "c \<in> all_blocks (block_size (fst s)) ps"
      "apart ps" using rel that apart_append by (auto simp: blk_rel_def)
    then show ?thesis using blocks_spaced by blast
  qed
  moreover have "b \<notin> L \<and> b \<noteq> 0 \<and> keeps_blocks L s s' \<and> (\<forall>i < block_size (fst s). cells (snd s') (b + i) = 0)"
    if "blk_alloc s = Inr (b, s')" for b s'
  proof -
    have "mmaps (snd s) \<noteq> [] \<or> free_block_list (fst s) \<noteq> 0"
      using alloc_fails [OF inv, of abort_error] that by auto
    then obtain b' t where "blk_alloc s = Inr (b', t)" "b' \<notin> L" "0 < b'" "keeps_blocks L s t"
      "\<forall>i < block_size (fst s). cells (snd t) (b' + i) = 0" using alloc_ok [OF inv] by blast
    then show ?thesis using that by simp
  qed
  moreover have "blk_alloc s = Inl e \<longrightarrow> mmaps (snd s) = []" for e using alloc_fails [OF inv] by blast
  moreover have "allocated (fst s) = of_nat (card L)" using rel by (simp add: blk_rel_def)
  moreover have "\<exists>s'. blk_free b s = Some (Inr s') \<and> keeps_blocks (L - {b}) s s'" if "b \<in> L" for b
    using free_ok [OF inv that] by blast
  ultimately show ?thesis by blast
qed

theorem allocator_blocks_witness:
  "\<exists>s. blk_reach s {4112} \<and> allocated (fst s) = 1 \<and> (\<exists>s'. blk_free 4112 s = Some (Inr s'))"
proof -
  let ?first = "(new_allocator 16, \<lparr>cells = (\<lambda>_. 0), mmaps = [4096], munmaps = []\<rparr>)"
  have "blk_reach ?first {}"
    by (rule blk_reach.created) (simp_all add: apart_def kAllocateSize_def PAGE_SIZE_def)
  moreover have "\<exists>s. blk_alloc ?first = Inr (4112, s)"
    by (simp add: blk_alloc_def create_new_page_def take_block_def new_allocator_def Let_def case_prod_beta)
  then obtain s where "blk_alloc ?first = Inr (4112, s)" ..
  ultimately have r: "blk_reach s {4112}" using blk_reach.alloc by blast
  have "allocated (fst s) = of_nat (card {4112 :: nat})"
    and "\<forall>b \<in> {4112}. \<exists>s'. blk_free b s = Some (Inr s') \<and> keeps_blocks ({4112} - {b}) s s'"
    using allocator_blocks [OF r] by - (elim conjE, assumption)+
  then have "allocated (fst s) = 1 \<and> (\<exists>s'. blk_free 4112 s = Some (Inr s'))" by auto
  then show ?thesis using r by blast
qed

end
