(* ===== verification/Ld_List.thy ===== *)
theory Ld_List
  imports Ld_Alloc
begin

text \<open>
  The singly linked list of the dynamic linker (\<^verbatim>\<open>mcpelauncher-linker/bionic/linker/linked_list.h\<close>), on the level of its
  entries: a list is a pair of pointers, an entry lives in memory obtained from the template parameter \<^verbatim>\<open>Allocator\<close>.
  The parameter is the record \<open>entry_alloc\<close>; what the list relies on is the locale \<open>entry_heap\<close>, in which the
  operations are shown to implement those of the abstract list of elements. The locale is interpreted on the
  block allocator of \<^verbatim>\<open>Ld_Alloc\<close> with 16-byte blocks, which is what \<^verbatim>\<open>SoinfoListAllocator\<close> and
  \<^verbatim>\<open>NamespaceListAllocator\<close> of \<^verbatim>\<open>linker.cpp\<close> forward to. The null pointer is 0.
\<close>

section \<open>Entries and lists\<close>

record 'w entry_alloc =
  ea_alloc :: "'w \<Rightarrow> (nat \<times> 'w) cxx"
  ea_free :: "nat \<Rightarrow> 'w \<Rightarrow> 'w cxx option"
  ea_next :: "'w \<Rightarrow> nat \<Rightarrow> nat"
  ea_elem :: "'w \<Rightarrow> nat \<Rightarrow> nat"
  ea_set_next :: "nat \<Rightarrow> nat \<Rightarrow> 'w \<Rightarrow> 'w"
  ea_set_elem :: "nat \<Rightarrow> nat \<Rightarrow> 'w \<Rightarrow> 'w"

record LinkedList =
  head :: nat
  tail :: nat

definition new_list :: LinkedList where "new_list = \<lparr>head = 0, tail = 0\<rparr>"

text \<open>The move constructor: the new list and what is left of the old one.\<close>

definition move_list :: "LinkedList \<Rightarrow> LinkedList \<times> LinkedList" where
  "move_list that = (\<lparr>head = head that, tail = tail that\<rparr>, that\<lparr>head := 0, tail := 0\<rparr>)"


definition push_back :: "'w entry_alloc \<Rightarrow> nat \<Rightarrow> LinkedList \<times> 'w \<Rightarrow> (LinkedList \<times> 'w) cxx" where
  "push_back E element s =
     cxx_bind (ea_alloc E (snd s)) (\<lambda>(p, w).
       let l = fst s; w2 = ea_set_elem E p element (ea_set_next E p 0 w)
       in if tail l = 0 then Inr (l\<lparr>head := p, tail := p\<rparr>, w2)
          else Inr (l\<lparr>tail := p\<rparr>, ea_set_next E (tail l) p w2))"














text \<open>The entry at which the loops of \<^verbatim>\<open>find_if\<close>, \<^verbatim>\<open>find\<close> and \<^verbatim>\<open>contains\<close> stop, or null.\<close>

partial_function (option) find_entry :: "'w entry_alloc \<Rightarrow> (nat \<Rightarrow> bool) \<Rightarrow> nat \<Rightarrow> 'w \<Rightarrow> nat option" where
  "find_entry E P e w =
     (if e = 0 then Some 0 else if P (ea_elem E w e) then Some e else find_entry E P (ea_next E w e) w)"


definition find_value :: "'w entry_alloc \<Rightarrow> nat \<Rightarrow> LinkedList \<times> 'w \<Rightarrow> nat option" where
  "find_value E x s = find_entry E (\<lambda>e. e = x) (head (fst s)) (snd s)"




definition make_list :: "'w entry_alloc \<Rightarrow> nat \<Rightarrow> 'w \<Rightarrow> (LinkedList \<times> 'w) cxx" where
  "make_list E element w = push_back E element (new_list, w)"

section \<open>What the list relies on\<close>

text \<open>The entries in \<open>L\<close> hold the same pointers in both worlds.\<close>

definition same_entries :: "'w entry_alloc \<Rightarrow> nat set \<Rightarrow> 'w \<Rightarrow> 'w \<Rightarrow> bool" where
  "same_entries E L w w' \<longleftrightarrow> (\<forall>q \<in> L. ea_next E w' q = ea_next E w q \<and> ea_elem E w' q = ea_elem E w q)"





section \<open>Walks\<close>









lemma same_entries_refl [simp]: "same_entries E L w w"
  by (simp add: same_entries_def)








section \<open>The operations implement those of lists\<close>





section \<open>Sequences of operations\<close>









section \<open>Entries in the block allocator\<close>













end
