(* ===== verification/Ld_Symbols.thy ===== *)
theory Ld_Symbols
  imports Prelude
begin

text \<open>
  Symbol lookup of the dynamic linker (\<^verbatim>\<open>mcpelauncher-linker/bionic/linker\<close>: \<^verbatim>\<open>linker_soinfo.cpp\<close>, \<^verbatim>\<open>linker_gnu_hash.h\<close>, \<^verbatim>\<open>linker_relocate.h\<close> and the
  version definitions of \<^verbatim>\<open>linker.cpp\<close>) in a library of a 64-bit system. The tables of a library are lists; reading outside
  of them is undefined. \<open>gnu_chain\<close> is indexed by the symbol, as the pointer \<^verbatim>\<open>gnu_chain_\<close> is, and \<open>verdefs\<close> has the version definitions in the
  order of their \<^verbatim>\<open>vd_next\<close> links, each with the name of its first auxiliary entry.
\<close>

unbundle bit_operations_syntax

section \<open>Libraries\<close>

record elf_sym =
  st_name :: nat
  st_info :: byte
  st_shndx :: u16
  st_value :: u64
  st_size :: u64

record elf_verdef =
  vd_version :: u16
  vd_flags :: u16
  vd_ndx :: u16
  vd_cnt :: u16
  vd_hash :: u32
  vda_name :: nat

record library =
  strtab :: "byte list"
  symtab :: "elf_sym list"
  versym :: "u16 list option"
  verdefs :: "elf_verdef list"
  is_gnu_hash :: bool
  gnu_bucket :: "nat list"
  gnu_chain :: "u32 list"
  gnu_maskwords :: u32
  gnu_shift2 :: nat
  gnu_bloom_filter :: "u64 list"
  bucket :: "nat list option"
  chain :: "nat list"
  symbols :: "byte list \<rightharpoonup> elf_sym"
  load_bias :: u64

type_synonym version_info = "u32 \<times> byte list"

text \<open>A symbol of the symbol table, by its index, or one registered by name.\<close>

datatype symbol_ref = Table nat | Registered elf_sym

definition get_string :: "library \<Rightarrow> nat \<Rightarrow> byte list cxx" where
  "get_string lib index =
     (if length (strtab lib) \<le> index then Inl (RuntimeError ''strtab out of bounds error'')
      else if 0 \<in> set (drop index (strtab lib)) then Inr (takeWhile (\<lambda>b. b \<noteq> 0) (drop index (strtab lib)))
      else Inl Undefined)"

section \<open>Hashes\<close>

definition calculate_elf_hash :: "byte list \<Rightarrow> u32" where
  "calculate_elf_hash name =
     foldl (\<lambda>h b. let h1 = push_bit 4 h + ucast b; g = h1 AND 0xf0000000; h2 = h1 XOR g in h2 XOR drop_bit 24 g) 0 name"

definition calculate_gnu_hash :: "byte list \<Rightarrow> u32" where
  "calculate_gnu_hash name = foldl (\<lambda>h b. h + (push_bit 5 h + ucast b)) 5381 name"

section \<open>Versions\<close>

definition kVersymNotNeeded :: u16 where "kVersymNotNeeded = 0"
definition kVersymGlobal :: u16 where "kVersymGlobal = 1"
definition kVersymHiddenBit :: u16 where "kVersymHiddenBit = 0x8000"

text \<open>
  Walking the definitions: \<open>Inr (True, r)\<close> when the walk ends or is stopped by the functor with a result, \<open>Inr (False, None)\<close> on a
  malformed definition. Definitions with the flag \<^verbatim>\<open>VER_FLG_BASE\<close> are skipped.
\<close>

fun for_each_verdef :: "(elf_verdef \<Rightarrow> 'r option cxx) \<Rightarrow> elf_verdef list \<Rightarrow> (bool \<times> 'r option) cxx" where
  "for_each_verdef f [] = Inr (True, None)"
| "for_each_verdef f (v # vs) =
     (if vd_version v \<noteq> 1 then Inr (False, None)
      else if vd_flags v AND 1 \<noteq> 0 then for_each_verdef f vs
      else if vd_cnt v = 0 then Inr (False, None)
      else cxx_bind (f v) (\<lambda>r. if r \<noteq> None then Inr (True, r) else for_each_verdef f vs))"

definition find_verdef_version_index :: "library \<Rightarrow> version_info option \<Rightarrow> u16 cxx" where
  "find_verdef_version_index lib vi =
     (case vi of
        None \<Rightarrow> Inr kVersymNotNeeded
      | Some (hash, vname) \<Rightarrow>
          cxx_bind (for_each_verdef (\<lambda>v.
            if vd_hash v = hash then
              cxx_bind (get_string lib (vda_name v)) (\<lambda>s. Inr (if s = vname then Some (vd_ndx v) else None))
            else Inr None) (verdefs lib)) (\<lambda>(ok, r).
          if \<not> ok then Inl (RuntimeError ''invalid verdef after prelinking'')
          else Inr (case r of Some ndx \<Rightarrow> ndx | None \<Rightarrow> kVersymGlobal)))"

definition validate_verdef_section :: "library \<Rightarrow> bool cxx" where
  "validate_verdef_section lib = cxx_bind (for_each_verdef (\<lambda>v. Inr (None :: unit option)) (verdefs lib)) (\<lambda>(ok, r). Inr ok)"

definition check_symbol_version :: "u16 list option \<Rightarrow> nat \<Rightarrow> u16 \<Rightarrow> bool cxx" where
  "check_symbol_version ver_table sym_idx verneed =
     (case ver_table of
        None \<Rightarrow> Inr True
      | Some t \<Rightarrow>
          if length t \<le> sym_idx then Inl Undefined
          else let verdef = t ! sym_idx
            in Inr (if verneed = kVersymNotNeeded then verdef AND kVersymHiddenBit = 0
                    else verneed = verdef AND NOT kVersymHiddenBit))"

section \<open>Lookup by name\<close>

definition is_symbol_global_and_defined :: "elf_sym \<Rightarrow> bool" where
  "is_symbol_global_and_defined s \<longleftrightarrow> (drop_bit 4 (st_info s) = 1 \<or> drop_bit 4 (st_info s) = 2) \<and> st_shndx s \<noteq> 0"

text \<open>The conditions both lookups test on a symbol, in their order.\<close>

definition symbol_matches :: "library \<Rightarrow> byte list \<Rightarrow> u16 \<Rightarrow> nat \<Rightarrow> bool cxx" where
  "symbol_matches lib name verneed n =
     cxx_bind (check_symbol_version (versym lib) n verneed) (\<lambda>v.
       if \<not> v then Inr False
       else cxx_bind (get_string lib (st_name (symtab lib ! n))) (\<lambda>s.
         Inr (s = name \<and> is_symbol_global_and_defined (symtab lib ! n))))"

function gnu_chain_search :: "library \<Rightarrow> byte list \<Rightarrow> u32 \<Rightarrow> u16 \<Rightarrow> nat \<Rightarrow> nat option cxx" where
  "gnu_chain_search lib name hash verneed n =
     (if length (symtab lib) \<le> n \<or> length (gnu_chain lib) \<le> n then Inl Undefined
      else cxx_bind (if drop_bit 1 (gnu_chain lib ! n XOR hash) = 0 then symbol_matches lib name verneed n else Inr False) (\<lambda>found.
        if found then Inr (Some n)
        else if gnu_chain lib ! n AND 1 = 0 then gnu_chain_search lib name hash verneed (n + 1)
        else Inr None))"
  by pat_completeness auto
termination by (relation "measure (\<lambda>(lib, name, hash, verneed, n). length (symtab lib) - n)") auto

declare gnu_chain_search.simps [simp del]

definition bloom_test :: "u64 \<Rightarrow> u32 \<Rightarrow> nat \<Rightarrow> bool" where
  "bloom_test word hash shift2 \<longleftrightarrow> bit word (unat hash mod 64) \<and> bit word (unat (drop_bit shift2 hash) mod 64)"

definition gnu_lookup :: "library \<Rightarrow> byte list \<Rightarrow> version_info option \<Rightarrow> nat option cxx" where
  "gnu_lookup lib name vi =
     (let hash = calculate_gnu_hash name;
          word_num = unat ((hash div 64) AND gnu_maskwords lib)
      in if length (gnu_bloom_filter lib) \<le> word_num \<or> 32 \<le> gnu_shift2 lib then Inl Undefined
         else if \<not> bloom_test (gnu_bloom_filter lib ! word_num) hash (gnu_shift2 lib) then Inr None
         else if gnu_bucket lib = [] then Inl Undefined
         else let n = gnu_bucket lib ! (unat hash mod length (gnu_bucket lib))
           in if n = 0 then Inr None
              else cxx_bind (find_verdef_version_index lib vi) (\<lambda>verneed. gnu_chain_search lib name hash verneed n))"

text \<open>The links of the older table may form a cycle: not returning is \<open>None\<close>.\<close>

partial_function (option) elf_chain_search :: "library \<Rightarrow> byte list \<Rightarrow> u16 \<Rightarrow> nat \<Rightarrow> nat option cxx option" where
  "elf_chain_search lib name verneed n =
     (if n = 0 then Some (Inr None)
      else if length (symtab lib) \<le> n then Some (Inl Undefined)
      else if isl (symbol_matches lib name verneed n) then Some (Inl (projl (symbol_matches lib name verneed n)))
      else if projr (symbol_matches lib name verneed n) then Some (Inr (Some n))
      else if length (chain lib) \<le> n then Some (Inl Undefined)
      else elf_chain_search lib name verneed (chain lib ! n))"

definition elf_lookup :: "library \<Rightarrow> byte list \<Rightarrow> version_info option \<Rightarrow> nat option cxx option" where
  "elf_lookup lib name vi =
     (case find_verdef_version_index lib vi of
        Inl e \<Rightarrow> Some (Inl e)
      | Inr verneed \<Rightarrow>
          (case bucket lib of
             None \<Rightarrow> Some (Inl Undefined)
           | Some b \<Rightarrow>
               if b = [] then Some (Inl Undefined)
               else elf_chain_search lib name verneed (b ! (unat (calculate_elf_hash name) mod length b))))"

definition find_symbol_by_name :: "library \<Rightarrow> byte list \<Rightarrow> version_info option \<Rightarrow> symbol_ref option cxx option" where
  "find_symbol_by_name lib name vi =
     (case symbols lib name of
        Some s \<Rightarrow> Some (Inr (Some (Registered s)))
      | None \<Rightarrow>
          if bucket lib = None then Some (Inr None)
          else map_option (\<lambda>r. cxx_bind r (\<lambda>n. Inr (map_option Table n)))
            (if is_gnu_hash lib then Some (gnu_lookup lib name vi) else elf_lookup lib name vi))"

section \<open>Lookup by address\<close>

definition symbol_matches_soaddr :: "elf_sym \<Rightarrow> u64 \<Rightarrow> bool" where
  "symbol_matches_soaddr s soaddr \<longleftrightarrow>
     st_shndx s \<noteq> 0 \<and> st_info s AND 15 \<noteq> 6 \<and> st_value s \<le> soaddr \<and> soaddr < st_value s + st_size s"

function gnu_addr_chain :: "library \<Rightarrow> u64 \<Rightarrow> nat \<Rightarrow> nat option cxx" where
  "gnu_addr_chain lib soaddr n =
     (if length (symtab lib) \<le> n \<or> length (gnu_chain lib) \<le> n then Inl Undefined
      else if symbol_matches_soaddr (symtab lib ! n) soaddr then Inr (Some n)
      else if gnu_chain lib ! n AND 1 = 0 then gnu_addr_chain lib soaddr (n + 1)
      else Inr None)"
  by pat_completeness auto
termination by (relation "measure (\<lambda>(lib, soaddr, n). length (symtab lib) - n)") auto

declare gnu_addr_chain.simps [simp del]

fun gnu_addr_buckets :: "library \<Rightarrow> u64 \<Rightarrow> nat list \<Rightarrow> nat option cxx" where
  "gnu_addr_buckets lib soaddr [] = Inr None"
| "gnu_addr_buckets lib soaddr (n # ns) =
     (if n = 0 then gnu_addr_buckets lib soaddr ns
      else cxx_bind (gnu_addr_chain lib soaddr n) (\<lambda>r. if r \<noteq> None then Inr r else gnu_addr_buckets lib soaddr ns))"

definition gnu_addr_lookup :: "library \<Rightarrow> u64 \<Rightarrow> nat option cxx" where
  "gnu_addr_lookup lib addr = gnu_addr_buckets lib (addr - load_bias lib) (gnu_bucket lib)"

definition elf_addr_lookup :: "library \<Rightarrow> u64 \<Rightarrow> nat option cxx" where
  "elf_addr_lookup lib addr =
     (case find (\<lambda>i. symbol_matches_soaddr (symtab lib ! i) (addr - load_bias lib)) [0 ..< min (length (chain lib)) (length (symtab lib))] of
        Some i \<Rightarrow> Inr (Some i)
      | None \<Rightarrow> if length (symtab lib) < length (chain lib) then Inl Undefined else Inr None)"

definition find_symbol_by_address :: "library \<Rightarrow> u64 \<Rightarrow> nat option cxx" where
  "find_symbol_by_address lib addr = (if is_gnu_hash lib then gnu_addr_lookup lib addr else elf_addr_lookup lib addr)"

section \<open>Lookup in a list of libraries\<close>

text \<open>The comparison of \<^verbatim>\<open>soinfo_do_lookup_impl\<close>, which never reads outside of the string table.\<close>

definition lookup_matches :: "library \<Rightarrow> byte list \<Rightarrow> u16 \<Rightarrow> nat \<Rightarrow> bool cxx" where
  "lookup_matches lib name verneed n =
     cxx_bind (check_symbol_version (versym lib) n verneed) (\<lambda>v.
       let s = symtab lib ! n
       in Inr (v \<and> st_name s + length name + 1 \<le> length (strtab lib) \<and>
           take (length name + 1) (drop (st_name s) (strtab lib)) = name @ [0] \<and> is_symbol_global_and_defined s))"

function lookup_chain_search :: "library \<Rightarrow> byte list \<Rightarrow> version_info option \<Rightarrow> u32 \<Rightarrow> nat \<Rightarrow> nat option cxx" where
  "lookup_chain_search lib name vi hash sym_idx =
     (if length (symtab lib) \<le> sym_idx \<or> length (gnu_chain lib) \<le> sym_idx then Inl Undefined
      else cxx_bind (if drop_bit 1 (gnu_chain lib ! sym_idx) = drop_bit 1 hash
                     then cxx_bind (find_verdef_version_index lib vi) (\<lambda>verneed. lookup_matches lib name verneed sym_idx)
                     else Inr False) (\<lambda>found.
        if found then Inr (Some sym_idx)
        else if gnu_chain lib ! sym_idx AND 1 = 0 then lookup_chain_search lib name vi hash (sym_idx + 1)
        else Inr None))"
  by pat_completeness auto
termination by (relation "measure (\<lambda>(lib, name, vi, hash, n). length (symtab lib) - n)") auto

declare lookup_chain_search.simps [simp del]

definition needs_sysv_lookup :: "library \<Rightarrow> bool" where
  "needs_sysv_lookup lib \<longleftrightarrow> \<not> is_gnu_hash lib"

text \<open>One library of the list, in the general and in the fast variant.\<close>

definition lookup_in :: "bool \<Rightarrow> byte list \<Rightarrow> version_info option \<Rightarrow> library \<Rightarrow> symbol_ref option cxx option" where
  "lookup_in general name vi lib =
     (if general \<and> needs_sysv_lookup lib then find_symbol_by_name lib name vi
      else case symbols lib name of
        Some s \<Rightarrow> Some (Inr (Some (Registered s)))
      | None \<Rightarrow>
          (let hash = calculate_gnu_hash name;
               word_num = unat ((hash div 64) AND gnu_maskwords lib)
           in Some (if needs_sysv_lookup lib \<or> length (gnu_bloom_filter lib) \<le> word_num \<or> 32 \<le> gnu_shift2 lib then Inl Undefined
              else if \<not> bloom_test (gnu_bloom_filter lib ! word_num) hash (gnu_shift2 lib) then Inr None
              else if gnu_bucket lib = [] then Inl Undefined
              else let n = gnu_bucket lib ! (unat hash mod length (gnu_bucket lib))
                in if n = 0 then Inr None
                   else cxx_bind (lookup_chain_search lib name vi hash n) (\<lambda>r. Inr (map_option Table r)))))"

fun soinfo_do_lookup_impl ::
  "bool \<Rightarrow> byte list \<Rightarrow> version_info option \<Rightarrow> library list \<Rightarrow> (library \<times> symbol_ref) option cxx option" where
  "soinfo_do_lookup_impl general name vi [] = Some (Inr None)"
| "soinfo_do_lookup_impl general name vi (lib # libs) =
     (case lookup_in general name vi lib of
        None \<Rightarrow> None
      | Some (Inl e) \<Rightarrow> Some (Inl e)
      | Some (Inr (Some r)) \<Rightarrow> Some (Inr (Some (lib, r)))
      | Some (Inr None) \<Rightarrow> soinfo_do_lookup_impl general name vi libs)"

definition soinfo_do_lookup ::
  "bool \<Rightarrow> byte list \<Rightarrow> version_info option \<Rightarrow> library list \<Rightarrow> (library \<times> symbol_ref) option cxx option" where
  "soinfo_do_lookup tracing name vi libs =
     (if tracing \<or> list_ex needs_sysv_lookup libs then soinfo_do_lookup_impl True name vi libs
      else soinfo_do_lookup_impl False name vi libs)"

section \<open>Well-formed tables\<close>

definition sym_name :: "library \<Rightarrow> nat \<Rightarrow> byte list" where
  "sym_name lib n = projr (get_string lib (st_name (symtab lib ! n)))"

definition symbols_ok :: "library \<Rightarrow> bool" where
  "symbols_ok lib \<longleftrightarrow>
     list_all (\<lambda>s. \<not> isl (get_string lib (st_name s))) (symtab lib) \<and>
     (case versym lib of None \<Rightarrow> True | Some t \<Rightarrow> length t = length (symtab lib))"

definition gnu_ok :: "library \<Rightarrow> bool" where
  "gnu_ok lib \<longleftrightarrow>
     gnu_bucket lib \<noteq> [] \<and> gnu_shift2 lib < 32 \<and> unat (gnu_maskwords lib) < length (gnu_bloom_filter lib) \<and>
     length (gnu_chain lib) = length (symtab lib) \<and> (symtab lib = [] \<or> last (gnu_chain lib) AND 1 \<noteq> 0) \<and>
     list_all (\<lambda>b. b < length (symtab lib)) (gnu_bucket lib) \<and>
     list_all (\<lambda>n. is_symbol_global_and_defined (symtab lib ! n) \<longrightarrow>
       (let h = calculate_gnu_hash (sym_name lib n); b = gnu_bucket lib ! (unat h mod length (gnu_bucket lib))
        in bloom_test (gnu_bloom_filter lib ! unat ((h div 64) AND gnu_maskwords lib)) h (gnu_shift2 lib) \<and>
           b \<noteq> 0 \<and> b \<le> n \<and> list_all (\<lambda>k. gnu_chain lib ! k AND 1 = 0) [b ..< n] \<and>
           drop_bit 1 (gnu_chain lib ! n XOR h) = 0)) [1 ..< length (symtab lib)]"

fun elf_path :: "library \<Rightarrow> nat \<Rightarrow> nat \<Rightarrow> nat list option" where
  "elf_path lib fuel 0 = Some []"
| "elf_path lib 0 (Suc n) = None"
| "elf_path lib (Suc fuel) (Suc n) =
     (if length (symtab lib) \<le> Suc n \<or> length (chain lib) \<le> Suc n then None
      else map_option (Cons (Suc n)) (elf_path lib fuel (chain lib ! Suc n)))"

definition sysv_ok :: "library \<Rightarrow> nat list \<Rightarrow> bool" where
  "sysv_ok lib b \<longleftrightarrow>
     b \<noteq> [] \<and> list_all (\<lambda>n. elf_path lib (length (symtab lib)) n \<noteq> None) b \<and>
     list_all (\<lambda>n. is_symbol_global_and_defined (symtab lib ! n) \<longrightarrow>
       n \<in> set (the (elf_path lib (length (symtab lib)) (b ! (unat (calculate_elf_hash (sym_name lib n)) mod length b)))))
       [1 ..< length (symtab lib)]"

text \<open>The reference: the first symbol of the table, after the reserved one, that has the name, fits the version and is defined.\<close>

definition provides :: "library \<Rightarrow> byte list \<Rightarrow> u16 \<Rightarrow> nat \<Rightarrow> bool" where
  "provides lib name verneed n \<longleftrightarrow>
     projr (check_symbol_version (versym lib) n verneed) \<and> sym_name lib n = name \<and> is_symbol_global_and_defined (symtab lib ! n)"

definition ref_lookup :: "library \<Rightarrow> byte list \<Rightarrow> u16 \<Rightarrow> nat option" where
  "ref_lookup lib name verneed = find (provides lib name verneed) [1 ..< length (symtab lib)]"

lemma symbol_matches_provides:
  assumes "symbols_ok lib" "n < length (symtab lib)"
  shows "symbol_matches lib name verneed n = Inr (provides lib name verneed n)"
proof -
  obtain s where s: "get_string lib (st_name (symtab lib ! n)) = Inr s"
    using assms by (cases "get_string lib (st_name (symtab lib ! n))") (auto simp: symbols_ok_def list_all_length)
  obtain v where v: "check_symbol_version (versym lib) n verneed = Inr v"
    using assms by (auto simp: check_symbol_version_def symbols_ok_def Let_def split: option.splits)
  show ?thesis using s v by (simp add: symbol_matches_def provides_def sym_name_def)
qed

lemma find_upt_Cons: "k < n \<Longrightarrow> find P [k ..< n] = (if P k then Some k else find P [Suc k ..< n])"
  by (simp add: upt_conv_Cons)

lemma gnu_chain_search_find:
  assumes "symbols_ok lib" "length (gnu_chain lib) = length (symtab lib)" "last (gnu_chain lib) AND 1 \<noteq> 0"
    and "k < length (symtab lib)"
    and "\<And>n. k \<le> n \<Longrightarrow> n < length (symtab lib) \<Longrightarrow> provides lib name verneed n \<Longrightarrow>
      (\<forall>j. k \<le> j \<and> j < n \<longrightarrow> gnu_chain lib ! j AND 1 = 0) \<and> drop_bit 1 (gnu_chain lib ! n XOR hash) = 0"
  shows "gnu_chain_search lib name hash verneed k = Inr (find (provides lib name verneed) [k ..< length (symtab lib)])"
  using assms(4,5)
proof (induction "length (symtab lib) - k" arbitrary: k)
  case 0
  then show ?case by simp
next
  case (Suc x)
  let ?len = "length (symtab lib)" and ?D = "provides lib name verneed"
  have k: "k < ?len" by fact
  have m: "symbol_matches lib name verneed k = Inr (?D k)" using symbol_matches_provides [OF assms(1) k] .
  show ?case
  proof (cases "?D k")
    case True
    then show ?thesis
      using k m Suc.prems(2) [of k] assms(2) by (subst gnu_chain_search.simps) (simp add: find_upt_Cons)
  next
    case False
    have step: "gnu_chain_search lib name hash verneed k =
        (if gnu_chain lib ! k AND 1 = 0 then gnu_chain_search lib name hash verneed (k + 1) else Inr None)"
      using k m False assms(2) by (subst gnu_chain_search.simps) simp
    show ?thesis
    proof (cases "gnu_chain lib ! k AND 1 = 0")
      case True
      have "Suc k < ?len"
      proof (rule ccontr)
        assume "\<not> Suc k < ?len"
        then have "k = length (gnu_chain lib) - 1" using k assms(2) by simp
        then have "last (gnu_chain lib) = gnu_chain lib ! k" using k assms(2) by (subst last_conv_nth) auto
        then show False using True assms(3) by simp
      qed
      then have "gnu_chain_search lib name hash verneed (Suc k) = Inr (find ?D [Suc k ..< ?len])"
      proof (rule Suc.hyps(1) [rotated])
        show "x = ?len - Suc k" using Suc.hyps(2) by simp
        show "(\<forall>j. Suc k \<le> j \<and> j < n \<longrightarrow> gnu_chain lib ! j AND 1 = 0) \<and> drop_bit 1 (gnu_chain lib ! n XOR hash) = 0"
          if "Suc k \<le> n" "n < ?len" "?D n" for n
          using Suc.prems(2) [of n] that Suc_leD by blast
      qed
      then show ?thesis using step True False k by (simp add: find_upt_Cons)
    next
      case stop: False
      have "\<not> ?D n" if "k \<le> n" "n < ?len" for n
        using that False stop Suc.prems(2) [of n] by (cases "n = k") auto
      then have "find ?D [k ..< ?len] = None" by (auto simp: find_None_iff)
      then show ?thesis using step stop by simp
    qed
  qed
qed

lemma find_drop_prefix:
  assumes "a \<le> b" "b \<le> n" "\<And>k. a \<le> k \<Longrightarrow> k < b \<Longrightarrow> \<not> P k"
  shows "find P [a ..< n] = find P [b ..< n]"
proof -
  have "[a ..< n] = [a ..< b] @ [b ..< n]" using assms(1,2) by (metis le_Suc_ex upt_add_eq_append)
  moreover have "(\<forall>x \<in> set xs. \<not> P x) \<Longrightarrow> find P (xs @ ys) = find P ys" for xs ys
    by (induction xs) auto
  ultimately show ?thesis using assms(3) by simp
qed

lemma gnu_okD:
  assumes "gnu_ok lib" "1 \<le> n" "n < length (symtab lib)" "provides lib name verneed n"
  defines "h \<equiv> calculate_gnu_hash name"
  defines "b \<equiv> gnu_bucket lib ! (unat h mod length (gnu_bucket lib))"
  shows "bloom_test (gnu_bloom_filter lib ! unat ((h div 64) AND gnu_maskwords lib)) h (gnu_shift2 lib)"
    "b \<noteq> 0" "b \<le> n" "\<forall>j. b \<le> j \<and> j < n \<longrightarrow> gnu_chain lib ! j AND 1 = 0" "drop_bit 1 (gnu_chain lib ! n XOR h) = 0"
proof -
  have "n \<in> set [1 ..< length (symtab lib)]" "is_symbol_global_and_defined (symtab lib ! n)" "sym_name lib n = name"
    using assms(2-4) by (auto simp: provides_def)
  then show "bloom_test (gnu_bloom_filter lib ! unat ((h div 64) AND gnu_maskwords lib)) h (gnu_shift2 lib)"
    "b \<noteq> 0" "b \<le> n" "\<forall>j. b \<le> j \<and> j < n \<longrightarrow> gnu_chain lib ! j AND 1 = 0" "drop_bit 1 (gnu_chain lib ! n XOR h) = 0"
    using assms(1) unfolding gnu_ok_def h_def b_def by (auto simp: list_all_iff Let_def)
qed

text \<open>What both searches of the newer table share: without a bucket there is nothing to find, and otherwise the chain has it.\<close>

lemma gnu_table:
  fixes name :: "byte list"
  assumes "symbols_ok lib" "gnu_ok lib"
  defines "h \<equiv> calculate_gnu_hash name"
  defines "w \<equiv> unat ((h div 64) AND gnu_maskwords lib)"
  defines "b \<equiv> gnu_bucket lib ! (unat h mod length (gnu_bucket lib))"
  shows "w < length (gnu_bloom_filter lib)"
    and "\<not> bloom_test (gnu_bloom_filter lib ! w) h (gnu_shift2 lib) \<or> b = 0 \<Longrightarrow> ref_lookup lib name verneed = None"
    and "b \<noteq> 0 \<Longrightarrow> gnu_chain_search lib name h verneed b = Inr (ref_lookup lib name verneed)"
proof -
  let ?len = "length (symtab lib)" and ?P = "provides lib name verneed"
  note ok = gnu_okD [OF assms(2), of _ name verneed, folded h_def, folded b_def w_def]
  have "w \<le> unat (gnu_maskwords lib)"
    unfolding w_def by (metis and.commute word_and_le1 word_le_nat_alt)
  then show "w < length (gnu_bloom_filter lib)" using assms(2) by (simp add: gnu_ok_def)
  show "ref_lookup lib name verneed = None" if "\<not> bloom_test (gnu_bloom_filter lib ! w) h (gnu_shift2 lib) \<or> b = 0"
    using that ok(1,2) unfolding ref_lookup_def find_None_iff by (metis One_nat_def atLeastLessThan_iff set_upt)
  show "gnu_chain_search lib name h verneed b = Inr (ref_lookup lib name verneed)" if b: "b \<noteq> 0"
  proof -
    have ne: "gnu_bucket lib \<noteq> []" and len: "length (gnu_chain lib) = ?len"
      and lst: "symtab lib = [] \<or> last (gnu_chain lib) AND 1 \<noteq> 0" and bs: "list_all (\<lambda>b. b < ?len) (gnu_bucket lib)"
      using assms(2) unfolding gnu_ok_def by simp_all
    have "b \<in> set (gnu_bucket lib)" unfolding b_def using ne by (intro nth_mem) simp
    then have lt: "b < ?len" using bs by (simp add: list_all_iff)
    have "last (gnu_chain lib) AND 1 \<noteq> 0" using lst lt by auto
    moreover have "(\<forall>j. b \<le> j \<and> j < n \<longrightarrow> gnu_chain lib ! j AND 1 = 0) \<and> drop_bit 1 (gnu_chain lib ! n XOR h) = 0"
      if "b \<le> n" "n < ?len" "?P n" for n
      using that b ok(4,5) [of n] by auto
    ultimately have "gnu_chain_search lib name h verneed b = Inr (find ?P [b ..< ?len])"
      using assms(1) len lt by (intro gnu_chain_search_find)
    moreover have "find ?P [1 ..< ?len] = find ?P [b ..< ?len]"
    proof (rule find_drop_prefix)
      show "\<not> ?P k" if "1 \<le> k" "k < b" for k
        using that lt ok(3) [of k] by auto
    qed (use b lt in auto)
    ultimately show ?thesis by (simp add: ref_lookup_def)
  qed
qed

lemma gnu_lookup_ref:
  assumes "symbols_ok lib" "gnu_ok lib" "find_verdef_version_index lib vi = Inr verneed"
  shows "gnu_lookup lib name vi = Inr (ref_lookup lib name verneed)"
proof -
  have "gnu_bucket lib \<noteq> []" "gnu_shift2 lib < 32" using assms(2) unfolding gnu_ok_def by simp_all
  then show ?thesis
    using gnu_table [OF assms(1,2), of name] assms(3) by (simp add: gnu_lookup_def Let_def not_le)
qed

lemma elf_path_search:
  "symbols_ok lib \<Longrightarrow> elf_path lib fuel n = Some p \<Longrightarrow>
    elf_chain_search lib name verneed n = Some (Inr (find (provides lib name verneed) p))"
proof (induction lib fuel n arbitrary: p rule: elf_path.induct)
  case (1 lib fuel)
  then show ?case by (subst elf_chain_search.simps) simp
next
  case (3 lib fuel n)
  then have b: "\<not> (length (symtab lib) \<le> Suc n \<or> length (chain lib) \<le> Suc n)" by (auto split: if_splits)
  then obtain q where q: "elf_path lib fuel (chain lib ! Suc n) = Some q" "p = Suc n # q" using "3.prems" by auto
  have "symbol_matches lib name verneed (Suc n) = Inr (provides lib name verneed (Suc n))"
    using symbol_matches_provides [OF "3.prems"(1)] b by simp
  then show ?case
    using b q "3.IH" [OF b "3.prems"(1) q(1)] by (subst elf_chain_search.simps) simp
qed simp

lemma find_unique:
  assumes "\<And>m n. P m \<Longrightarrow> P n \<Longrightarrow> m = n" "\<And>n. P n \<Longrightarrow> n \<in> set xs \<longleftrightarrow> n \<in> set ys"
  shows "find P xs = find P ys"
proof (cases "find P xs")
  case None
  then show ?thesis using assms(2) by (metis find_None_iff)
next
  case (Some x)
  then have "P x" "x \<in> set xs" by (auto simp: find_Some_iff)
  then obtain y where y: "find P ys = Some y" using assms(2) by (metis find_None_iff option.exhaust)
  then have "P y" by (auto simp: find_Some_iff)
  then show ?thesis using assms(1) \<open>P x\<close> Some y by auto
qed

definition unique_symbols :: "library \<Rightarrow> byte list \<Rightarrow> u16 \<Rightarrow> bool" where
  "unique_symbols lib name verneed \<longleftrightarrow> length (filter (provides lib name verneed) [1 ..< length (symtab lib)]) \<le> 1"

lemma unique_symbolsD:
  assumes "unique_symbols lib name verneed" "provides lib name verneed m" "provides lib name verneed n"
    and "1 \<le> m" "m < length (symtab lib)" "1 \<le> n" "n < length (symtab lib)"
  shows "m = n"
proof -
  let ?f = "filter (provides lib name verneed) [1 ..< length (symtab lib)]"
  have mn: "m \<in> set ?f" "n \<in> set ?f" using assms by auto
  have "length xs \<le> 1 \<Longrightarrow> x \<in> set xs \<Longrightarrow> y \<in> set xs \<Longrightarrow> x = y" for x y :: nat and xs
    by (cases xs) auto
  then show ?thesis using mn assms(1) unfolding unique_symbols_def by blast
qed

lemma elf_path_range: "elf_path lib fuel n = Some p \<Longrightarrow> x \<in> set p \<Longrightarrow> 1 \<le> x \<and> x < length (symtab lib)"
proof (induction lib fuel n arbitrary: p rule: elf_path.induct)
  case (3 lib fuel n)
  then show ?case by (fastforce split: if_splits)
qed auto

lemma elf_lookup_ref:
  assumes "symbols_ok lib" "bucket lib = Some b" "sysv_ok lib b" "find_verdef_version_index lib vi = Inr verneed"
    and "unique_symbols lib name verneed"
  shows "elf_lookup lib name vi = Some (Inr (ref_lookup lib name verneed))"
proof -
  let ?len = "length (symtab lib)" and ?P = "provides lib name verneed"
  let ?Q = "\<lambda>n. ?P n \<and> 1 \<le> n \<and> n < ?len" and ?start = "b ! (unat (calculate_elf_hash name) mod length b)"
  have ne: "b \<noteq> []" using assms(3) by (simp add: sysv_ok_def)
  then have "?start \<in> set b" by (intro nth_mem) simp
  moreover have "\<forall>n \<in> set b. elf_path lib ?len n \<noteq> None" using assms(3) by (simp add: sysv_ok_def list_all_iff)
  ultimately obtain p where p: "elf_path lib ?len ?start = Some p" by blast
  note range = elf_path_range [OF p]
  have "find ?P p = find ?Q p" by (rule find_cong) (use range in auto)
  also have "\<dots> = find ?Q [1 ..< ?len]"
  proof (rule find_unique)
    show "m = n" if "?Q m" "?Q n" for m n using that unique_symbolsD [OF assms(5)] by blast
    show "n \<in> set p \<longleftrightarrow> n \<in> set [1 ..< ?len]" if "?Q n" for n
      using that p assms(3) by (auto simp: sysv_ok_def list_all_iff provides_def)
  qed
  also have "\<dots> = find ?P [1 ..< ?len]" by (rule find_cong) auto
  finally show ?thesis
    using elf_path_search [OF assms(1) p] ne assms(2,4) by (simp add: elf_lookup_def ref_lookup_def)
qed

section \<open>The list of libraries\<close>

lemma takeWhile_name:
  assumes "0 \<notin> set name" "(0 :: byte) \<in> set xs"
  shows "takeWhile (\<lambda>b. b \<noteq> 0) xs = name \<longleftrightarrow> take (length name + 1) xs = name @ [0]"
proof
  assume n: "takeWhile (\<lambda>b. b \<noteq> 0) xs = name"
  have "dropWhile (\<lambda>b. b \<noteq> 0) xs \<noteq> []" using assms(2) by (auto simp: dropWhile_eq_Nil_conv)
  then obtain ys where "dropWhile (\<lambda>b. b \<noteq> 0) xs = 0 # ys"
    by (metis (mono_tags, lifting) hd_dropWhile list.exhaust_sel)
  then have "xs = name @ 0 # ys" using n by (metis takeWhile_dropWhile_id)
  then show "take (length name + 1) xs = name @ [0]" by simp
next
  assume "take (length name + 1) xs = name @ [0]"
  then have "xs = (name @ [0]) @ drop (length name + 1) xs" by (metis append_take_drop_id)
  then have "xs = name @ 0 # drop (length name + 1) xs" by simp
  moreover have "takeWhile (\<lambda>b. b \<noteq> 0) (name @ 0 # zs) = name" for zs using assms(1) by (induction name) auto
  ultimately show "takeWhile (\<lambda>b. b \<noteq> 0) xs = name" by metis
qed

lemma lookup_matches_provides:
  assumes "symbols_ok lib" "n < length (symtab lib)" "0 \<notin> set name"
  shows "lookup_matches lib name verneed n = Inr (provides lib name verneed n)"
proof -
  let ?i = "st_name (symtab lib ! n)"
  obtain s where s: "get_string lib ?i = Inr s"
    using assms by (cases "get_string lib ?i") (auto simp: symbols_ok_def list_all_length)
  then have z: "0 \<in> set (drop ?i (strtab lib))" "s = takeWhile (\<lambda>b. b \<noteq> 0) (drop ?i (strtab lib))"
    by (auto simp: get_string_def split: if_splits)
  obtain v where v: "check_symbol_version (versym lib) n verneed = Inr v"
    using assms by (auto simp: check_symbol_version_def symbols_ok_def Let_def split: option.splits)
  have "take (length name + 1) (drop ?i (strtab lib)) = name @ [0] \<Longrightarrow> ?i + length name + 1 \<le> length (strtab lib)"
    by (drule arg_cong [of _ _ length]) auto
  then have "s = name \<longleftrightarrow> ?i + length name + 1 \<le> length (strtab lib) \<and> take (length name + 1) (drop ?i (strtab lib)) = name @ [0]"
    using takeWhile_name [OF assms(3) z(1)] z(2) by blast
  then show ?thesis using s v by (auto simp: lookup_matches_def provides_def sym_name_def Let_def)
qed

lemma drop_bit_xor_eq_0: "drop_bit k (a XOR b) = 0 \<longleftrightarrow> drop_bit k a = drop_bit k (b :: u32)"
  by (auto simp: bit_eq_iff bit_xor_iff bit_drop_bit_eq)

lemma lookup_chain_search_eq:
  assumes "symbols_ok lib" "0 \<notin> set name" "find_verdef_version_index lib vi = Inr verneed"
  shows "lookup_chain_search lib name vi hash n = gnu_chain_search lib name hash verneed n"
proof (induction "length (symtab lib) - n" arbitrary: n)
  case 0
  then show ?case by (simp add: lookup_chain_search.simps [of lib] gnu_chain_search.simps [of lib])
next
  case (Suc x)
  then have n: "n < length (symtab lib)" and ih: "lookup_chain_search lib name vi hash (n + 1) = gnu_chain_search lib name hash verneed (n + 1)"
    by simp_all
  show ?case
    using symbol_matches_provides [OF assms(1) n] lookup_matches_provides [OF assms(1) n assms(2)] assms(3) ih
    by (simp add: lookup_chain_search.simps [of lib name vi hash n] gnu_chain_search.simps [of lib name hash verneed n]
        drop_bit_xor_eq_0 del: drop_bit_xor)
qed

definition library_ok :: "byte list \<Rightarrow> version_info option \<Rightarrow> library \<Rightarrow> bool" where
  "library_ok name vi lib \<longleftrightarrow>
     symbols_ok lib \<and> \<not> isl (find_verdef_version_index lib vi) \<and>
     (if is_gnu_hash lib then gnu_ok lib
      else case bucket lib of None \<Rightarrow> False
        | Some b \<Rightarrow> sysv_ok lib b \<and> unique_symbols lib name (projr (find_verdef_version_index lib vi)))"

text \<open>What a library offers under a name: a registered symbol first, then its symbol table.\<close>

definition offers :: "byte list \<Rightarrow> version_info option \<Rightarrow> library \<Rightarrow> symbol_ref option" where
  "offers name vi lib =
     (case symbols lib name of
        Some s \<Rightarrow> Some (Registered s)
      | None \<Rightarrow> map_option Table (ref_lookup lib name (projr (find_verdef_version_index lib vi))))"

fun first_offer :: "byte list \<Rightarrow> version_info option \<Rightarrow> library list \<Rightarrow> (library \<times> symbol_ref) option" where
  "first_offer name vi [] = None"
| "first_offer name vi (lib # libs) =
     (case offers name vi lib of Some r \<Rightarrow> Some (lib, r) | None \<Rightarrow> first_offer name vi libs)"

lemma lookup_in_offers:
  assumes "library_ok name vi lib" "0 \<notin> set name" "general \<or> is_gnu_hash lib"
  shows "lookup_in general name vi lib = Some (Inr (offers name vi lib))"
proof -
  obtain verneed where v: "find_verdef_version_index lib vi = Inr verneed" and ok: "symbols_ok lib"
    using assms(1) unfolding library_ok_def by (cases "find_verdef_version_index lib vi") simp_all
  show ?thesis
  proof (cases "is_gnu_hash lib")
    case True
    then have g: "gnu_ok lib" using assms(1) by (simp add: library_ok_def)
    then have "gnu_bucket lib \<noteq> []" "gnu_shift2 lib < 32" unfolding gnu_ok_def by simp_all
    then show ?thesis
      using True v gnu_table [OF ok g, of name] lookup_chain_search_eq [OF ok assms(2) v]
      by (auto simp: lookup_in_def offers_def needs_sysv_lookup_def Let_def not_le split: option.splits)
  next
    case False
    then obtain b where b: "bucket lib = Some b" "sysv_ok lib b" "unique_symbols lib name verneed"
      using assms(1) v by (auto simp: library_ok_def split: option.splits)
    show ?thesis
      using False assms(3) v b(1) elf_lookup_ref [OF ok b(1,2) v b(3)]
      by (auto simp: lookup_in_def offers_def needs_sysv_lookup_def find_symbol_by_name_def split: option.splits)
  qed
qed

lemma impl_first_offer:
  "list_all (library_ok name vi) libs \<Longrightarrow> 0 \<notin> set name \<Longrightarrow> general \<or> list_all is_gnu_hash libs \<Longrightarrow>
   soinfo_do_lookup_impl general name vi libs = Some (Inr (first_offer name vi libs))"
  by (induction libs) (auto simp: lookup_in_offers split: option.splits)

text \<open>
  C5 (library_search). Looking up a symbol in a list of libraries with well-formed hash tables, in the fast or in the general variant,
  always ends without reading outside of a table, and finds what a plain search finds: the first library in the list
  that offers the name, there a registered symbol or else the first entry of the symbol table with this name, a fitting
  version and a definition. The hash tables, the Bloom filter and the two lookup algorithms do not change the result.
\<close>

theorem library_search:
  assumes "list_all (library_ok name vi) libs" "0 \<notin> set name"
  shows "soinfo_do_lookup tracing name vi libs = Some (Inr (first_offer name vi libs))"
proof (cases "tracing \<or> list_ex needs_sysv_lookup libs")
  case True
  then show ?thesis using impl_first_offer [OF assms, of True] by (simp add: soinfo_do_lookup_def)
next
  case False
  then have "list_all is_gnu_hash libs" by (simp add: list_all_iff list_ex_iff needs_sysv_lookup_def)
  then show ?thesis using False impl_first_offer [OF assms, of False] by (simp add: soinfo_do_lookup_def)
qed

text \<open>A library with one symbol \<^verbatim>\<open>a\<close>, with the newer table, and one with the older table.\<close>

definition sample_sym :: elf_sym where
  "sample_sym = \<lparr>st_name = 1, st_info = 0x12, st_shndx = 7, st_value = 0x1000, st_size = 8\<rparr>"

definition gnu_sample :: library where
  "gnu_sample =
     \<lparr>strtab = [0, 97, 0], symtab = [\<lparr>st_name = 0, st_info = 0, st_shndx = 0, st_value = 0, st_size = 0\<rparr>, sample_sym],
      versym = None, verdefs = [], is_gnu_hash = True, gnu_bucket = [1], gnu_chain = [0, 177671], gnu_maskwords = 0,
      gnu_shift2 = 5, gnu_bloom_filter = [- 1], bucket = None, chain = [], symbols = Map.empty, load_bias = 0\<rparr>"

definition sysv_sample :: library where
  "sysv_sample = gnu_sample\<lparr>is_gnu_hash := False, bucket := Some [1], chain := [0, 0]\<rparr>"

lemma elf_sample_names: "get_string gnu_sample 0 = Inr []" "get_string gnu_sample (Suc 0) = Inr [97]"
  "get_string sysv_sample 0 = Inr []" "get_string sysv_sample (Suc 0) = Inr [97]"
  by (simp_all add: get_string_def gnu_sample_def sysv_sample_def)

lemma sample_hash: "calculate_gnu_hash [97] = 177670" "calculate_elf_hash [97] = 97"
  by (simp_all add: calculate_gnu_hash_def calculate_elf_hash_def Let_def push_bit_eq_mult)

lemma sample_upt: "[Suc 0 ..< 2] = [1]" "[Suc 0 ..< Suc (Suc 0)] = [1]"
  by (simp_all add: upt_rec)

lemma sample_symbols: "symtab gnu_sample = [\<lparr>st_name = 0, st_info = 0, st_shndx = 0, st_value = 0, st_size = 0\<rparr>, sample_sym]"
  "symtab sysv_sample = symtab gnu_sample" "is_symbol_global_and_defined sample_sym"
  by (simp_all add: gnu_sample_def sysv_sample_def is_symbol_global_and_defined_def sample_sym_def)

lemma sample_sym_name: "sym_name gnu_sample (Suc 0) = [97]" "sym_name sysv_sample (Suc 0) = [97]"
  by (simp_all add: sym_name_def sample_symbols elf_sample_names sample_sym_def)

lemma gnu_sample_ok: "library_ok [97] None gnu_sample"
proof -
  have "symbols_ok gnu_sample"
    by (simp add: symbols_ok_def sample_symbols elf_sample_names sample_sym_def) (simp add: gnu_sample_def)
  moreover have "gnu_ok gnu_sample"
    by (simp add: gnu_ok_def sample_symbols sample_sym_name sample_hash sample_upt bloom_test_def Let_def)
      (simp add: gnu_sample_def)
  ultimately show ?thesis by (simp add: library_ok_def find_verdef_version_index_def) (simp add: gnu_sample_def)
qed

lemma gnu_sample_lookup: "ref_lookup gnu_sample [97] kVersymNotNeeded = Some 1"
  by (simp add: ref_lookup_def sample_symbols sample_upt provides_def sample_sym_name check_symbol_version_def)
    (simp add: gnu_sample_def)

lemma sysv_sample_ok: "library_ok [97] None sysv_sample"
proof -
  have b: "bucket sysv_sample = Some [1]" "\<not> is_gnu_hash sysv_sample" "versym sysv_sample = None" "chain sysv_sample = [0, 0]"
    by (simp_all add: sysv_sample_def gnu_sample_def)
  have "symbols_ok sysv_sample"
    by (simp add: symbols_ok_def sample_symbols elf_sample_names sample_sym_def b)
  moreover have "sysv_ok sysv_sample [1]"
    by (simp add: sysv_ok_def sample_symbols sample_sym_name sample_upt b)
  moreover have "unique_symbols sysv_sample [97] kVersymNotNeeded"
    by (simp add: unique_symbols_def sample_symbols sample_upt)
  ultimately show ?thesis by (simp add: library_ok_def find_verdef_version_index_def b)
qed

lemma gnu_sample_offers: "offers [97] None gnu_sample = Some (Table 1)"
proof -
  have "symbols gnu_sample [97] = None" by (simp add: gnu_sample_def)
  then show ?thesis using gnu_sample_lookup by (simp add: offers_def find_verdef_version_index_def)
qed

theorem library_search_witness:
  "list_all (library_ok [97] None) [gnu_sample, sysv_sample] \<and>
   soinfo_do_lookup False [97] None [gnu_sample, sysv_sample] = Some (Inr (Some (gnu_sample, Table 1)))"
proof -
  have "first_offer [97] None [gnu_sample, sysv_sample] = Some (gnu_sample, Table 1)"
    using gnu_sample_offers by simp
  then show ?thesis
    using library_search [of "[97]" None "[gnu_sample, sysv_sample]" False] gnu_sample_ok sysv_sample_ok by simp
qed

text \<open>
  C39 (gnu_only_library_missed). A library that has only the newer hash table, as most linkers now produce them: relocation finds its
  symbols, but \<^verbatim>\<open>find_symbol_by_name\<close>, on which \<^verbatim>\<open>dlsym\<close> relies, does not find any of them, because it tests the
  bucket pointer of the older table before it looks at which table there is.
\<close>

theorem gnu_only_library_missed:
  assumes "library_ok name vi lib" "0 \<notin> set name" "is_gnu_hash lib" "bucket lib = None" "symbols lib name = None"
    and "offers name vi lib = Some (Table n)"
  shows "soinfo_do_lookup tracing name vi [lib] = Some (Inr (Some (lib, Table n))) \<and>
    gnu_lookup lib name vi = Inr (Some n) \<and> find_symbol_by_name lib name vi = Some (Inr None)"
proof -
  obtain verneed where v: "find_verdef_version_index lib vi = Inr verneed" and ok: "symbols_ok lib" "gnu_ok lib"
    using assms(1,3) unfolding library_ok_def by (cases "find_verdef_version_index lib vi") simp_all
  have "gnu_lookup lib name vi = Inr (Some n)"
    using gnu_lookup_ref [OF ok v] assms(5,6) v by (simp add: offers_def)
  moreover have "soinfo_do_lookup_impl general name vi [lib] = Some (Inr (Some (lib, Table n)))" for general
    using impl_first_offer [of name vi "[lib]" general] assms(1,2,3,6) by simp
  ultimately show ?thesis using assms(4,5) by (simp add: soinfo_do_lookup_def find_symbol_by_name_def)
qed

theorem gnu_only_library_missed_witness:
  "gnu_lookup gnu_sample [97] None = Inr (Some 1) \<and> find_symbol_by_name gnu_sample [97] None = Some (Inr None)"
proof -
  have s: "is_gnu_hash gnu_sample" "bucket gnu_sample = None" "symbols gnu_sample [97] = None" by (simp_all add: gnu_sample_def)
  from gnu_only_library_missed [OF gnu_sample_ok _ s gnu_sample_offers] show ?thesis by simp
qed

end
