(* ===== verification/Base64.thy ===== *)
theory Base64
  imports Cxx_Text
begin

text \<open>
  Base64 (\<^verbatim>\<open>base64/src/base64.cpp\<close>). Strings are lists of bytes. The encoder is written over the block
  index, as in the source. The decoder indexes a table of 256 bytes with a \<^verbatim>\<open>char\<close>, which is signed on the platforms the
  launcher runs on: a byte of 128 or more is an index below the table, which is undefined, as is a read behind the
  terminator of the input.
\<close>

section \<open>Encoding\<close>

definition base64_table :: "byte list" where
  "base64_table = map of_nat ([65..<91] @ [97..<123] @ [48..<58] @ [43, 47])"

definition base64_char :: "byte \<Rightarrow> byte" where
  "base64_char n = base64_table ! unat n"

definition encode_block :: "byte list \<Rightarrow> nat \<Rightarrow> byte list" where
  "encode_block input i =
     (let i0 = input ! (i * 3);
          i1 = (if length input > i * 3 + 1 then input ! (i * 3 + 1) else 0);
          i2 = (if length input > i * 3 + 2 then input ! (i * 3 + 2) else 0);
          n0 = drop_bit 2 i0 AND 0x3F;
          n1 = push_bit 4 (i0 AND 3) OR (drop_bit 4 i1 AND 0xF);
          n2 = push_bit 2 (i1 AND 0xF) OR (drop_bit 6 i2 AND 3);
          n3 = i2 AND 0x3F
      in [base64_char n0, base64_char n1,
          if length input > i * 3 + 1 then base64_char n2 else 61,
          if length input > i * 3 + 2 then base64_char n3 else 61])"

definition base64_encode :: "byte list \<Rightarrow> byte list" where
  "base64_encode input = concat (map (encode_block input) [0..<(length input + 2) div 3])"

section \<open>Decoding\<close>

definition initReverseTable :: "byte list" where
  "initReverseTable =
     (fold (\<lambda>i t. t[unat (base64_table ! i) := of_nat i]) [0..<64] (replicate 256 255))[61 := 64]"

text \<open>
  The inner loop: the value of the next character that is not skipped, for position \<open>n\<close> of a group with \<open>prev\<close> the value before
  it. A character is looked for in \<open>skip\<close> with \<^verbatim>\<open>strchr\<close>, which also finds the terminator.
\<close>

function read_sextet :: "byte list \<Rightarrow> byte list \<Rightarrow> nat \<Rightarrow> byte \<Rightarrow> nat \<Rightarrow> (byte \<times> nat) cxx" where
  "read_sextet skip input n prev p =
     (if p > length input then Inl Undefined
      else let c = (if p = length input then 0 else input ! p) in
      if c \<ge> 128 then Inl Undefined
      else let v = initReverseTable ! unat c in
      if v \<noteq> 255 then
        if (v = 64 \<and> n < 2) \<or> (n = 3 \<and> prev = 64 \<and> v \<noteq> 64) then Inl (RuntimeError ''Invalid '=' character'')
        else Inr (v, p + 1)
      else if c \<noteq> 0 \<and> c \<notin> set skip then Inl (RuntimeError (''Invalid character at '' @ dec_nat p))
      else if p + 1 = length input then Inl (RuntimeError ''Unexpected end of input'')
      else read_sextet skip input n prev (p + 1))"
  by pat_completeness auto
termination by (relation "measure (\<lambda>(skip, input, n, prev, p). length input + 1 - p)") auto

declare read_sextet.simps [simp del]

text \<open>One round of the outer loop: the bytes appended to the output and the position after the group.\<close>

definition decode_group :: "byte list \<Rightarrow> byte list \<Rightarrow> nat \<Rightarrow> (byte list \<times> nat) cxx" where
  "decode_group skip input p =
     cxx_bind (read_sextet skip input 0 0 p) (\<lambda>(a, p).
     cxx_bind (read_sextet skip input 1 a p) (\<lambda>(b, p).
     cxx_bind (read_sextet skip input 2 b p) (\<lambda>(c, p).
     cxx_bind (read_sextet skip input 3 c p) (\<lambda>(d, p).
       Inr ([push_bit 2 a OR (drop_bit 4 b AND 3)] @
            (if c \<noteq> 64 then [push_bit 4 (b AND 0xF) OR (drop_bit 2 c AND 0xF)] else []) @
            (if c \<noteq> 64 \<and> d \<noteq> 64 then [push_bit 6 (c AND 3) OR d] else []), p)))))"

lemma read_sextet_advances: "read_sextet skip input n prev p = Inr (v, q) \<Longrightarrow> p < q"
proof (induction skip input n prev p rule: read_sextet.induct)
  case (1 skip input n prev p)
  show ?case
  proof (rule ccontr)
    assume "\<not> p < q"
    then show False
      using 1 by (subst (asm) (2) read_sextet.simps) (auto simp: Let_def split: if_splits)
  qed
qed

lemma decode_group_advances: "decode_group skip input p = Inr (bs, q) \<Longrightarrow> p < q"
  by (auto simp: decode_group_def cxx_bind_eq_Inr dest!: read_sextet_advances)

function decode_loop :: "byte list \<Rightarrow> byte list \<Rightarrow> nat \<Rightarrow> byte list cxx" where
  "decode_loop skip input p =
     (if p < length input
      then cxx_bind (decode_group skip input p) (\<lambda>r.
           cxx_bind (decode_loop skip input (snd r)) (\<lambda>bs. Inr (fst r @ bs)))
      else Inr [])"
  by pat_completeness auto
termination
  by (relation "measure (\<lambda>(skip, input, p). length input - p)") (auto dest: decode_group_advances)

declare decode_loop.simps [simp del]

definition base64_decode :: "byte list \<Rightarrow> byte list \<Rightarrow> byte list cxx" where
  "base64_decode input skip = decode_loop skip input 0"

section \<open>Round trip\<close>

lemma fold_update_other:
  "k \<notin> f ` set xs \<Longrightarrow> fold (\<lambda>i t. t[f i := g i]) xs t ! k = t ! k"
  by (induction xs arbitrary: t) auto

lemma length_fold_update [simp]: "length (fold (\<lambda>i t. t[f i := g i]) xs t) = length t"
  by (induction xs arbitrary: t) simp_all

lemma fold_update_same:
  "distinct (map f xs) \<Longrightarrow> i \<in> set xs \<Longrightarrow> f i < length t \<Longrightarrow> fold (\<lambda>i t. t[f i := g i]) xs t ! f i = g i"
proof (induction xs arbitrary: t)
  case (Cons x xs)
  show ?case
  proof (cases "i \<in> set xs")
    case False
    then have "i = x" "f i \<notin> f ` set xs" using Cons.prems by auto
    then show ?thesis using Cons.prems by (simp add: fold_update_other)
  qed (use Cons in simp)
qed simp

lemma unat_table:
  "map unat base64_table = [65..<91] @ [97..<123] @ [48..<58] @ [43, 47]"
proof -
  have "unat (of_nat k :: byte) = k" if "k \<in> set ([65..<91] @ [97..<123] @ [48..<58] @ [43, 47])" for k
    using that by (auto simp: unat_of_nat)
  then have "map (unat \<circ> (of_nat :: nat \<Rightarrow> byte)) ([65..<91] @ [97..<123] @ [48..<58] @ [43, 47]) =
      [65..<91] @ [97..<123] @ [48..<58] @ [43, 47]"
    by (intro map_idI) (simp only: comp_apply)
  then show ?thesis by (simp only: base64_table_def map_map)
qed

lemma length_table: "length base64_table = 64"
  by (simp add: base64_table_def)

lemma reverse_table:
  assumes "i < 64"
  shows "base64_table ! i < 128 \<and> initReverseTable ! unat (base64_table ! i) = of_nat i"
proof -
  let ?f = "\<lambda>i. unat (base64_table ! i)"
  have "map ?f [0..<64] = map unat base64_table"
    using length_table by (intro nth_equalityI) simp_all
  then have f: "map ?f [0..<64] = [65..<91] @ [97..<123] @ [48..<58] @ [43, 47]" using unat_table by simp
  have mem: "?f i \<in> set ([65..<91] @ [97..<123] @ [48..<58] @ [43, 47])"
    unfolding f [symmetric] using assms by simp
  then have small: "?f i < 128" and pad: "?f i \<noteq> 61" by auto
  have "fold (\<lambda>i t. t[?f i := of_nat i]) [0..<64] (replicate 256 255) ! ?f i = (of_nat i :: byte)"
    by (rule fold_update_same) (use assms small f in \<open>simp_all del: upt_Suc\<close>)
  then show ?thesis using small pad by (simp add: initReverseTable_def word_less_nat_alt)
qed

lemma reverse_pad: "initReverseTable ! 61 = 64"
  by (simp add: initReverseTable_def)

lemma read_table_char:
  assumes "v < 64" and "p < length input" and "input ! p = base64_char v" and "n = 3 \<longrightarrow> prev \<noteq> 64"
  shows "read_sextet skip input n prev p = Inr (v, p + 1)"
proof -
  have v: "unat v < 64" using assms(1) by (simp add: word_less_nat_alt)
  have r: "input ! p < 128" "initReverseTable ! unat (input ! p) = v"
    using reverse_table [OF v] assms(3) by (simp_all add: base64_char_def)
  have "v \<noteq> 255" "v \<noteq> 64" using assms(1) by auto
  then show ?thesis
    using assms(2,4) r by (subst read_sextet.simps) (simp add: Let_def not_le)
qed

lemma read_pad:
  assumes "p < length input" and "input ! p = 61" and "2 \<le> n"
  shows "read_sextet skip input n prev p = Inr (64, p + 1)"
  using assms reverse_pad by (subst read_sextet.simps) (simp add: Let_def word_le_nat_alt)

lemma encode_block_Suc: "encode_block (a # b # c # xs) (Suc i) = encode_block xs i"
  by (simp add: encode_block_def Let_def)

lemma encode_step: "base64_encode (a # b # c # xs) = encode_block [a, b, c] 0 @ base64_encode xs"
proof -
  have n: "(length (a # b # c # xs) + 2) div 3 = Suc ((length xs + 2) div 3)" by simp
  have "[0..<(length (a # b # c # xs) + 2) div 3] = 0 # map Suc [0..<(length xs + 2) div 3]"
    unfolding n by (simp add: upt_conv_Cons map_Suc_upt del: upt_Suc)
  moreover have "encode_block (a # b # c # xs) 0 = encode_block [a, b, c] 0"
    by (simp add: encode_block_def Let_def)
  ultimately show ?thesis
    by (simp add: base64_encode_def comp_def encode_block_Suc del: upt_Suc)
qed

text \<open>The four values of a block and what the decoder makes of them.\<close>

definition sextets :: "byte \<Rightarrow> byte \<Rightarrow> byte \<Rightarrow> byte list" where
  "sextets a b c = [drop_bit 2 a AND 0x3F, push_bit 4 (a AND 3) OR (drop_bit 4 b AND 0xF),
     push_bit 2 (b AND 0xF) OR (drop_bit 6 c AND 3), c AND 0x3F]"

lemma and_masks:
  "(w :: byte) AND 0x3F = take_bit 6 w" "w AND 0xF = take_bit 4 w" "w AND 3 = take_bit 2 w"
  by (simp_all add: take_bit_eq_mask mask_eq_exp_minus_1)

lemma sextets_small: "v \<in> set (sextets a b c) \<Longrightarrow> v < 64"
proof -
  have "take_bit 6 v = v \<Longrightarrow> v < 64" for v :: byte
    using unat_take_bit [of 6 v] mod_less_divisor [of 64 "unat v"] by (simp add: word_less_nat_alt)
  moreover have "take_bit 6 v = v" if "v \<in> set (sextets a b c)" for v
    using that by (auto simp: sextets_def and_masks intro!: bit_word_eqI simp: bit_simps)
  ultimately show "v \<in> set (sextets a b c) \<Longrightarrow> v < 64" by blast
qed

lemma byte_eqI:
  fixes a b :: byte
  assumes "bit a 0 = bit b 0" "bit a 1 = bit b 1" "bit a 2 = bit b 2" "bit a 3 = bit b 3"
    "bit a 4 = bit b 4" "bit a 5 = bit b 5" "bit a 6 = bit b 6" "bit a 7 = bit b 7"
  shows "a = b"
proof (rule bit_word_eqI)
  fix n assume "n < LENGTH(8)"
  then have "n \<in> {0, 1, 2, 3, 4, 5, 6, 7}" by auto
  then show "bit a n = bit b n" using assms by auto
qed

lemma sextets_join:
  "sextets a b c = [n0, n1, n2, n3] \<Longrightarrow>
   push_bit 2 n0 OR (drop_bit 4 n1 AND 3) = a \<and> push_bit 4 (n1 AND 0xF) OR (drop_bit 2 n2 AND 0xF) = b \<and>
   push_bit 6 (n2 AND 3) OR n3 = c"
  by (intro conjI byte_eqI) (auto simp: sextets_def and_masks bit_simps)

lemma group_at:
  assumes "take 4 (drop p input) = [x0, x1, x2, x3]"
  shows "p + 3 < length input \<and> input ! p = x0 \<and> input ! (p + 1) = x1 \<and> input ! (p + 2) = x2 \<and> input ! (p + 3) = x3"
proof -
  have len: "p + 3 < length input" using arg_cong [OF assms, of length] by simp
  have "input ! (p + i) = [x0, x1, x2, x3] ! i" if "i < 4" for i
    unfolding assms [symmetric] using that len by simp
  from this [of 0] this [of 1] this [of 2] this [of 3] show ?thesis using len by simp
qed

text \<open>A group of the encoding, read at the position where it stands.\<close>

lemma decode_full_group:
  assumes "take 4 (drop p input) = encode_block [a, b, c] 0"
  shows "decode_group skip input p = Inr ([a, b, c], p + 4)"
proof -
  obtain n0 n1 n2 n3 where n: "sextets a b c = [n0, n1, n2, n3]" by (auto simp: sextets_def)
  have small: "n0 < 64" "n1 < 64" "n2 < 64" "n3 < 64" using sextets_small [of _ a b c] n by auto
  have "encode_block [a, b, c] 0 = map base64_char (sextets a b c)"
    by (simp add: encode_block_def sextets_def Let_def)
  then have inp: "p + 3 < length input" "input ! p = base64_char n0" "input ! (p + 1) = base64_char n1"
    "input ! (p + 2) = base64_char n2" "input ! (p + 3) = base64_char n3"
    using group_at [of p input] assms n by auto
  have "n2 \<noteq> 64" "n3 \<noteq> 64" using small by auto
  then show ?thesis
    using inp small sextets_join [OF n]
      read_table_char [of n0 p input 0 0] read_table_char [of n1 "p + 1" input 1 n0]
      read_table_char [of n2 "p + 2" input 2 n1] read_table_char [of n3 "p + 3" input 3 n2]
    by (simp add: decode_group_def eval_nat_numeral)
qed

lemma decode_short_groups:
  "take 4 (drop p input) = encode_block [a] 0 \<Longrightarrow> decode_group skip input p = Inr ([a], p + 4)"
  "take 4 (drop p input) = encode_block [a, b] 0 \<Longrightarrow> decode_group skip input p = Inr ([a, b], p + 4)"
proof -
  assume g: "take 4 (drop p input) = encode_block [a] 0"
  obtain n0 n1 n2 n3 where n: "sextets a 0 0 = [n0, n1, n2, n3]" by (auto simp: sextets_def)
  have small: "n0 < 64" "n1 < 64" using sextets_small [of _ a 0 0] n by auto
  have "encode_block [a] 0 = [base64_char n0, base64_char n1, 61, 61]"
    using n by (simp add: encode_block_def sextets_def Let_def)
  then have inp: "p + 3 < length input" "input ! p = base64_char n0" "input ! (p + 1) = base64_char n1"
    "input ! (p + 2) = 61" "input ! (p + 3) = 61" using group_at [of p input] g by auto
  show "decode_group skip input p = Inr ([a], p + 4)"
    using inp small sextets_join [OF n] read_table_char [of n0 p input 0 0] read_table_char [of n1 "p + 1" input 1 n0]
      read_pad [of "p + 2" input 2 skip n1] read_pad [of "p + 3" input 3 skip 64]
    by (simp add: decode_group_def eval_nat_numeral)
next
  assume g: "take 4 (drop p input) = encode_block [a, b] 0"
  obtain n0 n1 n2 n3 where n: "sextets a b 0 = [n0, n1, n2, n3]" by (auto simp: sextets_def)
  have small: "n0 < 64" "n1 < 64" "n2 < 64" using sextets_small [of _ a b 0] n by auto
  have "encode_block [a, b] 0 = [base64_char n0, base64_char n1, base64_char n2, 61]"
    using n by (simp add: encode_block_def sextets_def Let_def)
  then have inp: "p + 3 < length input" "input ! p = base64_char n0" "input ! (p + 1) = base64_char n1"
    "input ! (p + 2) = base64_char n2" "input ! (p + 3) = 61" using group_at [of p input] g by auto
  have "n2 \<noteq> 64" using small by auto
  then show "decode_group skip input p = Inr ([a, b], p + 4)"
    using inp small sextets_join [OF n] read_table_char [of n0 p input 0 0] read_table_char [of n1 "p + 1" input 1 n0]
      read_table_char [of n2 "p + 2" input 2 n1] read_pad [of "p + 3" input 3 skip n2]
    by (simp add: decode_group_def eval_nat_numeral)
qed

lemma length_encode_block [simp]: "length (encode_block xs i) = 4"
  by (simp add: encode_block_def Let_def)

lemma encode_short:
  "base64_encode [] = []" "base64_encode [a] = encode_block [a] 0" "base64_encode [a, b] = encode_block [a, b] 0"
  by (simp_all add: base64_encode_def)

lemma decode_loop_group:
  assumes "decode_group skip (pre @ g @ rest) (length pre) = Inr (bs, length pre + 4)" and "length g = 4"
  shows "decode_loop skip (pre @ g @ rest) (length pre) =
    cxx_bind (decode_loop skip ((pre @ g) @ rest) (length (pre @ g))) (\<lambda>r. Inr (bs @ r))"
  using assms by (subst decode_loop.simps) simp

lemma decode_loop_end: "decode_loop skip input (length input) = Inr []"
  by (subst decode_loop.simps) simp

lemma decode_encode_from: "decode_loop skip (pre @ base64_encode xs) (length pre) = Inr xs"
proof (induction "length xs" arbitrary: xs pre rule: less_induct)
  case less
  consider "xs = []" | a where "xs = [a]" | a b where "xs = [a, b]" | a b c ys where "xs = a # b # c # ys"
    by (metis list.exhaust)
  then show ?case
  proof cases
    case 1
    then show ?thesis by (simp add: encode_short decode_loop_end)
  next
    case (2 a)
    have "decode_group skip (pre @ encode_block [a] 0 @ []) (length pre) = Inr ([a], length pre + 4)"
      by (rule decode_short_groups) simp
    from decode_loop_group [OF this] 2 show ?thesis using decode_loop_end [of skip "pre @ encode_block [a] 0"]
      by (simp add: encode_short)
  next
    case (3 a b)
    have "decode_group skip (pre @ encode_block [a, b] 0 @ []) (length pre) = Inr ([a, b], length pre + 4)"
      by (rule decode_short_groups) simp
    from decode_loop_group [OF this] 3 show ?thesis using decode_loop_end [of skip "pre @ encode_block [a, b] 0"]
      by (simp add: encode_short)
  next
    case (4 a b c ys)
    have "decode_group skip (pre @ encode_block [a, b, c] 0 @ base64_encode ys) (length pre) = Inr ([a, b, c], length pre + 4)"
      by (rule decode_full_group) simp
    from decode_loop_group [OF this] show ?thesis
      using less [of ys "pre @ encode_block [a, b, c] 0"] 4 by (simp add: encode_step)
  qed
qed

section \<open>Input of a wrong length\<close>

lemma reverse_zero: "initReverseTable ! 0 = 255"
proof -
  have "0 \<notin> set (map unat base64_table)" unfolding unat_table by simp
  then have "(0::nat) \<notin> (\<lambda>i. unat (base64_table ! i)) ` set [0..<64]"
    using length_table by (metis (no_types, lifting) atLeastLessThan_iff imageE image_eqI list.set_map nth_mem set_upt)
  then show ?thesis by (simp add: initReverseTable_def fold_update_other)
qed

lemma read_end: "read_sextet skip input n prev (length input) = Inl Undefined"
proof -
  have "read_sextet skip input n prev (Suc (length input)) = Inl Undefined" by (subst read_sextet.simps) simp
  then show ?thesis using reverse_zero by (subst read_sextet.simps) (simp add: Let_def)
qed

definition base64_text :: "byte list \<Rightarrow> bool" where
  "base64_text input \<longleftrightarrow> set input \<subseteq> set base64_table"

lemma read_text:
  assumes "base64_text input" and "p < length input" and "n = 3 \<longrightarrow> prev < 64"
  shows "\<exists>v. read_sextet skip input n prev p = Inr (v, p + 1) \<and> v < 64"
proof -
  obtain i where i: "i < 64" "input ! p = base64_table ! i"
    using assms(1,2) length_table by (metis base64_text_def in_set_conv_nth nth_mem subsetD)
  then have "input ! p = base64_char (of_nat i)" "(of_nat i :: byte) < 64"
    by (simp_all add: base64_char_def unat_of_nat word_less_nat_alt)
  then show ?thesis using read_table_char [of "of_nat i" p input n prev skip] assms(2,3) by auto
qed

lemma decode_cut_short:
  "base64_text input \<Longrightarrow> p \<le> length input \<Longrightarrow> (length input - p) mod 4 \<noteq> 0 \<Longrightarrow> decode_loop skip input p = Inl Undefined"
proof (induction skip input p rule: decode_loop.induct)
  case (1 skip input p)
  have p: "p < length input" using "1.prems" by (cases "p = length input") auto
  obtain a where a: "read_sextet skip input 0 0 p = Inr (a, p + 1)"
    using read_text [OF "1.prems"(1) p, of 0] by auto
  consider "p + 1 = length input" | "p + 2 = length input" | "p + 3 = length input" | "p + 4 \<le> length input" using p by linarith
  then have "decode_group skip input p = Inl Undefined \<or>
      (\<exists>bs. decode_group skip input p = Inr (bs, p + 4) \<and> p + 4 \<le> length input)"
  proof cases
    case 1
    with a read_end [of skip input] show ?thesis by (simp add: decode_group_def)
  next
    case 2
    obtain b where "read_sextet skip input 1 a (p + 1) = Inr (b, p + 2)"
      using read_text [OF "1.prems"(1), of "p + 1" 1] 2 by auto
    with a 2 read_end [of skip input] show ?thesis by (simp add: decode_group_def)
  next
    case 3
    obtain b where b: "read_sextet skip input 1 a (p + 1) = Inr (b, p + 2)"
      using read_text [OF "1.prems"(1), of "p + 1" 1] 3 by auto
    obtain c where "read_sextet skip input 2 b (p + 2) = Inr (c, p + 3)"
      using read_text [OF "1.prems"(1), of "p + 2" 2] 3 by (auto simp: numeral_3_eq_3)
    with a b 3 read_end [of skip input] show ?thesis by (simp add: decode_group_def)
  next
    case 4
    obtain b where b: "read_sextet skip input 1 a (p + 1) = Inr (b, p + 2)"
      using read_text [OF "1.prems"(1), of "p + 1" 1] 4 by auto
    obtain c where c: "read_sextet skip input 2 b (p + 2) = Inr (c, p + 3)" "c < 64"
      using read_text [OF "1.prems"(1), of "p + 2" 2] 4 by (auto simp: numeral_3_eq_3)
    obtain d where "read_sextet skip input 3 c (p + 3) = Inr (d, p + 4)"
      using read_text [OF "1.prems"(1), of "p + 3" 3 c] 4 c(2) by (auto simp: eval_nat_numeral)
    with a b c 4 show ?thesis by (simp add: decode_group_def)
  qed
  then show ?case
  proof (elim disjE exE conjE)
    assume "decode_group skip input p = Inl Undefined"
    then show ?thesis using p by (subst decode_loop.simps) simp
  next
    fix bs assume g: "decode_group skip input p = Inr (bs, p + 4)" "p + 4 \<le> length input"
    have "(length input - (p + 4)) mod 4 \<noteq> 0"
      using "1.prems"(3) g(2) by (metis add.commute diff_diff_left le_add_diff_inverse2 mod_add_self2 nat_le_linear add_leD2 le_diff_conv2)
    then have "decode_loop skip input (p + 4) = Inl Undefined"
      using "1.IH" [OF p g(1)] "1.prems"(1) g(2) by simp
    then show ?thesis using p g(1) by (subst decode_loop.simps) simp
  qed
qed

section \<open>Properties\<close>

text \<open>
  C29 (base64_roundtrip). Decoding what the encoder made of any string of bytes gives the string back, whatever
  characters the decoder is told to skip; the decoder never reports an error or reads out of bounds there.
\<close>

theorem base64_roundtrip: "base64_decode (base64_encode xs) skip = Inr xs"
  using decode_encode_from [of skip "[]" xs] by (simp add: base64_decode_def)

text \<open>
  A text of Base64 characters whose length is not a multiple of four is not rejected: the decoder takes
  the terminator of the string for a character to skip and reads behind the end of the input, which is undefined.
\<close>

theorem base64_wrong_length:
  assumes "base64_text input" and "length input mod 4 \<noteq> 0"
  shows "base64_decode input skip = Inl Undefined"
  using decode_cut_short [OF assms(1), of 0 skip] assms(2) by (simp add: base64_decode_def)

theorem base64_wrong_length_witness: "base64_decode [81, 81, 65] [13, 10] = Inl Undefined"
  by (rule base64_wrong_length) (simp_all add: base64_text_def base64_table_def)

end
