(* ===== verification/Util_Props.thy ===== *)
theory Util_Props
  imports Cxx_Text
begin

text \<open>
  Property files (\<^verbatim>\<open>properties-parser\<close>) and command lines (\<^verbatim>\<open>arg-parser\<close>).

  Both register typed variables under names and set them from text. A variable is a value of \<open>prop_val\<close>; the
  constructor is the template argument. The table of a property list is an association list in the order in which the source's hash map is
  traversed (any order). \<^verbatim>\<open>float\<close> variables are not modelled. An exception leaves the variables that were set before it
  changed, so the operations return the state together with the outcome.
\<close>

section \<open>Typed values\<close>

datatype prop_val = PString string | PInt int | PBool bool

fun to_lower :: "char \<Rightarrow> char" where
  "to_lower c = (if 65 \<le> (of_char c :: nat) \<and> (of_char c :: nat) \<le> 90 then char_of ((of_char c :: nat) + 32) else c)"

definition strcasecmp_eq :: "string \<Rightarrow> string \<Rightarrow> bool" where
  "strcasecmp_eq a b \<longleftrightarrow> map to_lower a = map to_lower b"

text \<open>A C string ends at the first null character.\<close>

definition c_str :: "string \<Rightarrow> string" where
  "c_str s = takeWhile (\<lambda>c. c \<noteq> CHR 0x00) s"

definition parse_bool :: "string \<Rightarrow> bool cxx" where
  "parse_bool value =
     (let v = c_str value in
      if v = ''1'' \<or> strcasecmp_eq v ''true'' \<or> strcasecmp_eq v ''on'' \<or> strcasecmp_eq v ''yes'' then Inr True
      else if v = ''0'' \<or> strcasecmp_eq v ''false'' \<or> strcasecmp_eq v ''off'' \<or> strcasecmp_eq v ''no'' then Inr False
      else Inl (InvalidArgument ''Invalid boolean value''))"


fun serialize_value :: "prop_val \<Rightarrow> string" where
  "serialize_value (PString s) = s"
| "serialize_value (PInt i) = dec_int i"
| "serialize_value (PBool b) = (if b then ''true'' else ''false'')"

section \<open>Property lists\<close>

record property_list =
  props :: "(string \<times> prop_val) list"
  unknown_props :: "(string \<times> string) list"

text \<open>\<^verbatim>\<open>insert\<close> does not replace an entry.\<close>

definition register_property :: "string \<Rightarrow> prop_val \<Rightarrow> property_list \<Rightarrow> property_list" where
  "register_property name def p =
     (if map_of (props p) name \<noteq> None then p else p\<lparr>props := props p @ [(name, def)]\<rparr>)"

fun set_entry :: "string \<Rightarrow> 'v \<Rightarrow> (string \<times> 'v) list \<Rightarrow> (string \<times> 'v) list" where
  "set_entry n v [] = [(n, v)]"
| "set_entry n v ((m, w) # xs) = (if m = n then (m, v) # xs else (m, w) # set_entry n v xs)"








section \<open>Command lines\<close>

type_synonym arg_list = "string list"

definition next_arg :: "arg_list \<Rightarrow> (string \<times> arg_list) cxx" where
  "next_arg l = (case l of [] \<Rightarrow> Inl (OutOfRange ''Missing argument'') | a # l' \<Rightarrow> Inr (a, l'))"

definition next_value_or_null :: "arg_list \<Rightarrow> string option \<times> arg_list" where
  "next_value_or_null l = (case l of
     [] \<Rightarrow> (None, l)
   | a # l' \<Rightarrow> if a \<noteq> [] \<and> hd a = CHR ''-'' then (None, l) else (Some a, l'))"

definition next_value :: "arg_list \<Rightarrow> (string \<times> arg_list) cxx" where
  "next_value l = (case next_value_or_null l of
     (None, _) \<Rightarrow> Inl (OutOfRange ''Missing argument'') | (Some a, l') \<Rightarrow> Inr (a, l'))"

text \<open>A boolean argument takes the next word as its value unless that starts with a dash.\<close>

fun handle_value :: "prop_val \<Rightarrow> arg_list \<Rightarrow> (prop_val \<times> arg_list) cxx" where
  "handle_value (PString _) l = cxx_bind (next_arg l) (\<lambda>(a, l'). Inr (PString a, l'))"
| "handle_value (PInt _) l = cxx_bind (next_arg l) (\<lambda>(a, l'). cxx_bind (stoi a) (\<lambda>i. Inr (PInt i, l')))"
| "handle_value (PBool _) l =
     (case next_value_or_null l of
        (None, l') \<Rightarrow> Inr (PBool True, l')
      | (Some v, l') \<Rightarrow> cxx_bind (parse_bool v) (\<lambda>b. Inr (PBool b, l')))"

text \<open>
  The variables by index, and the table of handlers: names and short names to the index of the variable they set.
\<close>

record arg_parser =
  handlers :: "(string \<times> nat) list"
  help_entries :: "(string \<times> string \<times> string) list"
  arg_values :: "prop_val list"

definition new_arg_parser :: arg_parser where
  "new_arg_parser =
     \<lparr>handlers = [], help_entries = [(''--help'', ''-h'', ''Show this help information'')], arg_values = []\<rparr>"

definition add_arg :: "string \<Rightarrow> string \<Rightarrow> string \<Rightarrow> prop_val \<Rightarrow> arg_parser \<Rightarrow> arg_parser" where
  "add_arg name shortname desc def p =
     p\<lparr>handlers := set_entry name (length (arg_values p)) (set_entry shortname (length (arg_values p)) (handlers p)),
       help_entries := help_entries p @ [(name, shortname, desc)],
       arg_values := arg_values p @ [def]\<rparr>"

text \<open>What \<^verbatim>\<open>parse\<close> prints: the help, or a complaint about an argument.\<close>

datatype arg_output = Help | UnknownArgument string | InvalidValue string string

definition what :: "cxx_error \<Rightarrow> string" where
  "what e = (case e of InvalidArgument s \<Rightarrow> s | OutOfRange s \<Rightarrow> s | RuntimeError s \<Rightarrow> s | _ \<Rightarrow> '''')"

lemma next_value_or_null_shorter: "length (snd (next_value_or_null l)) \<le> length l"
  by (simp add: next_value_or_null_def split: list.splits)

lemma handle_value_shorter: "handle_value v l = Inr (w, l') \<Longrightarrow> length l' \<le> length l"
  using next_value_or_null_shorter [of l]
  by (cases v) (auto simp: cxx_bind_eq_Inr next_arg_def split: list.splits prod.splits option.splits)

function parse_args :: "arg_list \<Rightarrow> arg_parser \<Rightarrow> arg_parser \<times> arg_output option" where
  "parse_args [] p = (p, None)"
| "parse_args (key # l) p =
     (case map_of (handlers p) key of
        None \<Rightarrow> (p, Some (if key = ''-h'' \<or> key = ''--help'' then Help else UnknownArgument key))
      | Some i \<Rightarrow>
          (case handle_value (arg_values p ! i) l of
             Inl e \<Rightarrow> (p, Some (InvalidValue key (what e)))
           | Inr r \<Rightarrow> parse_args (snd r) (p\<lparr>arg_values := (arg_values p)[i := fst r]\<rparr>)))"
  by pat_completeness auto
termination
  by (relation "measure (\<lambda>(l, p). length l)") (auto dest: handle_value_shorter simp: less_Suc_eq_le)

text \<open>\<^verbatim>\<open>arg_parser::parse\<close> skips the name of the program; it returns whether all arguments were accepted.\<close>

definition arg_parse :: "arg_list \<Rightarrow> arg_parser \<Rightarrow> arg_parser \<times> bool \<times> arg_output option" where
  "arg_parse argv p =
     (case argv of
        [] \<Rightarrow> (p, False, None)
      | _ # l \<Rightarrow> let (p', out) = parse_args l p in (p', out = None, out))"

section \<open>Saving and loading\<close>

fun same_kind :: "prop_val \<Rightarrow> prop_val \<Rightarrow> bool" where
  "same_kind (PString _) (PString _) \<longleftrightarrow> True"
| "same_kind (PInt _) (PInt _) \<longleftrightarrow> True"
| "same_kind (PBool _) (PBool _) \<longleftrightarrow> True"
| "same_kind _ _ \<longleftrightarrow> False"














section \<open>Assignments on the command line\<close>

fun in_range :: "prop_val \<Rightarrow> bool" where
  "in_range (PInt i) \<longleftrightarrow> - (2 ^ 31) \<le> i \<and> i < 2 ^ 31"
| "in_range _ \<longleftrightarrow> True"

text \<open>The assignment addresses a variable of its kind.\<close>

definition assignable :: "(string \<times> nat) list \<Rightarrow> prop_val list \<Rightarrow> string \<times> prop_val \<Rightarrow> bool" where
  "assignable hs vals a \<longleftrightarrow>
     (case map_of hs (fst a) of
        None \<Rightarrow> False
      | Some i \<Rightarrow> i < length vals \<and> same_kind (snd a) (vals ! i) \<and> in_range (snd a))"

definition assign :: "(string \<times> nat) list \<Rightarrow> prop_val list \<Rightarrow> string \<times> prop_val \<Rightarrow> prop_val list" where
  "assign hs vals a = vals[the (map_of hs (fst a)) := snd a]"

lemma handle_serialized:
  "in_range v \<Longrightarrow> same_kind v w \<Longrightarrow> handle_value w (serialize_value v # l) = Inr (v, l)"
proof (cases v)
  case (PInt i)
  then show "in_range v \<Longrightarrow> same_kind v w \<Longrightarrow> ?thesis" by (cases w) (simp_all add: next_arg_def stoi_dec)
next
  case (PBool b)
  then show "in_range v \<Longrightarrow> same_kind v w \<Longrightarrow> ?thesis"
    by (cases w; cases b) (simp_all add: next_value_or_null_def parse_bool_def c_str_def strcasecmp_eq_def)
qed (cases w; simp add: next_arg_def)

lemma same_kind_trans: "same_kind u v \<Longrightarrow> same_kind u w \<Longrightarrow> same_kind v w"
  by (cases u; cases v; cases w) simp_all

lemma same_kind_sym: "same_kind u v \<Longrightarrow> same_kind v u"
  by (cases u; cases v) simp_all

lemma assignable_assign:
  assumes "assignable hs vals a" and "assignable hs vals b"
  shows "assignable hs (assign hs vals a) b"
proof -
  obtain i j where ij: "map_of hs (fst a) = Some i" "map_of hs (fst b) = Some j" "i < length vals" "j < length vals"
    "same_kind (snd a) (vals ! i)" "same_kind (snd b) (vals ! j)" "in_range (snd b)"
    using assms by (auto simp: assignable_def split: option.splits)
  have "same_kind (snd b) (snd a)" if "i = j"
    using ij(5,6) that same_kind_sym same_kind_trans by metis
  then show ?thesis using ij by (simp add: assignable_def assign_def nth_list_update)
qed

lemma parse_assignments:
  "\<forall>a \<in> set asg. assignable (handlers p) (arg_values p) a \<Longrightarrow>
   parse_args (concat (map (\<lambda>(k, v). [k, serialize_value v]) asg)) p =
     (p\<lparr>arg_values := foldl (assign (handlers p)) (arg_values p) asg\<rparr>, None)"
proof (induction asg arbitrary: p)
  case (Cons a asg)
  obtain k v where a: "a = (k, v)" by (cases a)
  let ?p = "p\<lparr>arg_values := assign (handlers p) (arg_values p) a\<rparr>"
  obtain i where i: "map_of (handlers p) k = Some i" "same_kind v (arg_values p ! i)" "in_range v"
    using Cons.prems a by (auto simp: assignable_def split: option.splits)
  have "\<forall>b \<in> set asg. assignable (handlers ?p) (arg_values ?p) b"
    using Cons.prems assignable_assign by simp
  from Cons.IH [OF this] show ?case
    using i handle_serialized [OF i(3,2)] a by (simp add: assign_def)
qed simp

text \<open>
  C32 (arguments_parsed). A command line that gives each of a sequence of registered arguments (by name or short name) followed by
  the text of a value of its type is accepted without output, and afterwards the variables have the values assigned to
  them, the last assignment of a variable winning; no other variable changes.
\<close>

theorem arguments_parsed:
  assumes "\<forall>a \<in> set asg. assignable (handlers p) (arg_values p) a"
  shows "arg_parse (prog # concat (map (\<lambda>(k, v). [k, serialize_value v]) asg)) p =
    (p\<lparr>arg_values := foldl (assign (handlers p)) (arg_values p) asg\<rparr>, True, None)"
  using parse_assignments [OF assms] by (simp add: arg_parse_def)

theorem arguments_parsed_witness:
  "arg_parse [''client'', ''-w'', ''640'', ''--full'', ''true'']
     (add_arg ''--full'' ''-f'' ''Full screen'' (PBool False) (add_arg ''--width'' ''-w'' ''Width'' (PInt 720) new_arg_parser)) =
   ((add_arg ''--full'' ''-f'' ''Full screen'' (PBool False) (add_arg ''--width'' ''-w'' ''Width'' (PInt 720) new_arg_parser))
      \<lparr>arg_values := [PInt 640, PBool True]\<rparr>, True, None)"
proof -
  let ?p = "add_arg ''--full'' ''-f'' ''Full screen'' (PBool False) (add_arg ''--width'' ''-w'' ''Width'' (PInt 720) new_arg_parser)"
  have "\<forall>a \<in> set [(''-w'', PInt 640), (''--full'', PBool True)]. assignable (handlers ?p) (arg_values ?p) a"
    by (simp add: assignable_def add_arg_def new_arg_parser_def)
  moreover have "dec_int 640 = ''640''"
    by (simp add: dec_int_def dec_nat.simps [of 640] dec_nat.simps [of 64] dec_nat.simps [of 6] digit_char_def char_of_eq_iff)
  ultimately show ?thesis
    using arguments_parsed [of "[(''-w'', PInt 640), (''--full'', PBool True)]" ?p "''client''"]
    by (simp add: assign_def add_arg_def new_arg_parser_def)
qed

end
