(* ===== verification/Util_Files.thy ===== *)
theory Util_Files
  imports Ld_Utils
begin

text \<open>
  Files and directories: \<^verbatim>\<open>file-util/src/FileUtil.cpp\<close>, \<^verbatim>\<open>file-util/src/EnvPathUtil.cpp\<close> and \<^verbatim>\<open>mcpelauncher-common/src/path_helper.cpp\<close>. The
  system calls are functions of the record \<open>kernel\<close> over an arbitrary state \<open>'w\<close> of the file system; the environment is a map. A
  recursion or loop that may not end is a partial function into \<open>option\<close>.
\<close>

section \<open>The system\<close>

record 'w kernel =
  k_access :: "'w \<Rightarrow> string \<Rightarrow> bool"
  k_isdir :: "'w \<Rightarrow> string \<Rightarrow> bool"
  k_mkdir :: "string \<Rightarrow> 'w \<Rightarrow> 'w \<times> bool"
  k_exec :: "'w \<Rightarrow> string \<Rightarrow> bool"

type_synonym environment = "string \<Rightarrow> string option"

section \<open>Directories\<close>



text \<open>Up to the last slash, and without the slashes in front of it.\<close>

definition getParent :: "string \<Rightarrow> string" where
  "getParent path =
     (if CHR ''/'' \<notin> set path then ''''
      else rev (dropWhile (\<lambda>c. c = CHR ''/'') (dropWhile (\<lambda>c. c \<noteq> CHR ''/'') (rev path))))"


section \<open>Reading a file\<close>

text \<open>
  The file as \<^verbatim>\<open>readFile\<close> sees it: whether it opens, is a directory, its size, and what a read of at most \<open>n\<close> bytes
  at an offset returns.
\<close>

record file_view =
  fv_open :: bool
  fv_dir :: bool
  fv_size :: "nat option"
  fv_read :: "nat \<Rightarrow> nat \<Rightarrow> byte list option"

partial_function (option) read_loop :: "file_view \<Rightarrow> nat \<Rightarrow> byte list \<Rightarrow> byte list option option" where
  "read_loop f n out =
     (if length out < n
      then (if fv_read f (length out) (n - length out) = None then Some None
            else read_loop f n (out @ the (fv_read f (length out) (n - length out))))
      else Some (Some out))"

definition readFile :: "file_view \<Rightarrow> byte list option option" where
  "readFile f =
     (if \<not> fv_open f then Some None
      else if fv_dir f then Some None
      else case fv_size f of
             None \<Rightarrow> Some None
           | Some n \<Rightarrow> read_loop f n [])"

section \<open>Environment and search path\<close>

definition dir_of_exe :: "string option \<Rightarrow> string" where
  "dir_of_exe link =
     (case link of
        None \<Rightarrow> ''''
      | Some buf \<Rightarrow>
          if CHR ''/'' \<in> set buf then rev (tl (dropWhile (\<lambda>c. c \<noteq> CHR ''/'') (rev buf))) else buf)"

text \<open>\<^verbatim>\<open>getHomeDir\<close>: the environment, or the home directory of the user data base.\<close>

definition getHomeDir :: "environment \<Rightarrow> string option \<Rightarrow> string cxx" where
  "getHomeDir env pw_dir =
     (case env ''HOME'' of
        Some h \<Rightarrow> Inr h
      | None \<Rightarrow> (case pw_dir of None \<Rightarrow> Inl (RuntimeError ''getpwuid failed'') | Some d \<Rightarrow> Inr d))"

definition getDataHome :: "environment \<Rightarrow> string option \<Rightarrow> string cxx" where
  "getDataHome env pw_dir =
     (case env ''XDG_DATA_HOME'' of
        Some h \<Rightarrow> Inr h
      | None \<Rightarrow> cxx_bind (getHomeDir env pw_dir) (\<lambda>h. Inr (h @ ''/.local/share'')))"

text \<open>The name tried for one directory of the search path; \<open>cwd\<close> is empty when the caller gives none.\<close>

definition path_candidate :: "string \<Rightarrow> string \<Rightarrow> string \<Rightarrow> string" where
  "path_candidate what cwd dir =
     (let appendSlashCwd = (cwd \<noteq> [] \<and> last cwd \<noteq> CHR ''/'');
          prefixWithCwd = (dir = [] \<or> hd dir \<noteq> CHR ''/'');
          replaceWithDot = (dir = [] \<and> cwd = []);
          appendSlash = (if replaceWithDot then True else dir \<noteq> [] \<and> last dir \<noteq> CHR ''/'')
      in (if prefixWithCwd then cwd @ (if appendSlashCwd then ''/'' else '''') else '''') @
         (if replaceWithDot then ''.'' else dir) @ (if appendSlash then ''/'' else '''') @ what)"

function find_in_dirs :: "('w kernel) \<Rightarrow> 'w \<Rightarrow> string \<Rightarrow> string \<Rightarrow> string \<Rightarrow> string option" where
  "find_in_dirs K w what cwd path =
     (let dir = takeWhile (\<lambda>c. c \<noteq> CHR '':'') path; buf = path_candidate what cwd dir
      in if k_exec K w buf then Some buf
         else if CHR '':'' \<in> set path
         then find_in_dirs K w what cwd (tl (dropWhile (\<lambda>c. c \<noteq> CHR '':'') path))
         else None)"
  by pat_completeness auto
termination
proof (relation "measure (\<lambda>(K, w, what, cwd, path). length path)")
  fix K :: "'w kernel" and w what cwd path x xa
  assume "CHR '':'' \<in> set path"
  then have "path \<noteq> []" by auto
  then have "length (dropWhile (\<lambda>c. c \<noteq> CHR '':'') path) \<le> length path" "0 < length path"
    using length_dropWhile_le by auto
  then show "((K, w, what, cwd, tl (dropWhile (\<lambda>c. c \<noteq> CHR '':'') path)), K, w, what, cwd, path)
      \<in> measure (\<lambda>(K, w, what, cwd, path). length path)"
    by (simp only: in_measure case_prod_conv length_tl)
qed simp

declare find_in_dirs.simps [simp del]

definition findInPath :: "'w kernel \<Rightarrow> 'w \<Rightarrow> environment \<Rightarrow> string \<Rightarrow> string option \<Rightarrow> string \<Rightarrow> string option" where
  "findInPath K w env what path cwd =
     (let path = (case path of
            Some p \<Rightarrow> p
          | None \<Rightarrow> (case env ''PATH'' of
               None \<Rightarrow> ''/bin:/usr/bin''
             | Some p \<Rightarrow> if p = [] then ''/bin:/usr/bin'' else p))
      in find_in_dirs K w what cwd path)"

section \<open>Data files of the launcher\<close>

record PathInfo =
  appDir :: string
  homeDir :: string
  dataHome :: string
  dataDirs :: "string list"
  cacheHome :: string
  overrideDataDir :: string
  overrideCacheDir :: string
  gameDir :: string

definition appDirName :: string where "appDirName = ''mcpelauncher''"

text \<open>The directories of \<^verbatim>\<open>XDG_DATA_DIRS\<close>: an empty last one is left out.\<close>

definition split_data_dirs :: "string \<Rightarrow> string list" where
  "split_data_dirs env = (let ds = Split env '':'' in if last ds = [] then butlast ds else ds)"

definition new_path_info :: "'w kernel \<Rightarrow> 'w \<Rightarrow> environment \<Rightarrow> string option \<Rightarrow> string option \<Rightarrow> string \<Rightarrow> string \<Rightarrow> PathInfo cxx" where
  "new_path_info K w env exe pw_dir cwd abi =
     cxx_bind (getHomeDir env pw_dir) (\<lambda>home.
       let app = dir_of_exe exe; wd = cwd @ ''/'' in
       if k_access K w (wd @ ''lib/'' @ abi @ ''/libminecraftpe.so'')
       then Inr \<lparr>appDir = app, homeDir = home, dataHome = '''', dataDirs = [], cacheHome = '''',
              overrideDataDir = wd, overrideCacheDir = '''', gameDir = ''''\<rparr>
       else
         let dh = (case env ''XDG_DATA_HOME'' of None \<Rightarrow> '''' | Some h \<Rightarrow> h);
             ch = (case env ''XDG_CACHE_HOME'' of None \<Rightarrow> '''' | Some h \<Rightarrow> h)
         in Inr \<lparr>appDir = app, homeDir = home,
               dataHome = (if dh = '''' then home @ ''/.local/share'' else dh),
               dataDirs = (case env ''XDG_DATA_DIRS'' of
                             Some s \<Rightarrow> split_data_dirs s
                           | None \<Rightarrow> [''/usr/local/share/'', ''/usr/share/'']),
               cacheHome = (if ch = '''' then home @ ''/.cache'' else ch),
               overrideDataDir = '''', overrideCacheDir = '''', gameDir = ''''\<rparr>)"

definition getParentDir :: "string \<Rightarrow> string" where
  "getParentDir path =
     (if CHR ''/'' \<notin> set path then '''' else rev (tl (dropWhile (\<lambda>c. c \<noteq> CHR ''/'') (rev path))))"

text \<open>The first of the directories in which the file exists.\<close>

fun first_existing :: "'w kernel \<Rightarrow> 'w \<Rightarrow> string list \<Rightarrow> string option" where
  "first_existing K w [] = None"
| "first_existing K w (p # ps) = (if k_access K w p then Some p else first_existing K w ps)"

text \<open>\<open>dev\<close> are the directories of the build option \<^verbatim>\<open>DEV_EXTRA_PATHS\<close>.\<close>

definition findDataFile :: "'w kernel \<Rightarrow> 'w \<Rightarrow> string list \<Rightarrow> PathInfo \<Rightarrow> string \<Rightarrow> string cxx" where
  "findDataFile K w dev P path =
     (if overrideDataDir P \<noteq> '''' \<and> k_access K w (overrideDataDir P @ path) then Inr (overrideDataDir P @ path)
      else case first_existing K w (map (\<lambda>d. d @ ''/'' @ path) dev) of Some p \<Rightarrow> Inr p
      | None \<Rightarrow>
        if overrideDataDir P = '''' \<and> k_access K w (appDir P @ ''/'' @ path) then Inr (appDir P @ ''/'' @ path)
        else if overrideDataDir P = '''' \<and> k_access K w (dataHome P @ ''/'' @ appDirName @ ''/'' @ path)
        then Inr (dataHome P @ ''/'' @ appDirName @ ''/'' @ path)
        else case first_existing K w (map (\<lambda>d. d @ ''/'' @ appDirName @ ''/'' @ path) (dataDirs P)) of Some p \<Rightarrow> Inr p
        | None \<Rightarrow>
            let p = getParentDir (appDir P) @ ''/share/mcpelauncher/'' @ path in
            if k_access K w p then Inr p
            else Inl (RuntimeError (''Failed to find data file: '' @ path)))"

text \<open>The names that \<^verbatim>\<open>findAllDataFiles\<close> hands to its callback, in order.\<close>

definition findAllDataFiles :: "'w kernel \<Rightarrow> 'w \<Rightarrow> string list \<Rightarrow> PathInfo \<Rightarrow> string \<Rightarrow> string list" where
  "findAllDataFiles K w dev P path =
     (if overrideDataDir P \<noteq> '''' then filter (k_access K w) [overrideDataDir P @ path] else []) @
     filter (k_access K w) (map (\<lambda>d. d @ ''/'' @ path) dev) @
     (if overrideDataDir P = ''''
      then filter (k_access K w) [appDir P @ ''/'' @ path] @
           filter (k_access K w) [dataHome P @ ''/'' @ appDirName @ ''/'' @ path]
      else []) @
     filter (k_access K w) (map (\<lambda>d. d @ ''/'' @ appDirName @ ''/'' @ path) (dataDirs P)) @
     filter (k_access K w) [getParentDir (appDir P) @ ''/share/mcpelauncher/'' @ path]"

definition getPrimaryDataDirectory :: "PathInfo \<Rightarrow> string" where
  "getPrimaryDataDirectory P =
     (if overrideDataDir P \<noteq> [] then overrideDataDir P else dataHome P @ ''/'' @ appDirName @ ''/'')"

definition getCacheDirectory :: "PathInfo \<Rightarrow> string" where
  "getCacheDirectory P =
     (if overrideCacheDir P \<noteq> [] then overrideCacheDir P else cacheHome P @ ''/'' @ appDirName @ ''/'')"

definition getGameDir :: "PathInfo \<Rightarrow> string" where
  "getGameDir P = (if gameDir P \<noteq> [] then gameDir P else getPrimaryDataDirectory P)"

definition findGameFile :: "'w kernel \<Rightarrow> 'w \<Rightarrow> string list \<Rightarrow> PathInfo \<Rightarrow> string \<Rightarrow> string cxx" where
  "findGameFile K w dev P path =
     (if gameDir P \<noteq> [] then Inr (gameDir P @ path) else findDataFile K w dev P path)"

definition slash_end :: "string \<Rightarrow> string" where
  "slash_end dir = (if dir \<noteq> [] \<and> last dir \<noteq> CHR ''/'' then dir @ ''/'' else dir)"

definition setGameDir :: "string \<Rightarrow> PathInfo \<Rightarrow> PathInfo" where
  "setGameDir dir P = P\<lparr>gameDir := slash_end dir\<rparr>"

definition setDataDir :: "string \<Rightarrow> PathInfo \<Rightarrow> PathInfo" where
  "setDataDir dir P = P\<lparr>overrideDataDir := slash_end dir\<rparr>"

definition setCacheDir :: "string \<Rightarrow> PathInfo \<Rightarrow> PathInfo" where
  "setCacheDir dir P = P\<lparr>overrideCacheDir := slash_end dir\<rparr>"

section \<open>Searching\<close>

lemma first_existing_filter: "first_existing K w ps = (case filter (k_access K w) ps of [] \<Rightarrow> None | p # _ \<Rightarrow> Some p)"
  by (induction ps) simp_all

lemma find_in_dirs_eq:
  "find_in_dirs K w what cwd path = List.find (k_exec K w) (map (path_candidate what cwd) (Split path '':''))"
proof (induction K w what cwd path rule: find_in_dirs.induct)
  case (1 K w what cwd path)
  have split: "Split path '':'' = takeWhile (\<lambda>c. c \<noteq> CHR '':'') path #
      (if CHR '':'' \<in> set path then Split (tl (dropWhile (\<lambda>c. c \<noteq> CHR '':'') path)) '':'' else [])" for path
    by (induction path) auto
  show ?case
    using 1 by (subst find_in_dirs.simps) (subst split, simp add: Let_def)
qed

lemma read_loop_whole:
  assumes "\<And>k. k < n \<Longrightarrow> \<exists>bs. fv_read f k (n - k) = Some bs \<and> bs \<noteq> [] \<and> length bs \<le> n - k \<and> bs = take (length bs) (drop k content)"
    and "length content = n"
  shows "k \<le> n \<Longrightarrow> read_loop f n (take k content) = Some (Some content)"
proof (induction "n - k" arbitrary: k rule: less_induct)
  case less
  show ?case
  proof (cases "k < n")
    case False
    then show ?thesis using less.prems assms(2) by (subst read_loop.simps) simp
  next
    case True
    obtain bs where bs: "fv_read f k (n - k) = Some bs" "bs \<noteq> []" "length bs \<le> n - k" "bs = take (length bs) (drop k content)"
      using assms(1) [OF True] by blast
    have "take k content @ bs = take (k + length bs) content" using bs(4) by (metis take_add)
    moreover have "0 < length bs" using bs(2) by simp
    then have "read_loop f n (take (k + length bs) content) = Some (Some content)"
      using bs(3) True by (intro less.hyps) linarith+
    ultimately show ?thesis using True bs(1) assms(2) less.prems by (subst read_loop.simps) simp
  qed
qed

section \<open>Creating directories\<close>



lemma getParent_shorter: "p \<noteq> [] \<Longrightarrow> length (getParent p) < length p"
proof -
  assume p: "p \<noteq> []"
  show ?thesis
  proof (cases "CHR ''/'' \<in> set p")
    case True
    then have ne: "dropWhile (\<lambda>c. c \<noteq> CHR ''/'') (rev p) \<noteq> []" by (simp add: dropWhile_eq_Nil_conv)
    then have "hd (dropWhile (\<lambda>c. c \<noteq> CHR ''/'') (rev p)) = CHR ''/''" using hd_dropWhile by blast
    then obtain r where r: "dropWhile (\<lambda>c. c \<noteq> CHR ''/'') (rev p) = CHR ''/'' # r"
      using ne by (cases "dropWhile (\<lambda>c. c \<noteq> CHR ''/'') (rev p)") auto
    then have "length (CHR ''/'' # r) \<le> length p" by (metis length_dropWhile_le length_rev)
    moreover have "length (dropWhile (\<lambda>c. c = CHR ''/'') r) \<le> length r" by (rule length_dropWhile_le)
    ultimately show ?thesis using True r by (simp add: getParent_def)
  qed (use p in \<open>simp add: getParent_def\<close>)
qed

function lineage :: "string \<Rightarrow> string list" where
  "lineage p = (if p = [] then [] else p # lineage (getParent p))"
  by pat_completeness auto
termination by (relation "measure length") (simp_all add: getParent_shorter)

declare lineage.simps [simp del]



lemma lineage_Nil [simp]: "lineage [] = []"
  by (simp add: lineage.simps)












text \<open>
  C34 (data_file_search). \<^verbatim>\<open>findDataFile\<close> returns the first of the names that \<^verbatim>\<open>findAllDataFiles\<close> reports for the same file, and throws
  exactly when there is none, although the two functions repeat the search order independently.
\<close>

theorem data_file_search:
  "findDataFile K w dev P path =
     (case findAllDataFiles K w dev P path of
        [] \<Rightarrow> Inl (RuntimeError (''Failed to find data file: '' @ path)) | p # _ \<Rightarrow> Inr p)"
  by (simp add: findDataFile_def findAllDataFiles_def first_existing_filter Let_def split: list.splits)

end
