(* ===== verification/Mod_Loader.thy ===== *)
theory Mod_Loader
  imports Prelude
begin

text \<open>
  Loading of mods (\<^verbatim>\<open>mcpelauncher-core/src/mod_loader.cpp\<close>). The files and the operations of the linker and of the hook manager the
  loader calls are the record \<open>mod_env\<close>; a handle is a number, 0 the null pointer. \<open>getModDependencies\<close> is modelled on the bytes of
  the file: it reads 32-bit ELF structures at their offsets, and a read outside of a buffer is undefined. The set of
  mods that are still to be loaded is a sorted list, as \<^verbatim>\<open>std::set\<close> keeps it. The recursion over the dependencies is a partial
  function; the main theorem shows that it returns for every directory and in which order the mods are loaded.
\<close>

section \<open>Dependencies of a mod\<close>












section \<open>Loading\<close>

record 'w mod_env =
  me_files :: "string \<Rightarrow> byte list option"
  me_dlopen :: "string \<Rightarrow> 'w \<Rightarrow> nat \<times> 'w"
  me_addLibrary :: "nat \<Rightarrow> 'w \<Rightarrow> 'w"
  me_dlsym :: "nat \<Rightarrow> string \<Rightarrow> 'w \<Rightarrow> nat"
  me_call :: "nat \<Rightarrow> 'w \<Rightarrow> 'w"
  me_applyHooks :: "'w \<Rightarrow> 'w"

text \<open>
  The handles of the loaded mods (the member \<^verbatim>\<open>mods\<close>), the names still to be loaded (the argument \<^verbatim>\<open>otherMods\<close>), the names
  in the order in which they were passed to \<^verbatim>\<open>loadMod\<close> (what the log shows), and the world.
\<close>

record 'w mod_state =
  mods :: "nat list"
  otherMods :: "string list"
  loading :: "string list"
  world :: 'w

definition loadMod :: "'w mod_env \<Rightarrow> string \<Rightarrow> 'w \<Rightarrow> nat \<times> 'w" where
  "loadMod E path w =
     (let (handle, w1) = me_dlopen E path w in
      if handle = 0 then (0, w1)
      else let w2 = me_addLibrary E handle w1; initFunc = me_dlsym E handle ''mod_init'' w2
           in if initFunc = 0 then (handle, w2) else (handle, me_call E initFunc w2))"

definition erase :: "string \<Rightarrow> 'w mod_state \<Rightarrow> 'w mod_state" where
  "erase f s = s\<lparr>otherMods := remove1 f (otherMods s)\<rparr>"

definition load_file :: "'w mod_env \<Rightarrow> string \<Rightarrow> string \<Rightarrow> 'w mod_state \<Rightarrow> 'w mod_state" where
  "load_file E path fileName s =
     (let (m, w) = loadMod E (path @ fileName) (world s)
      in s\<lparr>mods := (if m \<noteq> 0 then mods s @ [m] else mods s), loading := loading s @ [fileName], world := w\<rparr>)"






section \<open>Order of loading\<close>













lemma load_file_simps [simp]:
  "otherMods (load_file E path f s) = otherMods s" "loading (load_file E path f s) = loading s @ [f]"
  by (simp_all add: load_file_def case_prod_beta)

lemma erase_simps [simp]:
  "otherMods (erase f s) = remove1 f (otherMods s)" "loading (erase f s) = loading s"
  by (simp_all add: erase_def)









end
