(* ===== verification/Hooks.thy ===== *)
theory Hooks
  imports Cxx_Text
begin

text \<open>
  The hook manager for mods (\<^verbatim>\<open>mcpelauncher-core/src/hook.cpp\<close>, \<^verbatim>\<open>hook.h\<close>). Libraries, hooked symbols and hooks are objects at addresses, 0 is
  the null pointer; \<open>cells\<close> is the memory behind the \<^verbatim>\<open>orig\<close> pointers and the relocated words. The code that fills the symbol tables of a
  library from its dynamic section is commented out in the source, so a new library has null tables.
  The table of hooked symbols is keyed by the address of the library object and \<^verbatim>\<open>removeLibrary\<close> leaves it alone. The address that
  \<^verbatim>\<open>operator new\<close> returns is an argument of the operation that allocates. Sums of addresses do not wrap: a library is mapped inside the
  address space.

  \<open>patched\<close> says which relocation types the architecture handles: three on 32-bit systems, none on others.
\<close>

section \<open>State\<close>

record hook_instance =
  hi_symbol :: nat
  hi_parent :: nat
  hi_child :: nat
  hi_replacement :: nat
  hi_orig :: nat

record hooked_symbol =
  hs_lib :: nat
  hs_index :: u32
  hs_original :: nat
  firstHook :: nat
  lastHook :: nat

record lib_info =
  li_handle :: nat
  li_base :: nat
  li_names :: "(nat \<Rightarrow> string) option"    \<comment> \<open>\<^verbatim>\<open>strtab\<close> and \<^verbatim>\<open>symtab\<close>: the name of a symbol\<close>
  li_rel :: "(nat \<times> u32 \<times> nat) list"       \<comment> \<open>type, symbol and offset\<close>
  li_pltrel :: "(nat \<times> u32 \<times> nat) list"
  li_hooks :: "u32 \<rightharpoonup> nat"
  li_dependencies :: "nat list"

record hook_manager =
  hm_libs :: "nat \<rightharpoonup> nat"                \<comment> \<open>handle to \<^verbatim>\<open>LibInfo*\<close>\<close>
  lib_at :: "nat \<rightharpoonup> lib_info"
  hm_dependents :: "nat \<Rightarrow> nat list"
  hm_symbols :: "nat \<times> u32 \<rightharpoonup> nat"
  symbol_at :: "nat \<rightharpoonup> hooked_symbol"
  hook_at :: "nat \<rightharpoonup> hook_instance"
  cells :: "nat \<Rightarrow> nat"

definition new_hook_manager :: "(nat \<Rightarrow> nat) \<Rightarrow> hook_manager" where
  "new_hook_manager c =
     \<lparr>hm_libs = Map.empty, lib_at = Map.empty, hm_dependents = (\<lambda>_. []), hm_symbols = Map.empty, symbol_at = Map.empty, hook_at = Map.empty,
      cells = c\<rparr>"

section \<open>Libraries\<close>

definition lib_of :: "hook_manager \<Rightarrow> nat \<Rightarrow> lib_info option" where
  "lib_of m lib = (case hm_libs m lib of None \<Rightarrow> None | Some p \<Rightarrow> lib_at m p)"

definition new_lib_info :: "nat \<Rightarrow> nat \<Rightarrow> lib_info" where
  "new_lib_info handle base =
     \<lparr>li_handle = handle, li_base = base, li_names = None, li_rel = [], li_pltrel = [], li_hooks = Map.empty, li_dependencies = []\<rparr>"

definition addLibrary :: "(nat \<Rightarrow> nat) \<Rightarrow> nat \<Rightarrow> nat \<Rightarrow> hook_manager \<Rightarrow> hook_manager" where
  "addLibrary get_library_base new_lib handle m =
     (if hm_libs m handle \<noteq> None then m
      else m\<lparr>hm_libs := (hm_libs m)(handle \<mapsto> new_lib),
             lib_at := (lib_at m)(new_lib \<mapsto> new_lib_info handle (get_library_base handle))\<rparr>)"

definition removeLibrary :: "nat \<Rightarrow> hook_manager \<Rightarrow> hook_manager" where
  "removeLibrary handle m =
     (case hm_libs m handle of
        None \<Rightarrow> m
      | Some p \<Rightarrow>
          let deps = (case lib_at m p of None \<Rightarrow> [] | Some l \<Rightarrow> li_dependencies l)
          in m\<lparr>hm_dependents := (\<lambda>d. if d \<in> set deps then removeAll p (hm_dependents m d) else hm_dependents m d),
               hm_libs := (hm_libs m)(handle := None), lib_at := (lib_at m)(p := None)\<rparr>)"

definition getSymbolName :: "lib_info \<Rightarrow> u32 \<Rightarrow> string cxx" where
  "getSymbolName l i = (case li_names l of None \<Rightarrow> Inl Undefined | Some f \<Rightarrow> Inr (f (unat i)))"

text \<open>The search in the hash table of the library is commented out.\<close>

definition getSymbolIndex :: "nat \<Rightarrow> string \<Rightarrow> u32" where
  "getSymbolIndex lib symbolName = - 1"

definition setHook :: "nat \<Rightarrow> u32 \<Rightarrow> nat \<Rightarrow> hook_manager \<Rightarrow> hook_manager cxx" where
  "setHook p i hook m =
     (case lib_at m p of
        None \<Rightarrow> Inl Undefined
      | Some l \<Rightarrow> Inr (m\<lparr>lib_at := (lib_at m)(p \<mapsto> l\<lparr>li_hooks := (li_hooks l)(i \<mapsto> hook)\<rparr>)\<rparr>))"

definition setHook_name :: "nat \<Rightarrow> string \<Rightarrow> nat \<Rightarrow> hook_manager \<Rightarrow> hook_manager cxx" where
  "setHook_name p symbol_name hook m =
     (case lib_at m p of None \<Rightarrow> Inl Undefined | Some l \<Rightarrow> setHook p (getSymbolIndex (li_handle l) symbol_name) hook m)"

fun setHook_all :: "nat list \<Rightarrow> string \<Rightarrow> nat \<Rightarrow> hook_manager \<Rightarrow> hook_manager cxx" where
  "setHook_all [] nm hook m = Inr m"
| "setHook_all (d # ds) nm hook m = cxx_bind (setHook_name d nm hook m) (setHook_all ds nm hook)"

section \<open>Hooks\<close>

definition getOrCreateHookSymbol :: "nat \<Rightarrow> nat \<Rightarrow> u32 \<Rightarrow> hook_manager \<Rightarrow> (nat \<times> hook_manager) cxx" where
  "getOrCreateHookSymbol new_symbol lib i m =
     (case hm_libs m lib of
        None \<Rightarrow> Inl (RuntimeError ''No such lib registered'')
      | Some p \<Rightarrow>
          (case hm_symbols m (p, i) of
             Some hook \<Rightarrow> Inr (hook, m)
           | None \<Rightarrow>
               let s = \<lparr>hs_lib = p, hs_index = i, hs_original = 0, firstHook = 0, lastHook = 0\<rparr>;
                   m1 = m\<lparr>hm_symbols := (hm_symbols m)((p, i) \<mapsto> new_symbol), symbol_at := (symbol_at m)(new_symbol \<mapsto> s)\<rparr>
               in cxx_bind (setHook p i new_symbol m1) (\<lambda>m2.
                  cxx_bind (case lib_at m2 p of None \<Rightarrow> Inl Undefined | Some l \<Rightarrow> getSymbolName l i) (\<lambda>nm.
                  cxx_bind (setHook_all (hm_dependents m2 lib) nm new_symbol m2) (\<lambda>m3. Inr (new_symbol, m3))))))"

definition createHook :: "nat \<Rightarrow> nat \<Rightarrow> nat \<Rightarrow> u32 \<Rightarrow> nat \<Rightarrow> nat \<Rightarrow> hook_manager \<Rightarrow> (nat \<times> hook_manager) cxx" where
  "createHook new_symbol ret lib i replacement orig m =
     cxx_bind (getOrCreateHookSymbol new_symbol lib i m) (\<lambda>(a, m1).
       case symbol_at m1 a of
         None \<Rightarrow> Inl Undefined
       | Some s \<Rightarrow>
           let h = \<lparr>hi_symbol = a, hi_parent = 0, hi_child = 0, hi_replacement = replacement, hi_orig = orig\<rparr>
           in if firstHook s = 0 then
                Inr (ret, m1\<lparr>hook_at := (hook_at m1)(ret \<mapsto> h),
                             symbol_at := (symbol_at m1)(a \<mapsto> s\<lparr>firstHook := ret, lastHook := ret\<rparr>)\<rparr>)
              else if lastHook s = 0 then
                Inr (ret, m1\<lparr>hook_at := (hook_at m1)(ret \<mapsto> h), symbol_at := (symbol_at m1)(a \<mapsto> s\<lparr>lastHook := ret\<rparr>)\<rparr>)
              else (case hook_at m1 (lastHook s) of
                None \<Rightarrow> Inl Undefined
              | Some p \<Rightarrow>
                  if orig = 0 then Inl Undefined
                  else Inr (ret, m1\<lparr>hook_at := (hook_at m1)(ret \<mapsto> h\<lparr>hi_parent := lastHook s\<rparr>, lastHook s \<mapsto> p\<lparr>hi_child := ret\<rparr>),
                    cells := (cells m1)(orig := hi_replacement p), symbol_at := (symbol_at m1)(a \<mapsto> s\<lparr>lastHook := ret\<rparr>)\<rparr>)))"

definition createHook_name ::
  "nat \<Rightarrow> nat \<Rightarrow> nat \<Rightarrow> string \<Rightarrow> nat \<Rightarrow> nat \<Rightarrow> hook_manager \<Rightarrow> (nat \<times> hook_manager) cxx" where
  "createHook_name new_symbol ret lib symbol_name replacement orig m =
     (if hm_libs m lib = None then Inl (RuntimeError ''No such lib registered'')
      else let sym_index = getSymbolIndex lib symbol_name
        in if sym_index = - 1 then Inl (RuntimeError ''No such symbol'')
           else createHook new_symbol ret lib sym_index replacement orig m)"

definition deleteHook :: "nat \<Rightarrow> hook_manager \<Rightarrow> hook_manager cxx" where
  "deleteHook hook m =
     (case hook_at m hook of
        None \<Rightarrow> Inl Undefined
      | Some h \<Rightarrow>
          (case symbol_at m (hi_symbol h) of
             None \<Rightarrow> Inl Undefined
           | Some s \<Rightarrow>
               cxx_bind
                 (if hi_child h = 0 then Inr m
                  else (case hook_at m (hi_child h) of
                    None \<Rightarrow> Inl Undefined
                  | Some c \<Rightarrow>
                      if hi_orig c = 0 \<or> hi_parent h \<noteq> 0 \<and> hook_at m (hi_parent h) = None then Inl Undefined
                      else Inr (m\<lparr>hook_at := (hook_at m)(hi_child h \<mapsto> c\<lparr>hi_parent := hi_parent h\<rparr>),
                        cells := (cells m)(hi_orig c :=
                          if hi_parent h \<noteq> 0 then hi_replacement (the (hook_at m (hi_parent h))) else hs_original s)\<rparr>))) (\<lambda>m1.
               cxx_bind
                 (if hi_parent h = 0 then Inr m1
                  else (case hook_at m1 (hi_parent h) of
                    None \<Rightarrow> Inl Undefined
                  | Some p \<Rightarrow> Inr (m1\<lparr>hook_at := (hook_at m1)(hi_parent h \<mapsto> p\<lparr>hi_child := hi_child h\<rparr>)\<rparr>))) (\<lambda>m2.
               let s1 = (if firstHook s = hook then s\<lparr>firstHook := hi_child h\<rparr> else s);
                   s2 = (if lastHook s1 = hook then s1\<lparr>lastHook := hi_parent h\<rparr> else s1)
               in Inr (m2\<lparr>symbol_at := (symbol_at m2)(hi_symbol h \<mapsto> s2), hook_at := (hook_at m2)(hook := None)\<rparr>)))))"

section \<open>Applying\<close>

text \<open>One relocation. The message for the log reads the name of the symbol.\<close>

definition apply_rel :: "(nat \<Rightarrow> bool) \<Rightarrow> lib_info \<Rightarrow> nat \<times> u32 \<times> nat \<Rightarrow> hook_manager \<Rightarrow> hook_manager cxx" where
  "apply_rel patched l r m =
     (case r of (ty, sy, off) \<Rightarrow>
        (case li_hooks l sy of
           None \<Rightarrow> Inr m
         | Some a \<Rightarrow>
             (case symbol_at m a of
                None \<Rightarrow> Inl Undefined
              | Some s \<Rightarrow>
                  if lastHook s \<noteq> 0 \<and> hook_at m (lastHook s) = None then Inl Undefined
                  else
                    let repl = (if lastHook s \<noteq> 0 then hi_replacement (the (hook_at m (lastHook s))) else 0);
                        replacement = (if repl \<noteq> 0 then repl else hs_original s);
                        addr = li_base l + off
                    in if replacement = 0 then Inr m
                       else cxx_bind (getSymbolName l sy) (\<lambda>nm.
                         let orig = (if patched ty then cells m addr else 0);
                             m1 = (if patched ty then m\<lparr>cells := (cells m)(addr := replacement)\<rparr> else m)
                         in if orig = 0 \<or> hs_original s \<noteq> 0 then Inr m1
                            else let m2 = m1\<lparr>symbol_at := (symbol_at m1)(a \<mapsto> s\<lparr>hs_original := orig\<rparr>)\<rparr>
                              in if firstHook s = 0 then Inr m2
                                 else (case hook_at m2 (firstHook s) of
                                   None \<Rightarrow> Inl Undefined
                                 | Some f \<Rightarrow> if hi_orig f = 0 then Inl Undefined else Inr (m2\<lparr>cells := (cells m2)(hi_orig f := orig)\<rparr>))))))"

fun apply_rels :: "(nat \<Rightarrow> bool) \<Rightarrow> lib_info \<Rightarrow> (nat \<times> u32 \<times> nat) list \<Rightarrow> hook_manager \<Rightarrow> hook_manager cxx" where
  "apply_rels patched l [] m = Inr m"
| "apply_rels patched l (r # rs) m = cxx_bind (apply_rel patched l r m) (apply_rels patched l rs)"

definition lib_applyHooks :: "(nat \<Rightarrow> bool) \<Rightarrow> lib_info \<Rightarrow> hook_manager \<Rightarrow> hook_manager cxx" where
  "lib_applyHooks patched l m = cxx_bind (apply_rels patched l (li_rel l) m) (apply_rels patched l (li_pltrel l))"

text \<open>\<open>order\<close> is the order in which the hash map visits the libraries.\<close>

fun applyHooks :: "(nat \<Rightarrow> bool) \<Rightarrow> nat list \<Rightarrow> hook_manager \<Rightarrow> hook_manager cxx" where
  "applyHooks patched [] m = Inr m"
| "applyHooks patched (lib # order) m =
     cxx_bind (case lib_of m lib of None \<Rightarrow> Inr m | Some l \<Rightarrow> lib_applyHooks patched l m) (applyHooks patched order)"

section \<open>Constructor names\<close>

text \<open>\<^verbatim>\<open>strtol\<close> in base ten: how many characters it takes (0 when there is no number) and the value, held to the range of a
  64-bit \<^verbatim>\<open>long\<close>.\<close>

definition strtol10 :: "string \<Rightarrow> nat \<times> int" where
  "strtol10 s =
     (let ws = takeWhile is_space s; r = dropWhile is_space s;
          neg = (r \<noteq> [] \<and> hd r = CHR ''-'');
          signed = (neg \<or> r \<noteq> [] \<and> hd r = CHR ''+'');
          ds = takeWhile is_digit (if signed then tl r else r)
      in if ds = [] then (0, 0)
         else (length ws + (if signed then 1 else 0) + length ds,
               if neg then max (- (2 ^ 63)) (- int (dec_val ds)) else min (2 ^ 63 - 1) (int (dec_val ds))))"

text \<open>The loop; \<open>s\<close> is the offset of the pointer. A pointer further than one past the final zero is undefined.\<close>

partial_function (option) translate_loop :: "string \<Rightarrow> int \<Rightarrow> int cxx option" where
  "translate_loop name s =
     (if s \<ge> int (length name) then Some (Inr s)
      else if name ! nat s = CHR ''N'' then translate_loop name (s + 1)
      else let k = fst (strtol10 (drop (nat s) name)); len = snd (strtol10 (drop (nat s) name))
        in if k = 0 then Some (Inr s)
           else if s + int k + len < 0 \<or> s + int k + len > int (length name) + 1 then Some (Inl Undefined)
           else translate_loop name (s + int k + len))"

definition translateConstructorName :: "string \<Rightarrow> string cxx option" where
  "translateConstructorName name =
     (if length name < 2 \<or> take 2 name \<noteq> ''_Z'' then Some (Inr [])
      else map_option (\<lambda>r. cxx_bind r (\<lambda>s.
        if s \<ge> int (length name) then Inr []
        else if int (length name) - s \<ge> 2 \<and> name ! nat s = CHR ''C'' \<and> name ! (nat s + 1) = CHR ''2''
          then Inr (name[nat s + 1 := CHR ''1''])
        else Inr [])) (translate_loop name 2))"

section \<open>Laws\<close>

text \<open>The managers the program can have: what any sequence of the operations leaves of the empty one.\<close>

inductive hook_reach :: "hook_manager \<Rightarrow> bool" where
  reach_new: "hook_reach (new_hook_manager c)"
| reach_add: "hook_reach m \<Longrightarrow> hook_reach (addLibrary base p lib m)"
| reach_remove: "hook_reach m \<Longrightarrow> hook_reach (removeLibrary lib m)"
| reach_create: "hook_reach m \<Longrightarrow> createHook sa ret lib i repl orig m = Inr (h, m') \<Longrightarrow> hook_reach m'"
| reach_create_name: "hook_reach m \<Longrightarrow> createHook_name sa ret lib nm repl orig m = Inr (h, m') \<Longrightarrow> hook_reach m'"
| reach_delete: "hook_reach m \<Longrightarrow> deleteHook h m = Inr m' \<Longrightarrow> hook_reach m'"
| reach_apply: "hook_reach m \<Longrightarrow> applyHooks patched order m = Inr m' \<Longrightarrow> hook_reach m'"

definition no_tables :: "hook_manager \<Rightarrow> bool" where
  "no_tables m \<longleftrightarrow> hm_symbols m = Map.empty \<and> hook_at m = Map.empty \<and>
     (\<forall>p l. lib_at m p = Some l \<longrightarrow> li_names l = None \<and> li_rel l = [] \<and> li_pltrel l = [])"

lemma no_tables_create:
  assumes "no_tables m"
  shows "\<exists>e. createHook sa ret lib i repl orig m = Inl e"
  using assms
  by (auto simp: no_tables_def createHook_def getOrCreateHookSymbol_def setHook_def getSymbolName_def cxx_bind_def Let_def
      split: option.splits sum.splits)

lemma no_tables_create_name: "\<exists>e. createHook_name sa ret lib nm repl orig m = Inl e"
  by (simp add: createHook_name_def getSymbolIndex_def)

lemma no_tables_apply:
  assumes "no_tables m"
  shows "applyHooks patched order m = Inr m"
proof (induction order)
  case (Cons lib order)
  have "lib_of m lib = Some l \<Longrightarrow> lib_applyHooks patched l m = Inr m" for l
    using assms by (auto simp: no_tables_def lib_of_def lib_applyHooks_def cxx_bind_def split: option.splits)
  then show ?case
    using Cons by (simp add: cxx_bind_def split: option.split)
qed simp

lemma hook_reach_no_tables: "hook_reach m \<Longrightarrow> no_tables m"
proof (induction rule: hook_reach.induct)
  case (reach_create m sa ret lib i repl orig h m')
  then show ?case using no_tables_create [of m sa ret lib i repl orig] by auto
next
  case (reach_create_name m sa ret lib nm repl orig h m')
  then show ?case using no_tables_create_name [of sa ret lib nm repl orig m] by auto
next
  case (reach_apply m patched order m')
  then show ?case by (simp add: no_tables_apply)
qed (auto simp: no_tables_def new_hook_manager_def addLibrary_def new_lib_info_def removeLibrary_def deleteHook_def Let_def
      split: option.splits if_splits)

text \<open>With the code that reads the tables of a library commented out, no hook can be created in any state the program reaches, by
  index or by name, and applying hooks changes nothing.\<close>

theorem hooks_never_created:
  assumes "hook_reach m"
  shows "(\<exists>e. createHook sa ret lib i repl orig m = Inl e) \<and> (\<exists>e. createHook_name sa ret lib nm repl orig m = Inl e) \<and>
    applyHooks patched order m = Inr m"
  using no_tables_create no_tables_create_name no_tables_apply hook_reach_no_tables [OF assms] by blast

subsection \<open>Constructor names\<close>

text \<open>A component of a nested name: the length in decimal and the identifier, which is not empty and does not begin with a digit.\<close>

definition mangled_ident :: "string \<Rightarrow> string" where
  "mangled_ident x = dec_nat (length x) @ x"

definition ident_ok :: "string \<Rightarrow> bool" where
  "ident_ok x \<longleftrightarrow> x \<noteq> [] \<and> \<not> is_digit (hd x) \<and> length x < 2 ^ 63"

lemma strtol10_ident:
  assumes "ident_ok x"
  shows "strtol10 (mangled_ident x @ r) = (length (dec_nat (length x)), int (length x))"
proof -
  obtain d ds where d: "dec_nat (length x) = d # ds"
    by (cases "dec_nat (length x)") auto
  have dd: "is_digit d" and all: "\<forall>c \<in> set (d # ds). is_digit c"
    using dec_nat_digits [of "length x"] d by auto
  have tw: "takeWhile is_digit ((d # ds) @ x @ r) = d # ds"
    using assms all by (subst takeWhile_append2) (auto simp: ident_ok_def neq_Nil_conv)
  have "dec_val (d # ds) = length x"
    using dec_val_dec_nat [of "length x"] d by simp
  moreover have "int (length x) \<le> 2 ^ 63 - 1"
    using assms by (simp add: ident_ok_def)
  ultimately show ?thesis
    using tw digit_not_sign [OF dd] d by (simp add: strtol10_def mangled_ident_def)
qed

lemma translate_loop_components:
  assumes "\<forall>x \<in> set ids. ident_ok x"
  shows "translate_loop (pre @ concat (map mangled_ident ids) @ ''C2'' @ r) (int (length pre)) =
    Some (Inr (int (length pre + length (concat (map mangled_ident ids)))))"
  using assms
proof (induction ids arbitrary: pre)
  case Nil
  have "strtol10 (''C2'' @ r) = (0, 0)"
    by (simp add: strtol10_def is_space_def is_digit_def)
  then show ?case
    by (subst translate_loop.simps) (simp add: nth_append)
next
  case (Cons x ids)
  let ?n = "pre @ mangled_ident x @ concat (map mangled_ident ids) @ ''C2'' @ r"
  have x: "ident_ok x" using Cons.prems by simp
  obtain d ds where d: "dec_nat (length x) = d # ds"
    by (cases "dec_nat (length x)") auto
  then have "is_digit d"
    using dec_nat_digits [of "length x"] by auto
  then have first: "?n ! length pre \<noteq> CHR ''N''"
    using d by (auto simp: mangled_ident_def nth_append is_digit_def)
  have st: "strtol10 (drop (length pre) ?n) = (length (dec_nat (length x)), int (length x))"
    using strtol10_ident [OF x] by simp
  have "translate_loop ?n (int (length pre)) = translate_loop ?n (int (length (pre @ mangled_ident x)))"
    using first st d by (subst translate_loop.simps) (simp add: Let_def mangled_ident_def algebra_simps)
  then show ?case
    using Cons.IH [of "pre @ mangled_ident x"] Cons.prems by (simp add: algebra_simps)
qed

text \<open>
  C30 (constructor_name_translated). The name of a base object constructor is translated to that of the complete object constructor: for every nested name, given by its
  identifiers (not empty, not beginning with a digit, shorter than 2^63 characters), followed by \<^verbatim>\<open>C2\<close> and any rest, the result is the same name with \<^verbatim>\<open>C1\<close> in that place, also when an identifier
  contains these letters itself.\<close>

theorem constructor_name_translated:
  assumes "\<forall>x \<in> set ids. ident_ok x"
  shows "translateConstructorName (''_ZN'' @ concat (map mangled_ident ids) @ ''C2'' @ r) =
    Some (Inr (''_ZN'' @ concat (map mangled_ident ids) @ ''C1'' @ r))"
proof -
  let ?c = "concat (map mangled_ident ids)"
  have "translate_loop (''_ZN'' @ ?c @ ''C2'' @ r) 2 = translate_loop (''_ZN'' @ ?c @ ''C2'' @ r) 3"
    by (subst translate_loop.simps) simp
  also have "\<dots> = Some (Inr (int (3 + length ?c)))"
    using translate_loop_components [OF assms, of "''_ZN''" r] by simp
  finally have l: "translate_loop (''_ZN'' @ ?c @ ''C2'' @ r) 2 = Some (Inr (int (3 + length ?c)))" .
  have "(''_ZN'' @ ?c @ ''C2'' @ r) ! (3 + length ?c) = CHR ''C''" "(''_ZN'' @ ?c @ ''C2'' @ r) ! (4 + length ?c) = CHR ''2''"
    "(''_ZN'' @ ?c @ ''C2'' @ r)[4 + length ?c := CHR ''1''] = ''_ZN'' @ ?c @ ''C1'' @ r"
    by (simp_all add: nth_append list_update_append eval_nat_numeral)
  then show ?thesis
    using l by (simp add: translateConstructorName_def cxx_bind_def nat_add_distrib add.commute)
qed

theorem constructor_name_translated_witness:
  "translateConstructorName ''_ZN3mce4UUIDC2Ev'' = Some (Inr ''_ZN3mce4UUIDC1Ev'')"
proof -
  have "mangled_ident ''mce'' = ''3mce''" "mangled_ident ''UUID'' = ''4UUID''" by code_simp+
  then show ?thesis
    using constructor_name_translated [of "[''mce'', ''UUID'']" "''Ev''"] by (simp add: ident_ok_def is_digit_def)
qed

text \<open>A negative length can lead back to the same place: the name \<^verbatim>\<open>_Z-2\<close> keeps the loop running forever.\<close>

lemma translate_loop_back: "translate_loop name s = Some y \<Longrightarrow> \<not> (name = ''_Z-2'' \<and> s = 2)"
proof (induction name s y rule: translate_loop.raw_induct [rotated 1, consumes 1])
  case (1 f name s y)
  have "strtol10 ''-2'' = (2, - 2)" by code_simp
  then show ?case using 1(1) [of "''_Z-2''" 2 y] 1(2) by (auto simp: Let_def)
qed

theorem constructor_name_stuck: "translateConstructorName ''_Z-2'' = None"
  using translate_loop_back by (cases "translate_loop ''_Z-2'' 2") (auto simp: translateConstructorName_def)

end
