(* ===== verification/Gamepad.thy ===== *)
theory Gamepad
  imports Complex_Main "HOL-Library.AList" Cxx_Text
begin

text \<open>
  Gamepads (\<^verbatim>\<open>linux-gamepad\<close>): the list of callbacks (\<^verbatim>\<open>callback_list.h\<close>), mappings of joystick inputs to gamepad inputs and their textual
  form (\<^verbatim>\<open>gamepad_mapping.cpp\<close>), the state of a gamepad (\<^verbatim>\<open>gamepad.cpp\<close>) and the manager that gives gamepads their ids and turns joystick
  events into gamepad events (\<^verbatim>\<open>gamepad_manager.cpp\<close>).

  Axis values (\<^verbatim>\<open>float\<close>) are rational numbers, so rounding is not modelled; \<^verbatim>\<open>NAN\<close> is \<open>None\<close>. The parser works on what is left of the
  text: an index into the string is the rest of the string from there, and reading at the end gives the null
  character.
\<close>

unbundle bit_operations_syntax

section \<open>Callbacks\<close>

record 'c callback_list =
  callbacks :: "(int \<times> 'c) list"
  nextId :: int

definition new_callback_list :: "'c callback_list" where
  "new_callback_list = \<lparr>callbacks = [], nextId = 0\<rparr>"

definition cb_add :: "'c \<Rightarrow> 'c callback_list \<Rightarrow> int \<times> 'c callback_list" where
  "cb_add t l = (nextId l, l\<lparr>callbacks := callbacks l @ [(nextId l, t)], nextId := nextId l + 1\<rparr>)"

fun remove_first :: "int \<Rightarrow> (int \<times> 'c) list \<Rightarrow> (int \<times> 'c) list" where
  "remove_first i [] = []"
| "remove_first i (e # es) = (if fst e = i then es else e # remove_first i es)"

definition cb_remove :: "int \<Rightarrow> 'c callback_list \<Rightarrow> 'c callback_list" where
  "cb_remove i l = l\<lparr>callbacks := remove_first i (callbacks l)\<rparr>"

text \<open>Calling the list calls every entry in order; a call is a change of the state \<open>'s\<close>.\<close>

definition cb_call :: "('s \<Rightarrow> 's) callback_list \<Rightarrow> 's \<Rightarrow> 's" where
  "cb_call l s = fold (\<lambda>c. snd c) (callbacks l) s"

section \<open>Mappings\<close>

datatype GamepadButton =
    BTN_A | BTN_B | BTN_X | BTN_Y | LB | RB | BACK | START | GUIDE | LEFT_STICK | RIGHT_STICK
  | DPAD_UP | DPAD_RIGHT | DPAD_DOWN | DPAD_LEFT

datatype GamepadAxis = LEFT_X | LEFT_Y | RIGHT_X | RIGHT_Y | LEFT_TRIGGER | RIGHT_TRIGGER

datatype MapFrom = FromButton int | FromAxis int rat rat | FromHat int int

datatype MapTo = ToButton GamepadButton | ToAxis GamepadAxis rat rat

record GamepadMapping =
  guid :: string
  name :: string
  mappings :: "(MapFrom \<times> MapTo) list"

definition createKnownButtonList :: "(string \<times> GamepadButton) list" where
  "createKnownButtonList =
     [(''a'', BTN_A), (''b'', BTN_B), (''x'', BTN_X), (''y'', BTN_Y), (''leftshoulder'', LB), (''rightshoulder'', RB),
      (''back'', BACK), (''start'', START), (''guide'', GUIDE), (''leftstick'', LEFT_STICK), (''rightstick'', RIGHT_STICK),
      (''dpup'', DPAD_UP), (''dpright'', DPAD_RIGHT), (''dpdown'', DPAD_DOWN), (''dpleft'', DPAD_LEFT)]"

definition createKnownAxisList :: "(string \<times> GamepadAxis) list" where
  "createKnownAxisList =
     [(''leftx'', LEFT_X), (''lefty'', LEFT_Y), (''rightx'', RIGHT_X), (''righty'', RIGHT_Y),
      (''lefttrigger'', LEFT_TRIGGER), (''righttrigger'', RIGHT_TRIGGER)]"

subsection \<open>Parsing\<close>

text \<open>\<^verbatim>\<open>find_e\<close>: what is before and after the first occurrence of a character.\<close>

definition find_e :: "char \<Rightarrow> string \<Rightarrow> (string \<times> string) cxx" where
  "find_e c s =
     (if c \<in> set s then Inr (takeWhile (\<lambda>x. x \<noteq> c) s, tl (dropWhile (\<lambda>x. x \<noteq> c) s))
      else Inl (InvalidArgument ''Invalid mapping''))"

text \<open>\<^verbatim>\<open>strtol\<close> in base 10: the value, clamped to 64 bits, and the rest of the text; without digits nothing is consumed.\<close>

definition strtol :: "string \<Rightarrow> int \<times> string" where
  "strtol s =
     (let t = dropWhile is_space s;
          neg = (take 1 t = ''-'');
          u = (if take 1 t = ''-'' \<or> take 1 t = ''+'' then tl t else t);
          ds = takeWhile is_digit u
      in if ds = [] then (0, s)
         else (max (- (2 ^ 63)) (min (2 ^ 63 - 1) (if neg then - int (dec_val ds) else int (dec_val ds))), dropWhile is_digit u))"

definition to_int32 :: "int \<Rightarrow> int" where
  "to_int32 i = sint (of_int i :: 32 word)"

definition parse_int :: "string \<Rightarrow> (int \<times> string) cxx" where
  "parse_int s =
     (let (ret, rest) = strtol s in if rest = s then Inl (InvalidArgument ''Invalid integer'') else Inr (to_int32 ret, rest))"

definition take_sign :: "string \<Rightarrow> char option \<times> string" where
  "take_sign s = (if take 1 s = ''-'' \<or> take 1 s = ''+'' then (Some (hd s), tl s) else (None, s))"

definition half_range :: "char option \<Rightarrow> rat \<times> rat" where
  "half_range m = (case m of None \<Rightarrow> (- 1, 1) | Some c \<Rightarrow> (0, if c = CHR ''+'' then 1 else - 1))"

definition axis_target :: "GamepadAxis \<Rightarrow> char option \<Rightarrow> MapTo" where
  "axis_target a toMod =
     (if a = LEFT_TRIGGER \<or> a = RIGHT_TRIGGER then ToAxis a 0 1
      else ToAxis a (fst (half_range toMod)) (snd (half_range toMod)))"

text \<open>Inverting a button swaps two floats of the union that nothing reads.\<close>

fun swap_range :: "MapTo \<Rightarrow> MapTo" where
  "swap_range (ToAxis a lo hi) = ToAxis a hi lo"
| "swap_range t = t"

text \<open>The source of an entry, for a target: the entry and the text behind.\<close>

definition parse_source :: "MapTo \<Rightarrow> string \<Rightarrow> ((MapFrom \<times> MapTo) \<times> string) cxx" where
  "parse_source to r =
     (let (fromMod, r1) = take_sign r;
          inv = (take 1 r1 = ''~'');
          r2 = (if inv then tl r1 else r1)
      in if take 1 r2 = ''b'' then cxx_bind (parse_int (tl r2)) (\<lambda>(i, r3). Inr ((FromButton i, to), r3))
         else if take 1 r2 = ''a'' then
           cxx_bind (parse_int (tl r2)) (\<lambda>(i, r3).
             Inr ((FromAxis i (fst (half_range fromMod)) (snd (half_range fromMod)), if inv then swap_range to else to), r3))
         else if take 1 r2 = ''h'' then
           cxx_bind (parse_int (tl r2)) (\<lambda>(i, r3).
             if take 1 r3 \<noteq> ''.'' then Inl (InvalidArgument ''Invalid mapping: expected . after hat id'')
             else cxx_bind (parse_int (tl r3)) (\<lambda>(m, r4). Inr ((FromHat i m, to), r4)))
         else Inl (InvalidArgument ''Invalid mapping: invalid map-to''))"

text \<open>What follows the next comma.\<close>

definition next_entry :: "string \<Rightarrow> string" where
  "next_entry r = tl (dropWhile (\<lambda>c. c \<noteq> CHR '','') r)"

text \<open>One round of the loop, from behind a comma: the entry, if its target is known, and the text of the next round.\<close>

definition parse_entry :: "string \<Rightarrow> ((MapFrom \<times> MapTo) option \<times> string) cxx" where
  "parse_entry r =
     (let (toMod, r1) = take_sign r in
      cxx_bind (find_e (CHR '':'') r1) (\<lambda>(key, r2).
        case map_of createKnownButtonList key of
          Some b \<Rightarrow> cxx_bind (parse_source (ToButton b) r2) (\<lambda>(m, r3). Inr (Some m, next_entry r3))
        | None \<Rightarrow>
            (case map_of createKnownAxisList key of
               Some a \<Rightarrow> cxx_bind (parse_source (axis_target a toMod) r2) (\<lambda>(m, r3). Inr (Some m, next_entry r3))
             | None \<Rightarrow> Inr (None, next_entry (drop 1 r1)))))"

lemma next_entry_le: "length (next_entry r) \<le> length r"
  using length_dropWhile_le [of "\<lambda>c. c \<noteq> CHR '',''" r] by (simp add: next_entry_def)

lemma take_sign_le: "length (snd (take_sign r)) \<le> length r"
  by (simp add: take_sign_def)

lemma strtol_le: "length (snd (strtol s)) \<le> length s"
proof -
  have "length (dropWhile is_digit u) \<le> length u" "length (dropWhile is_space s) \<le> length s" for u
    by (rule length_dropWhile_le)+
  then show ?thesis
    by (auto simp: strtol_def Let_def) (metis diff_le_self le_trans length_tl)+
qed

lemma parse_int_le: "parse_int s = Inr (i, r) \<Longrightarrow> length r \<le> length s"
  using strtol_le [of s] by (auto simp: parse_int_def Let_def split: prod.splits if_splits)

lemma parse_source_le: "parse_source to r = Inr (m, r') \<Longrightarrow> length r' \<le> length r"
proof -
  assume p: "parse_source to r = Inr (m, r')"
  obtain fm r1 where r1: "take_sign r = (fm, r1)" by (cases "take_sign r")
  let ?r2 = "if take 1 r1 = ''~'' then tl r1 else r1"
  have "length ?r2 \<le> length r" using take_sign_le [of r] r1 by (auto intro: le_trans [OF diff_le_self])
  moreover have "length r' \<le> length ?r2"
    using p r1 by (auto simp: parse_source_def Let_def cxx_bind_eq_Inr split: if_splits dest!: parse_int_le)
  ultimately show ?thesis by simp
qed

lemma find_e_less: "find_e c s = Inr (a, b) \<Longrightarrow> length b < length s"
proof -
  assume f: "find_e c s = Inr (a, b)"
  then have "c \<in> set s" "b = tl (dropWhile (\<lambda>x. x \<noteq> c) s)" by (auto simp: find_e_def split: if_splits)
  moreover have "dropWhile (\<lambda>x. x \<noteq> c) s \<noteq> []" using \<open>c \<in> set s\<close> by (simp add: dropWhile_eq_Nil_conv)
  moreover have "length (dropWhile (\<lambda>x. x \<noteq> c) s) \<le> length s" by (rule length_dropWhile_le)
  ultimately show ?thesis by (cases "dropWhile (\<lambda>x. x \<noteq> c) s") auto
qed

lemma parse_entry_shorter: "parse_entry r = Inr (m, r') \<Longrightarrow> r \<noteq> [] \<Longrightarrow> length r' < length r"
proof -
  assume p: "parse_entry r = Inr (m, r')" and ne: "r \<noteq> []"
  obtain tm r1 where r1: "take_sign r = (tm, r1)" by (cases "take_sign r")
  have le: "length r1 \<le> length r" using take_sign_le [of r] r1 by simp
  obtain key r2 where f: "find_e (CHR '':'') r1 = Inr (key, r2)"
    using p r1 by (auto simp: parse_entry_def cxx_bind_eq_Inr)
  have lt: "length r2 < length r1" using find_e_less [OF f] .
  have src: "length r' \<le> length r2" if "cxx_bind (parse_source t r2) (\<lambda>(m, r3). Inr (Some m, next_entry r3)) = Inr (m, r')" for t
    using that next_entry_le parse_source_le by (fastforce simp: cxx_bind_eq_Inr intro: le_trans)
  have "length r' < length r1"
  proof (cases "map_of createKnownButtonList key")
    case (Some b)
    then show ?thesis using p r1 f lt src [of "ToButton b"] by (simp add: parse_entry_def)
  next
    case None
    show ?thesis
    proof (cases "map_of createKnownAxisList key")
      case (Some a)
      then show ?thesis using None p r1 f lt src [of "axis_target a tm"] by (simp add: parse_entry_def)
    next
      case none: None
      have "r1 \<noteq> []" using f by (auto simp: find_e_def split: if_splits)
      then show ?thesis using None none p r1 f next_entry_le [of "drop 1 r1"]
        by (cases r1) (auto simp: parse_entry_def)
    qed
  qed
  then show ?thesis using le by simp
qed

function parse_entries :: "string \<Rightarrow> (MapFrom \<times> MapTo) list cxx" where
  "parse_entries r =
     (if r = [] then Inr []
      else cxx_bind (parse_entry r) (\<lambda>e. cxx_bind (parse_entries (snd e)) (\<lambda>ms. Inr (case fst e of None \<Rightarrow> ms | Some m \<Rightarrow> m # ms))))"
  by pat_completeness auto
termination by (relation "measure length") (auto dest: parse_entry_shorter)

declare parse_entries.simps [simp del]

definition parse :: "string \<Rightarrow> GamepadMapping \<Rightarrow> GamepadMapping cxx" where
  "parse s m =
     cxx_bind (find_e (CHR '','') s) (\<lambda>(g, r).
     cxx_bind (find_e (CHR '','') r) (\<lambda>(n, r2).
     cxx_bind (parse_entries r2) (\<lambda>ms. Inr (m\<lparr>guid := g, name := n, mappings := mappings m @ ms\<rparr>))))"

subsection \<open>Reading values\<close>

definition isAxisActive :: "rat \<Rightarrow> rat \<Rightarrow> rat \<Rightarrow> bool" where
  "isAxisActive lo hi value = (if lo < hi then (lo + hi) / 2 \<le> value else value \<le> (lo + hi) / 2)"

text \<open>On an empty source range the code divides zero by zero, which is not a number.\<close>

definition getAxisTransformedValue :: "rat \<times> rat \<Rightarrow> rat \<times> rat \<Rightarrow> rat \<Rightarrow> rat option" where
  "getAxisTransformedValue a d value =
     (if value < min (fst a) (snd a) \<or> max (fst a) (snd a) < value then None
      else if fst a = snd a then None
      else Some (fst d + (value - fst a) / (snd a - fst a) * (snd d - fst d)))"

section \<open>Gamepads\<close>

text \<open>The values a joystick reports (the virtual functions of \<^verbatim>\<open>Joystick\<close>).\<close>

record joystick_values =
  jv_button :: "int \<Rightarrow> bool"
  jv_axis :: "int \<Rightarrow> rat option"
  jv_hat :: "int \<Rightarrow> int"

text \<open>Comparisons with a value that is not a number are false.\<close>

fun button_source_active :: "joystick_values \<Rightarrow> MapFrom \<Rightarrow> bool" where
  "button_source_active j (FromButton i) = jv_button j i"
| "button_source_active j (FromAxis i lo hi) = (case jv_axis j i of None \<Rightarrow> False | Some v \<Rightarrow> isAxisActive lo hi v)"
| "button_source_active j (FromHat i m) = (jv_hat j i AND m \<noteq> 0)"

definition getButton :: "joystick_values \<Rightarrow> GamepadMapping \<Rightarrow> GamepadButton \<Rightarrow> bool" where
  "getButton j gm index = list_ex (\<lambda>(src, dst). dst = ToButton index \<and> button_source_active j src) (mappings gm)"

fun axis_source_value :: "joystick_values \<Rightarrow> MapFrom \<Rightarrow> rat \<times> rat \<Rightarrow> rat option" where
  "axis_source_value j (FromButton i) d = (if jv_button j i then Some (snd d) else None)"
| "axis_source_value j (FromAxis i lo hi) d =
     (case jv_axis j i of None \<Rightarrow> None | Some v \<Rightarrow> getAxisTransformedValue (lo, hi) d v)"
| "axis_source_value j (FromHat i m) d = (if jv_hat j i AND m \<noteq> 0 then Some (snd d) else None)"

fun first_axis_value :: "joystick_values \<Rightarrow> GamepadAxis \<Rightarrow> (MapFrom \<times> MapTo) list \<Rightarrow> rat" where
  "first_axis_value j index [] = 0"
| "first_axis_value j index ((src, ToButton b) # ms) = first_axis_value j index ms"
| "first_axis_value j index ((src, ToAxis a lo hi) # ms) =
     (if a \<noteq> index then first_axis_value j index ms
      else case axis_source_value j src (lo, hi) of Some v \<Rightarrow> v | None \<Rightarrow> first_axis_value j index ms)"

definition getAxis :: "joystick_values \<Rightarrow> GamepadMapping \<Rightarrow> GamepadAxis \<Rightarrow> rat" where
  "getAxis j gm index = first_axis_value j index (mappings gm)"

section \<open>The manager\<close>

text \<open>
  A gamepad refers to the mapping of the manager it was given: the entry under its GUID, or (\<open>None\<close>) the default
  mapping. Joysticks are numbered; \<open>gamepads\<close> is the \<^verbatim>\<open>gamepad\<close> pointer of each of them.
\<close>

record gamepad =
  gp_index :: int
  gp_joystick :: nat
  gp_mapping :: "string option"

record GamepadManager =
  defaultMapping :: GamepadMapping
  gm_mappings :: "(string \<times> GamepadMapping) list"
  takenGamepadIds :: "int list"
  takenGamepadLowId :: int
  gamepads :: "nat \<Rightarrow> gamepad option"

text \<open>The calls of the manager's callback lists.\<close>

datatype gamepad_event =
    GamepadConnected gamepad
  | GamepadDisconnected gamepad
  | GamepadButtonChanged gamepad GamepadButton bool
  | GamepadAxisChanged gamepad GamepadAxis rat

definition empty_mapping :: GamepadMapping where
  "empty_mapping = \<lparr>guid = [], name = [], mappings = []\<rparr>"

definition new_GamepadManager :: GamepadManager where
  "new_GamepadManager =
     \<lparr>defaultMapping = empty_mapping, gm_mappings = [], takenGamepadIds = [], takenGamepadLowId = 0, gamepads = (\<lambda>_. None)\<rparr>"

definition addMapping :: "GamepadMapping \<Rightarrow> GamepadManager \<Rightarrow> GamepadManager" where
  "addMapping m gm = gm\<lparr>gm_mappings := AList.update (guid m) m (gm_mappings gm)\<rparr>"

definition addMapping_text :: "string \<Rightarrow> GamepadManager \<Rightarrow> GamepadManager cxx" where
  "addMapping_text s gm = cxx_bind (parse s empty_mapping) (\<lambda>m. Inr (addMapping m gm))"

text \<open>The ids taken are an ordered set: a sorted list.\<close>

fun take_run :: "int \<Rightarrow> int list \<Rightarrow> int" where
  "take_run p [] = p"
| "take_run p (i # is) = (if i = p + 1 then take_run i is else p)"

definition takeGamepadId :: "GamepadManager \<Rightarrow> int \<times> GamepadManager" where
  "takeGamepadId gm =
     (let low = takenGamepadLowId gm;
          p = take_run (low - 1) (dropWhile (\<lambda>i. i < low) (takenGamepadIds gm))
      in (p + 1, if p + 1 = low then gm\<lparr>takenGamepadLowId := low + 1\<rparr> else gm))"

definition putGamepadIdBack :: "int \<Rightarrow> GamepadManager \<Rightarrow> GamepadManager" where
  "putGamepadIdBack i gm =
     (let gm1 = (if i < takenGamepadLowId gm then gm\<lparr>takenGamepadLowId := i\<rparr> else gm)
      in gm1\<lparr>takenGamepadIds := removeAll i (takenGamepadIds gm1)\<rparr>)"

definition getMapping :: "string \<Rightarrow> GamepadManager \<Rightarrow> string option" where
  "getMapping js_guid gm = (if map_of (gm_mappings gm) js_guid = None then None else Some js_guid)"

definition mapping_of :: "GamepadManager \<Rightarrow> gamepad \<Rightarrow> GamepadMapping" where
  "mapping_of gm gp =
     (case gp_mapping gp of None \<Rightarrow> defaultMapping gm
      | Some g \<Rightarrow> (case map_of (gm_mappings gm) g of Some m \<Rightarrow> m | None \<Rightarrow> defaultMapping gm))"

definition onJoystickConnected :: "nat \<Rightarrow> string \<Rightarrow> GamepadManager \<Rightarrow> GamepadManager \<times> gamepad_event list" where
  "onJoystickConnected js js_guid gm =
     (let (gpi, gm1) = takeGamepadId gm;
          gp = \<lparr>gp_index = gpi, gp_joystick = js, gp_mapping = getMapping js_guid gm1\<rparr>
      in (gm1\<lparr>gamepads := (gamepads gm1)(js := Some gp)\<rparr>, [GamepadConnected gp]))"

definition onJoystickDisconnected :: "nat \<Rightarrow> GamepadManager \<Rightarrow> (GamepadManager \<times> gamepad_event list) cxx" where
  "onJoystickDisconnected js gm =
     (case gamepads gm js of
        None \<Rightarrow> Inl Undefined
      | Some gp \<Rightarrow>
          (let gm1 = putGamepadIdBack (gp_index gp) gm
           in Inr (gm1\<lparr>gamepads := (gamepads gm1)(js := None)\<rparr>, [GamepadDisconnected gp])))"

fun switch_event :: "gamepad \<Rightarrow> MapTo \<Rightarrow> bool \<Rightarrow> gamepad_event" where
  "switch_event gp (ToButton b) state = GamepadButtonChanged gp b state"
| "switch_event gp (ToAxis a lo hi) state = GamepadAxisChanged gp a (if state then hi else lo)"

fun button_events :: "gamepad \<Rightarrow> int \<Rightarrow> bool \<Rightarrow> MapFrom \<times> MapTo \<Rightarrow> gamepad_event list" where
  "button_events gp button state (FromButton i, dst) = (if i = button then [switch_event gp dst state] else [])"
| "button_events gp button state (src, dst) = []"

fun axis_events :: "gamepad \<Rightarrow> int \<Rightarrow> rat option \<Rightarrow> MapFrom \<times> MapTo \<Rightarrow> gamepad_event list" where
  "axis_events gp ax v (FromAxis i lo hi, ToButton b) =
     (if i = ax then [GamepadButtonChanged gp b (case v of None \<Rightarrow> False | Some x \<Rightarrow> isAxisActive lo hi x)] else [])"
| "axis_events gp ax v (FromAxis i lo hi, ToAxis a dlo dhi) =
     (if i \<noteq> ax then []
      else case Option.bind v (getAxisTransformedValue (lo, hi) (dlo, dhi)) of
        None \<Rightarrow> [] | Some y \<Rightarrow> [GamepadAxisChanged gp a y])"
| "axis_events gp ax v (src, dst) = []"

fun hat_events :: "gamepad \<Rightarrow> int \<Rightarrow> int \<Rightarrow> MapFrom \<times> MapTo \<Rightarrow> gamepad_event list" where
  "hat_events gp hat v (FromHat i m, dst) = (if i = hat then [switch_event gp dst (v AND m \<noteq> 0)] else [])"
| "hat_events gp hat v (src, dst) = []"

definition for_gamepad :: "(gamepad \<Rightarrow> MapFrom \<times> MapTo \<Rightarrow> gamepad_event list) \<Rightarrow> nat \<Rightarrow> GamepadManager \<Rightarrow> gamepad_event list" where
  "for_gamepad f js gm =
     (case gamepads gm js of None \<Rightarrow> [] | Some gp \<Rightarrow> concat (map (f gp) (mappings (mapping_of gm gp))))"

definition onJoystickButton :: "nat \<Rightarrow> int \<Rightarrow> bool \<Rightarrow> GamepadManager \<Rightarrow> gamepad_event list" where
  "onJoystickButton js button state = for_gamepad (\<lambda>gp. button_events gp button state) js"

definition onJoystickAxis :: "nat \<Rightarrow> int \<Rightarrow> rat option \<Rightarrow> GamepadManager \<Rightarrow> gamepad_event list" where
  "onJoystickAxis js ax v = for_gamepad (\<lambda>gp. axis_events gp ax v) js"

definition onJoystickHat :: "nat \<Rightarrow> int \<Rightarrow> int \<Rightarrow> GamepadManager \<Rightarrow> gamepad_event list" where
  "onJoystickHat js hat v = for_gamepad (\<lambda>gp. hat_events gp hat v) js"

section \<open>The textual form of a mapping\<close>

text \<open>What a mapping line may contain, independent of the parser: entries with a sign for half of an axis, and entries for other programs.\<close>

datatype entry_source = SrcButton nat | SrcAxis "char option" bool nat | SrcHat nat nat

datatype mapping_entry =
    ButtonEntry GamepadButton entry_source
  | AxisEntry "char option" GamepadAxis entry_source
  | OtherEntry string string

definition button_key :: "GamepadButton \<Rightarrow> string" where
  "button_key b = the (map_of (map prod.swap createKnownButtonList) b)"

definition axis_key :: "GamepadAxis \<Rightarrow> string" where
  "axis_key a = the (map_of (map prod.swap createKnownAxisList) a)"

fun sign_text :: "char option \<Rightarrow> string" where
  "sign_text None = []"
| "sign_text (Some c) = [c]"

fun source_text :: "entry_source \<Rightarrow> string" where
  "source_text (SrcButton i) = CHR ''b'' # dec_nat i"
| "source_text (SrcAxis s inverted i) = sign_text s @ (if inverted then ''~'' else []) @ CHR ''a'' # dec_nat i"
| "source_text (SrcHat i m) = CHR ''h'' # dec_nat i @ CHR ''.'' # dec_nat m"

fun entry_text :: "mapping_entry \<Rightarrow> string" where
  "entry_text (ButtonEntry b src) = button_key b @ CHR '':'' # source_text src"
| "entry_text (AxisEntry s a src) = sign_text s @ axis_key a @ CHR '':'' # source_text src"
| "entry_text (OtherEntry key v) = key @ CHR '':'' # v"

fun source_meaning :: "entry_source \<Rightarrow> MapFrom" where
  "source_meaning (SrcButton i) = FromButton (int i)"
| "source_meaning (SrcAxis s inverted i) =
     (if s = None then FromAxis (int i) (- 1) 1 else if s = Some CHR ''+'' then FromAxis (int i) 0 1 else FromAxis (int i) 0 (- 1))"
| "source_meaning (SrcHat i m) = FromHat (int i) (int m)"

fun inverts :: "entry_source \<Rightarrow> bool" where
  "inverts (SrcAxis s inverted i) = inverted"
| "inverts _ = False"

definition target_range :: "char option \<Rightarrow> GamepadAxis \<Rightarrow> rat \<times> rat" where
  "target_range s a =
     (if a \<in> {LEFT_TRIGGER, RIGHT_TRIGGER} then (0, 1) else if s = None then (- 1, 1)
      else if s = Some CHR ''+'' then (0, 1) else (0, - 1))"

fun entry_meaning :: "mapping_entry \<Rightarrow> (MapFrom \<times> MapTo) list" where
  "entry_meaning (ButtonEntry b src) = [(source_meaning src, ToButton b)]"
| "entry_meaning (AxisEntry s a src) =
     (let (lo, hi) = target_range s a
      in [(source_meaning src, if inverts src then ToAxis a hi lo else ToAxis a lo hi)])"
| "entry_meaning (OtherEntry key v) = []"

definition sign_ok :: "char option \<Rightarrow> bool" where
  "sign_ok s \<longleftrightarrow> s = None \<or> s = Some CHR ''+'' \<or> s = Some CHR ''-''"

fun source_ok :: "entry_source \<Rightarrow> bool" where
  "source_ok (SrcButton i) \<longleftrightarrow> i < 2 ^ 31"
| "source_ok (SrcAxis s inverted i) \<longleftrightarrow> sign_ok s \<and> i < 2 ^ 31"
| "source_ok (SrcHat i m) \<longleftrightarrow> i < 2 ^ 31 \<and> m < 2 ^ 31"

fun entry_ok :: "mapping_entry \<Rightarrow> bool" where
  "entry_ok (ButtonEntry b src) \<longleftrightarrow> source_ok src"
| "entry_ok (AxisEntry s a src) \<longleftrightarrow> sign_ok s \<and> source_ok src"
| "entry_ok (OtherEntry key v) \<longleftrightarrow>
     key \<noteq> [] \<and> hd key \<noteq> CHR ''+'' \<and> hd key \<noteq> CHR ''-'' \<and> CHR '','' \<notin> set key \<and> CHR '':'' \<notin> set key \<and> CHR '','' \<notin> set v \<and>
     map_of createKnownButtonList key = None \<and> map_of createKnownAxisList key = None"

definition mapping_text :: "string \<Rightarrow> string \<Rightarrow> mapping_entry list \<Rightarrow> string" where
  "mapping_text g n es = g @ '','' @ n @ '','' @ concat (map (\<lambda>e. entry_text e @ '','') es)"

lemma strtol_dec_nat:
  assumes "n < 2 ^ 31" "rest = [] \<or> \<not> is_digit (hd rest)"
  shows "strtol (dec_nat n @ rest) = (int n, rest)"
proof -
  obtain d ds where d: "dec_nat n = d # ds" by (cases "dec_nat n") simp_all
  have dig: "\<forall>c \<in> set (dec_nat n). is_digit c" by (rule dec_nat_digits)
  then have sp: "\<not> is_space d" "d \<noteq> CHR ''-''" "d \<noteq> CHR ''+''" using d digit_not_sign by auto
  have "takeWhile is_digit (dec_nat n @ rest) = dec_nat n" "dropWhile is_digit (dec_nat n @ rest) = rest"
    using dig assms(2) by (cases rest; simp add: takeWhile_append_stop dropWhile_append2)+
  moreover have "dropWhile is_space (dec_nat n @ rest) = dec_nat n @ rest" using d sp by simp
  moreover have "take 1 (dec_nat n @ rest) = [d]" using d by simp
  moreover have "dec_nat n \<noteq> []" using d by simp
  ultimately show ?thesis using assms(1) sp by (simp add: strtol_def Let_def)
qed

lemma parse_int_dec_nat:
  assumes "n < 2 ^ 31" "rest = [] \<or> \<not> is_digit (hd rest)"
  shows "parse_int (dec_nat n @ rest) = Inr (int n, rest)"
proof -
  have "to_int32 (int n) = int n" using assms(1) by (simp add: to_int32_def signed_of_nat signed_take_bit_int_eq_self)
  moreover have "dec_nat n \<noteq> []" by simp
  ultimately show ?thesis using strtol_dec_nat [OF assms] by (simp add: parse_int_def)
qed

lemma button_key_facts:
  "map_of createKnownButtonList (button_key b) = Some b"
  "CHR '':'' \<notin> set (button_key b)" "button_key b \<noteq> []" "hd (button_key b) \<noteq> CHR ''+''" "hd (button_key b) \<noteq> CHR ''-''"
  by (cases b; simp add: button_key_def createKnownButtonList_def)+

lemma axis_key_facts:
  "map_of createKnownAxisList (axis_key a) = Some a" "map_of createKnownButtonList (axis_key a) = None"
  "CHR '':'' \<notin> set (axis_key a)" "axis_key a \<noteq> []" "hd (axis_key a) \<noteq> CHR ''+''" "hd (axis_key a) \<noteq> CHR ''-''"
  by (cases a; simp add: axis_key_def createKnownAxisList_def createKnownButtonList_def)+

lemma find_e_append: "c \<notin> set k \<Longrightarrow> find_e c (k @ c # r) = Inr (k, r)"
  by (induction k) (auto simp: find_e_def)

lemma take_sign_plain: "k \<noteq> [] \<Longrightarrow> hd k \<noteq> CHR ''+'' \<Longrightarrow> hd k \<noteq> CHR ''-'' \<Longrightarrow> take_sign (k @ r) = (None, k @ r)"
  by (cases k) (auto simp: take_sign_def)

lemma take_sign_signed:
  "sign_ok s \<Longrightarrow> k \<noteq> [] \<Longrightarrow> hd k \<noteq> CHR ''+'' \<Longrightarrow> hd k \<noteq> CHR ''-'' \<Longrightarrow> take_sign (sign_text s @ k @ r) = (s, k @ r)"
  using take_sign_plain [of k r] by (auto simp: sign_ok_def take_sign_def)

lemma half_range_sign:
  "half_range None = (- 1, 1)" "half_range (Some CHR ''+'') = (0, 1)" "half_range (Some CHR ''-'') = (0, - 1)"
  by (simp_all add: half_range_def)

lemma axis_target_range: "sign_ok s \<Longrightarrow> axis_target a s = ToAxis a (fst (target_range s a)) (snd (target_range s a))"
  by (auto simp: axis_target_def target_range_def half_range_sign sign_ok_def)

lemma parse_source_text:
  assumes "source_ok src"
  shows "parse_source t (source_text src @ CHR '','' # r) =
    Inr ((source_meaning src, if inverts src then swap_range t else t), CHR '','' # r)"
proof -
  have nd: "\<not> is_digit (CHR '','')" "\<not> is_digit (CHR ''.'')" by (simp_all add: is_digit_def)
  show ?thesis
  proof (cases src)
    case (SrcButton i)
    then show ?thesis using assms nd parse_int_dec_nat [of i "CHR '','' # r"]
      by (simp add: parse_source_def take_sign_def)
  next
    case (SrcAxis s v i)
    have "take_sign (sign_text s @ ((if v then ''~'' else []) @ [CHR ''a'']) @ dec_nat i @ CHR '','' # r) =
        (s, ((if v then ''~'' else []) @ [CHR ''a'']) @ dec_nat i @ CHR '','' # r)"
      using SrcAxis assms by (intro take_sign_signed) auto
    then show ?thesis using SrcAxis assms nd parse_int_dec_nat [of i "CHR '','' # r"]
      by (auto simp: parse_source_def sign_ok_def half_range_sign)
  next
    case (SrcHat i m)
    then show ?thesis
      using assms nd parse_int_dec_nat [of i "CHR ''.'' # dec_nat m @ CHR '','' # r"] parse_int_dec_nat [of m "CHR '','' # r"]
      by (simp add: parse_source_def take_sign_def)
  qed
qed

lemma next_entry_comma: "CHR '','' \<notin> set k \<Longrightarrow> next_entry (k @ CHR '','' # r) = r"
  by (induction k) (auto simp: next_entry_def)

lemma parse_entry_text:
  assumes "entry_ok e"
  shows "parse_entry (entry_text e @ CHR '','' # r) =
    Inr (case entry_meaning e of [] \<Rightarrow> None | m # _ \<Rightarrow> Some m, r)"
proof (cases e)
  case (ButtonEntry b src)
  then show ?thesis
    using assms next_entry_comma [of "[]" r] parse_source_text [of src "ToButton b" r]
    by (simp add: parse_entry_def take_sign_plain find_e_append button_key_facts)
next
  case (AxisEntry s a src)
  then show ?thesis
    using assms next_entry_comma [of "[]" r] parse_source_text [of src "axis_target a s" r]
    by (simp add: parse_entry_def take_sign_signed find_e_append axis_key_facts axis_target_range split: prod.split)
next
  case (OtherEntry key v)
  then obtain c cs where k: "key = c # cs" using assms by (cases key) auto
  have "CHR '','' \<notin> set (cs @ CHR '':'' # v)" using OtherEntry assms k by auto
  then show ?thesis
    using OtherEntry assms k next_entry_comma [of "cs @ CHR '':'' # v" r] take_sign_plain [of key]
      find_e_append [of "CHR '':''" key "v @ CHR '','' # r"]
    by (simp add: parse_entry_def)
qed

lemma entry_meaning_short: "length (entry_meaning e) \<le> 1"
  by (cases e) (simp_all split: prod.split)

lemma parse_entries_text:
  "\<forall>e \<in> set es. entry_ok e \<Longrightarrow>
    parse_entries (concat (map (\<lambda>e. entry_text e @ '','') es)) = Inr (concat (map entry_meaning es))"
proof (induction es)
  case Nil
  show ?case by (simp add: parse_entries.simps)
next
  case (Cons e es)
  have "parse_entries (entry_text e @ CHR '','' # r) =
      cxx_bind (parse_entries r) (\<lambda>ms. Inr (entry_meaning e @ ms))" for r
    using Cons.prems parse_entry_text [of e r] entry_meaning_short [of e]
    by (subst parse_entries.simps) (auto split: list.splits)
  then show ?case using Cons by simp
qed

text \<open>
  C13 (gamepad_mapping_parsed). A mapping line is read as what it says: for every GUID and name without a comma and every list of
  entries whose numbers fit an \<^verbatim>\<open>int\<close>, \<^verbatim>\<open>addMapping\<close> registers under the GUID exactly the mappings the entries
  denote, in order, with the half ranges of \<^verbatim>\<open>+\<close> and \<^verbatim>\<open>-\<close>, the ranges of triggers and the inversion of \<^verbatim>\<open>~\<close>, and ignores entries
  with an unknown target.
\<close>

theorem gamepad_mapping_parsed:
  assumes "CHR '','' \<notin> set g" "CHR '','' \<notin> set n" "\<forall>e \<in> set es. entry_ok e"
  shows "addMapping_text (mapping_text g n es) gm =
    Inr (gm\<lparr>gm_mappings := AList.update g \<lparr>guid = g, name = n, mappings = concat (map entry_meaning es)\<rparr> (gm_mappings gm)\<rparr>)"
  using find_e_append [OF assms(1)] find_e_append [OF assms(2)] parse_entries_text [OF assms(3)]
  by (simp add: addMapping_text_def parse_def mapping_text_def empty_mapping_def addMapping_def)

theorem gamepad_mapping_parsed_witness:
  "addMapping_text ''03,Pad,leftx:~a0,-lefty:b2,platform:Linux,'' new_GamepadManager =
    Inr (new_GamepadManager\<lparr>gm_mappings := [(''03'', \<lparr>guid = ''03'', name = ''Pad'',
      mappings = [(FromAxis 0 (- 1) 1, ToAxis LEFT_X 1 (- 1)), (FromButton 2, ToAxis LEFT_Y 0 (- 1))]\<rparr>)]\<rparr>)"
proof -
  let ?es = "[AxisEntry None LEFT_X (SrcAxis None True 0), AxisEntry (Some CHR ''-'') LEFT_Y (SrcButton 2), OtherEntry ''platform'' ''Linux'']"
  have dec: "dec_nat 0 = ''0''" "dec_nat 2 = ''2''" by (subst dec_nat.simps; simp add: digit_char_def char_of_eq_iff)+
  have line: "mapping_text ''03'' ''Pad'' ?es = ''03,Pad,leftx:~a0,-lefty:b2,platform:Linux,''"
    by (simp add: mapping_text_def axis_key_def createKnownAxisList_def dec)
  have ok: "\<forall>e \<in> set ?es. entry_ok e" by (simp add: sign_ok_def createKnownButtonList_def createKnownAxisList_def)
  show ?thesis
    using gamepad_mapping_parsed [of "''03''" "''Pad''" ?es new_GamepadManager, OF _ _ ok] unfolding line
    by (simp add: new_GamepadManager_def target_range_def)
qed

section \<open>Axis values\<close>

text \<open>What the parser guarantees of a mapping: sources are not empty and targets stay within one.\<close>

fun mapping_ok :: "MapFrom \<times> MapTo \<Rightarrow> bool" where
  "mapping_ok (src, dst) \<longleftrightarrow>
     (case src of FromAxis i lo hi \<Rightarrow> lo \<noteq> hi | _ \<Rightarrow> True) \<and>
     (case dst of ToAxis a lo hi \<Rightarrow> \<bar>lo\<bar> \<le> 1 \<and> \<bar>hi\<bar> \<le> 1 | _ \<Rightarrow> True)"

definition manager_ok :: "GamepadManager \<Rightarrow> bool" where
  "manager_ok gm \<longleftrightarrow>
     list_all mapping_ok (mappings (defaultMapping gm)) \<and>
     (\<forall>m \<in> snd ` set (gm_mappings gm). list_all mapping_ok (mappings m))"

text \<open>The managers a program can reach that registers mappings as text.\<close>

inductive gm_reach :: "GamepadManager \<Rightarrow> bool" where
  gm_new: "gm_reach new_GamepadManager"
| gm_add: "gm_reach gm \<Longrightarrow> addMapping_text s gm = Inr gm' \<Longrightarrow> gm_reach gm'"
| gm_connect: "gm_reach gm \<Longrightarrow> onJoystickConnected js g gm = (gm', es) \<Longrightarrow> gm_reach gm'"
| gm_disconnect: "gm_reach gm \<Longrightarrow> onJoystickDisconnected js gm = Inr (gm', es) \<Longrightarrow> gm_reach gm'"

lemma half_range_ok: "fst (half_range m) \<noteq> snd (half_range m)" "\<bar>fst (half_range m)\<bar> \<le> 1" "\<bar>snd (half_range m)\<bar> \<le> 1"
  by (auto simp: half_range_def split: option.splits)

lemma parse_source_ok:
  assumes "parse_source t r = Inr (m, r')" "case t of ToAxis a lo hi \<Rightarrow> \<bar>lo\<bar> \<le> 1 \<and> \<bar>hi\<bar> \<le> 1 | _ \<Rightarrow> True"
  shows "mapping_ok m"
  using assms half_range_ok
  by (cases t) (auto simp: parse_source_def Let_def cxx_bind_eq_Inr split: prod.splits if_splits)

lemma axis_target_ok: "case axis_target a s of ToAxis a lo hi \<Rightarrow> \<bar>lo\<bar> \<le> 1 \<and> \<bar>hi\<bar> \<le> 1 | _ \<Rightarrow> True"
  using half_range_ok by (simp add: axis_target_def)

lemma parse_entry_ok: "parse_entry r = Inr (Some m, r') \<Longrightarrow> mapping_ok m"
  using parse_source_ok [OF _ axis_target_ok] parse_source_ok [of "ToButton b" for b]
  by (fastforce simp: parse_entry_def cxx_bind_eq_Inr split: prod.splits option.splits)

lemma parse_entries_ok: "parse_entries r = Inr ms \<Longrightarrow> list_all mapping_ok ms"
proof (induction r arbitrary: ms rule: parse_entries.induct)
  case (1 r)
  show ?case
  proof (cases "r = []")
    case True
    then show ?thesis using "1.prems" by (simp add: parse_entries.simps)
  next
    case False
    then obtain e ms' where e: "parse_entry r = Inr e" "parse_entries (snd e) = Inr ms'"
      "ms = (case fst e of None \<Rightarrow> ms' | Some m \<Rightarrow> m # ms')"
      using "1.prems" by (auto simp: parse_entries.simps [of r] cxx_bind_eq_Inr)
    have "list_all mapping_ok ms'" using "1.IH" [OF False] e by blast
    then show ?thesis using e parse_entry_ok by (cases e; cases "fst e") auto
  qed
qed

lemma take_put_mappings [simp]:
  "defaultMapping (snd (takeGamepadId gm)) = defaultMapping gm" "gm_mappings (snd (takeGamepadId gm)) = gm_mappings gm"
  "defaultMapping (putGamepadIdBack i gm) = defaultMapping gm" "gm_mappings (putGamepadIdBack i gm) = gm_mappings gm"
  by (simp_all add: takeGamepadId_def putGamepadIdBack_def Let_def)

lemma gm_reach_ok: "gm_reach gm \<Longrightarrow> manager_ok gm"
proof (induction rule: gm_reach.induct)
  case gm_new
  show ?case by (simp add: manager_ok_def new_GamepadManager_def empty_mapping_def)
next
  case (gm_add gm s gm')
  then obtain m where m: "parse s empty_mapping = Inr m" "gm' = addMapping m gm"
    by (auto simp: addMapping_text_def cxx_bind_eq_Inr)
  have "list_all mapping_ok (mappings m)"
    using m(1) parse_entries_ok by (auto simp: parse_def empty_mapping_def cxx_bind_eq_Inr)
  moreover have "snd ` set (AList.update (guid m) m xs) \<subseteq> insert m (snd ` set xs)" for xs
    by (induction xs) auto
  ultimately show ?case using gm_add.IH m(2) by (fastforce simp: manager_ok_def addMapping_def)
next
  case (gm_connect gm js g gm' es)
  then have "defaultMapping gm' = defaultMapping gm" "gm_mappings gm' = gm_mappings gm"
    by (auto simp: onJoystickConnected_def Let_def case_prod_beta)
  then show ?case using gm_connect.IH by (simp add: manager_ok_def)
next
  case (gm_disconnect gm js gm' es)
  then show ?case by (auto simp: manager_ok_def onJoystickDisconnected_def Let_def split: option.splits)
qed

lemma mapping_of_ok: "manager_ok gm \<Longrightarrow> m \<in> set (mappings (mapping_of gm gp)) \<Longrightarrow> mapping_ok m"
  by (fastforce simp: manager_ok_def mapping_of_def list_all_iff dest: map_of_SomeD split: option.splits)

lemma convex_abs:
  fixes t :: rat
  assumes "0 \<le> t" "t \<le> 1" "\<bar>lo\<bar> \<le> 1" "\<bar>hi\<bar> \<le> 1"
  shows "\<bar>lo + t * (hi - lo)\<bar> \<le> 1"
proof -
  have eq: "lo + t * (hi - lo) = (1 - t) * lo + t * hi" by (simp add: algebra_simps)
  have "\<bar>(1 - t) * lo\<bar> \<le> 1 - t" "\<bar>t * hi\<bar> \<le> t"
    using assms mult_left_le [of "\<bar>lo\<bar>" "1 - t"] mult_left_le [of "\<bar>hi\<bar>" t] by (simp_all add: abs_mult)
  then show ?thesis unfolding eq by linarith
qed

lemma transformed_range:
  assumes "getAxisTransformedValue (lo, hi) (dlo, dhi) v = Some y" "\<bar>dlo\<bar> \<le> 1" "\<bar>dhi\<bar> \<le> 1"
  shows "\<bar>y\<bar> \<le> 1"
proof -
  let ?t = "(v - lo) / (hi - lo)"
  have v: "min lo hi \<le> v" "v \<le> max lo hi" "lo \<noteq> hi" and y: "y = dlo + ?t * (dhi - dlo)"
    using assms(1) by (auto simp: getAxisTransformedValue_def split: if_splits)
  have "0 \<le> ?t \<and> ?t \<le> 1"
    using v by (cases "lo < hi") (auto simp: divide_simps min_def max_def split: if_splits)
  then show ?thesis using convex_abs assms(2,3) y by blast
qed

lemma switch_event_ok: "mapping_ok (src, dst) \<Longrightarrow> switch_event gp dst st = GamepadAxisChanged gp' a v \<Longrightarrow> \<bar>v\<bar> \<le> 1"
  by (cases dst) (auto split: if_splits)

lemma events_ok:
  assumes "mapping_ok m"
  shows "GamepadAxisChanged gp' a v \<in> set (button_events gp b st m) \<Longrightarrow> \<bar>v\<bar> \<le> 1"
    and "GamepadAxisChanged gp' a v \<in> set (hat_events gp h hv m) \<Longrightarrow> \<bar>v\<bar> \<le> 1"
    and "GamepadAxisChanged gp' a v \<in> set (axis_events gp ax av m) \<Longrightarrow> \<bar>v\<bar> \<le> 1"
proof -
  obtain src dst where m: "m = (src, dst)" by (cases m)
  show "\<bar>v\<bar> \<le> 1" if "GamepadAxisChanged gp' a v \<in> set (button_events gp b st m)"
    using that m assms switch_event_ok [of src dst] by (cases src) (auto split: if_splits dest: sym)
  show "\<bar>v\<bar> \<le> 1" if "GamepadAxisChanged gp' a v \<in> set (hat_events gp h hv m)"
    using that m assms switch_event_ok [of src dst] by (cases src) (auto split: if_splits dest: sym)
  show "\<bar>v\<bar> \<le> 1" if "GamepadAxisChanged gp' a v \<in> set (axis_events gp ax av m)"
    using that m assms transformed_range
    by (cases src; cases dst) (auto split: if_splits option.splits bind_splits)
qed

lemma for_gamepad_in: "e \<in> set (for_gamepad f js gm) \<Longrightarrow> \<exists>gp m. m \<in> set (mappings (mapping_of gm gp)) \<and> e \<in> set (f gp m)"
  by (auto simp: for_gamepad_def split: option.splits)

lemma axis_source_value_ok:
  assumes "mapping_ok (src, ToAxis a lo hi)" "axis_source_value j src (lo, hi) = Some v"
  shows "\<bar>v\<bar> \<le> 1"
  using assms transformed_range [of _ _ lo hi _ v] by (cases src) (auto split: if_splits option.splits)

lemma first_axis_value_ok: "list_all mapping_ok ms \<Longrightarrow> \<bar>first_axis_value j index ms\<bar> \<le> 1"
  by (induction j index ms rule: first_axis_value.induct)
    (auto simp del: mapping_ok.simps split: option.splits dest: axis_source_value_ok)

text \<open>
  C35 (gamepad_axis_range). Whatever mapping lines were registered and whatever a joystick reports, every axis value of a gamepad is
  between -1 and 1: the values the manager reports on button, axis and hat events and the value
  \<^verbatim>\<open>Gamepad::getAxis\<close> returns.
\<close>

theorem gamepad_axis_range:
  assumes "gm_reach gm"
    and "GamepadAxisChanged gp a v \<in>
      set (onJoystickButton js b st gm) \<union> set (onJoystickAxis js ax av gm) \<union> set (onJoystickHat js h hv gm)
      \<or> v = getAxis j (mapping_of gm gp) a"
  shows "- 1 \<le> v \<and> v \<le> 1"
proof -
  have ok: "\<And>gp m. m \<in> set (mappings (mapping_of gm gp)) \<Longrightarrow> mapping_ok m"
    using mapping_of_ok [OF gm_reach_ok [OF assms(1)]] .
  have "\<bar>getAxis j (mapping_of gm gp) a\<bar> \<le> 1"
    unfolding getAxis_def using ok by (intro first_axis_value_ok) (simp add: list_all_iff)
  moreover have "\<bar>v\<bar> \<le> 1" if "GamepadAxisChanged gp a v \<in>
      set (onJoystickButton js b st gm) \<union> set (onJoystickAxis js ax av gm) \<union> set (onJoystickHat js h hv gm)"
    using that ok unfolding onJoystickButton_def onJoystickAxis_def onJoystickHat_def
    by (elim UnE) (drule for_gamepad_in, blast dest: events_ok)+
  ultimately show ?thesis using assms(2) by auto
qed

theorem gamepad_axis_range_witness:
  "\<exists>gm gp v. gm_reach gm \<and> onJoystickButton 0 2 True gm = [GamepadAxisChanged gp LEFT_Y v] \<and> - 1 \<le> v \<and> v \<le> 1"
proof -
  let ?es = "[AxisEntry (Some CHR ''-'') LEFT_Y (SrcButton 2)]"
  let ?m = "\<lparr>guid = ''03'', name = [], mappings = [(FromButton 2, ToAxis LEFT_Y 0 (- 1))]\<rparr>"
  let ?gm = "new_GamepadManager\<lparr>gm_mappings := [(''03'', ?m)]\<rparr>"
  let ?gp = "\<lparr>gp_index = 0, gp_joystick = 0, gp_mapping = Some ''03''\<rparr>"
  let ?gm' = "fst (onJoystickConnected 0 ''03'' ?gm)"
  have "parse_entries (concat (map (\<lambda>e. entry_text e @ '','') ?es)) = Inr (concat (map entry_meaning ?es))"
    by (rule parse_entries_text) (simp add: sign_ok_def)
  then have "addMapping_text (mapping_text ''03'' [] ?es) new_GamepadManager = Inr ?gm"
    using find_e_append [of "CHR '',''" "''03''"] find_e_append [of "CHR '',''" "[]"]
    by (simp add: addMapping_text_def parse_def mapping_text_def empty_mapping_def addMapping_def new_GamepadManager_def target_range_def)
  then have "gm_reach ?gm" by (rule gm_add [OF gm_new])
  then have reach: "gm_reach ?gm'"
    by (rule gm_connect [where js = 0 and g = "''03''" and es = "snd (onJoystickConnected 0 ''03'' ?gm)"]) simp
  have ev: "onJoystickButton 0 2 True ?gm' = [GamepadAxisChanged ?gp LEFT_Y (- 1)]"
    by (simp add: onJoystickButton_def for_gamepad_def onJoystickConnected_def takeGamepadId_def getMapping_def mapping_of_def
        new_GamepadManager_def Let_def)
  show ?thesis
    using gamepad_axis_range [OF reach, of ?gp LEFT_Y "- 1" 0 2 True 0 None 0 0 undefined] reach ev by auto
qed

section \<open>Ids\<close>

primrec connect_first :: "nat \<Rightarrow> (nat \<Rightarrow> string) \<Rightarrow> GamepadManager" where
  "connect_first 0 g = new_GamepadManager"
| "connect_first (Suc n) g = fst (onJoystickConnected n (g n) (connect_first n g))"

definition index_of :: "GamepadManager \<Rightarrow> nat \<Rightarrow> int option" where
  "index_of gm js = map_option gp_index (gamepads gm js)"

lemma take_id: "takenGamepadIds gm = [] \<Longrightarrow>
    takeGamepadId gm = (takenGamepadLowId gm, gm\<lparr>takenGamepadLowId := takenGamepadLowId gm + 1\<rparr>)"
  by (simp add: takeGamepadId_def Let_def)

lemma connect_facts:
  assumes "takenGamepadIds gm = []"
  shows "takenGamepadIds (fst (onJoystickConnected js g gm)) = []"
    "takenGamepadLowId (fst (onJoystickConnected js g gm)) = takenGamepadLowId gm + 1"
    "index_of (fst (onJoystickConnected js g gm)) = (index_of gm)(js := Some (takenGamepadLowId gm))"
  using take_id [OF assms] assms by (auto simp: onJoystickConnected_def index_of_def Let_def fun_eq_iff)

lemma connect_first_facts:
  "takenGamepadIds (connect_first n g) = []" "takenGamepadLowId (connect_first n g) = int n"
  "index_of (connect_first n g) = (\<lambda>js. if js < n then Some (int js) else None)"
proof (induction n)
  case 0
  show "takenGamepadIds (connect_first 0 g) = []" "takenGamepadLowId (connect_first 0 g) = int 0"
    "index_of (connect_first 0 g) = (\<lambda>js. if js < 0 then Some (int js) else None)"
    by (simp_all add: new_GamepadManager_def index_of_def fun_eq_iff)
next
  case (Suc n)
  note c = connect_facts [OF Suc(1), of n "g n"]
  show "takenGamepadIds (connect_first (Suc n) g) = []" "takenGamepadLowId (connect_first (Suc n) g) = int (Suc n)"
    "index_of (connect_first (Suc n) g) = (\<lambda>js. if js < Suc n then Some (int js) else None)"
    using c Suc by (auto simp: fun_eq_iff)
qed

text \<open>
  C36 (gamepad_ids_collide). Gamepad ids are unique until a gamepad is removed, and not after that, since no id is ever entered into
  the set of taken ids: when n joysticks are connected they have the ids 0 to n - 1; when joystick i, not
  the last one, is removed and two more are connected, the first gets the id i again, but the second
  one gets i + 1, which joystick i + 1 still has.
\<close>

theorem gamepad_ids_collide:
  assumes "i + 1 < n"
  shows "index_of (connect_first n g) = (\<lambda>js. if js < n then Some (int js) else None) \<and>
    (\<exists>gm es. onJoystickDisconnected i (connect_first n g) = Inr (gm, es) \<and>
       (let gm' = fst (onJoystickConnected (n + 1) h2 (fst (onJoystickConnected n h1 gm)))
        in index_of gm' n = Some (int i) \<and> index_of gm' (n + 1) = Some (int i + 1) \<and>
           index_of gm' (i + 1) = Some (int i + 1)))"
proof -
  note f = connect_first_facts [of n g]
  obtain gp where gp: "gamepads (connect_first n g) i = Some gp" "gp_index gp = int i"
    using fun_cong [OF f(3), of i] assms by (auto simp: index_of_def)
  define gm where "gm = (putGamepadIdBack (int i) (connect_first n g))\<lparr>gamepads := (gamepads (connect_first n g))(i := None)\<rparr>"
  have d: "onJoystickDisconnected i (connect_first n g) = Inr (gm, [GamepadDisconnected gp])"
    using gp by (simp add: onJoystickDisconnected_def gm_def putGamepadIdBack_def Let_def)
  have g1: "takenGamepadIds gm = []" "takenGamepadLowId gm = int i" "index_of gm = (index_of (connect_first n g))(i := None)"
    using f assms by (auto simp: gm_def putGamepadIdBack_def index_of_def Let_def fun_eq_iff)
  note c1 = connect_facts [OF g1(1), of n h1]
  note c2 = connect_facts [OF c1(1), of "n + 1" h2]
  show ?thesis using d f(3) g1 c1 c2 assms by (auto simp: Let_def)
qed

theorem gamepad_ids_collide_witness:
  "index_of (fst (onJoystickConnected 3 [] (fst (onJoystickConnected 2 []
     (fst (projr (onJoystickDisconnected 0 (connect_first 2 (\<lambda>_. []))))))))) 3 = Some 1"
  using gamepad_ids_collide [of 0 2 "\<lambda>_. []" "[]" "[]"] by (auto simp: Let_def)

end
