(* ===== verification/Joystick.thy ===== *)
theory Joystick
  imports Gamepad
begin

text \<open>
  Joysticks of the Linux input system (\<^verbatim>\<open>linux-gamepad/src/linux_joystick.cpp\<close>) and the list of the connected ones
  (\<^verbatim>\<open>linux_joystick_manager.cpp\<close>). The answers of \<^verbatim>\<open>ioctl\<close> and \<^verbatim>\<open>libevdev\<close> are arguments. Members the constructor leaves
  uninitialised start with the contents of the memory the object was placed in, another argument.
\<close>

unbundle bit_operations_syntax

section \<open>State\<close>

text \<open>Constants of the kernel interface.\<close>

definition KEY_CNT :: nat where "KEY_CNT = 768"
definition ABS_CNT :: nat where "ABS_CNT = 64"
definition BTN_JOYSTICK :: nat where "BTN_JOYSTICK = 288"
definition ABS_HAT0X :: nat where "ABS_HAT0X = 16"
definition ABS_HAT3Y :: nat where "ABS_HAT3Y = 23"
definition EV_KEY :: nat where "EV_KEY = 1"
definition EV_ABS :: nat where "EV_ABS = 3"

lemmas joystick_consts = KEY_CNT_def ABS_CNT_def BTN_JOYSTICK_def ABS_HAT0X_def ABS_HAT3Y_def EV_KEY_def EV_ABS_def

definition BUTTON_COUNT :: nat where "BUTTON_COUNT = KEY_CNT"
definition AXIS_COUNT :: nat where "AXIS_COUNT = ABS_CNT"
definition HAT_COUNT :: nat where "HAT_COUNT = (ABS_HAT3Y + 1 - ABS_HAT0X) div 2"

record AxisInfo =
  ax_index :: int
  ax_min :: int
  ax_max :: int
  ax_flat :: int
  ax_fuzz :: int

record LinuxJoystick =
  devPath :: string
  buttons :: "int list"
  axis :: "AxisInfo list"
  buttonValues :: "bool list"
  axisValues :: "rat option list"
  hatValues :: "int list"

definition isHat :: "nat \<Rightarrow> bool" where
  "isHat i \<longleftrightarrow> ABS_HAT0X \<le> i \<and> i \<le> ABS_HAT3Y"

text \<open>What the device answers: the length (in bytes) and the bits of both bit sets, and the ranges of its axes.\<close>

record device =
  key_len :: int
  key_bit :: "nat \<Rightarrow> bool"
  abs_len :: int
  abs_bit :: "nat \<Rightarrow> bool"
  abs_info :: "nat \<Rightarrow> AxisInfo option"
  id_bustype :: "16 word"
  id_vendor :: "16 word"
  id_product :: "16 word"
  id_version :: "16 word"

section \<open>Construction\<close>

fun assign_buttons :: "(nat \<Rightarrow> bool) \<Rightarrow> nat \<Rightarrow> nat list \<Rightarrow> int \<Rightarrow> int list \<Rightarrow> int list cxx" where
  "assign_buttons keys len [] next_id bs = Inr bs"
| "assign_buttons keys len (i # is) next_id bs =
     (if keys (i mod len) then
        if i < length bs then assign_buttons keys len is (next_id + 1) (bs[i := next_id]) else Inl Undefined
      else assign_buttons keys len is next_id bs)"

fun assign_axes :: "device \<Rightarrow> nat list \<Rightarrow> int \<Rightarrow> AxisInfo list \<Rightarrow> AxisInfo list cxx" where
  "assign_axes dev [] next_id as = Inr as"
| "assign_axes dev (i # is) next_id as =
     (if length as \<le> i then Inl Undefined
      else if \<not> abs_bit dev i then assign_axes dev is next_id (as[i := (as ! i)\<lparr>ax_index := - 1\<rparr>])
      else case abs_info dev i of
        None \<Rightarrow> assign_axes dev is next_id as
      | Some info \<Rightarrow>
          if isHat i then assign_axes dev is next_id (as[i := info\<lparr>ax_index := 0\<rparr>])
          else assign_axes dev is (next_id + 1) (as[i := info\<lparr>ax_index := next_id\<rparr>]))"

fun assign_hats :: "nat list \<Rightarrow> int \<Rightarrow> AxisInfo list \<Rightarrow> AxisInfo list" where
  "assign_hats [] next_id as = as"
| "assign_hats (i # is) next_id as =
     (if ax_index (as ! i) = - 1 \<and> ax_index (as ! (i + 1)) = - 1 then assign_hats is next_id as
      else assign_hats is (next_id + 1)
        (as[i := (as ! i)\<lparr>ax_index := next_id\<rparr>, i + 1 := (as ! (i + 1))\<lparr>ax_index := next_id\<rparr>]))"

text \<open>The object starts as \<open>mem\<close>; both lengths are counted in bits after the calls.\<close>

definition new_joystick :: "LinuxJoystick \<Rightarrow> string \<Rightarrow> device \<Rightarrow> LinuxJoystick cxx" where
  "new_joystick mem path dev =
     (let j = mem\<lparr>devPath := path, buttons := replicate KEY_CNT (- 1), buttonValues := replicate BUTTON_COUNT False,
                axisValues := replicate AXIS_COUNT (Some 0)\<rparr>
      in if key_len dev < 0 then Inl (RuntimeError ''Failed to get joystick keys'')
         else cxx_bind (assign_buttons (key_bit dev) (nat (key_len dev) * 8)
                [BTN_JOYSTICK ..< nat (key_len dev) * 8 + BTN_JOYSTICK] 0 (buttons j)) (\<lambda>bs.
           if abs_len dev < 0 then Inl (RuntimeError ''Failed to get joystick abs'')
           else cxx_bind (assign_axes dev [0 ..< nat (abs_len dev) * 8] 0 (axis j)) (\<lambda>as.
             Inr (j\<lparr>buttons := bs, axis := assign_hats [16, 18, 20, 22] 0 as\<rparr>))))"

section \<open>Identification\<close>

definition hex_digit :: "nat \<Rightarrow> char" where
  "hex_digit d = char_of (if d < 10 then 48 + d else 87 + d)"

definition writeLEShort :: "16 word \<Rightarrow> string" where
  "writeLEShort v =
     (let lo = unat (v AND 0xff); hi = unat (drop_bit 8 v AND 0xff)
      in [hex_digit (lo div 16), hex_digit (lo mod 16), hex_digit (hi div 16), hex_digit (hi mod 16)])"

definition getGUID :: "device \<Rightarrow> string" where
  "getGUID dev =
     writeLEShort (id_bustype dev) @ writeLEShort 0 @ writeLEShort (id_vendor dev) @ writeLEShort 0 @
     writeLEShort (id_product dev) @ writeLEShort 0 @ writeLEShort (id_version dev) @ writeLEShort 0"

section \<open>Events\<close>

text \<open>What the joystick reports to its manager.\<close>

datatype js_event = JsButton int bool | JsHat int int | JsAxis int "rat option"

definition checked :: "int \<Rightarrow> int cxx" where
  "checked i = (if - (2 ^ 31) \<le> i \<and> i < 2 ^ 31 then Inr i else Inl Undefined)"

definition half :: "int \<Rightarrow> int" where
  "half i = sgn i * (\<bar>i\<bar> div 2)"

text \<open>A quotient of floats limited to one; a quotient by zero is infinite or not a number.\<close>

definition limited_quotient :: "int \<Rightarrow> int \<Rightarrow> rat option" where
  "limited_quotient a b =
     (if b = 0 then if a = 0 then None else Some (if 0 < a then 1 else - 1)
      else Some (min (max (of_int a / of_int b) (- 1)) 1))"

definition axis_value :: "AxisInfo \<Rightarrow> int \<Rightarrow> rat option cxx" where
  "axis_value a value =
     cxx_bind (checked (ax_min a + ax_max a)) (\<lambda>s.
     cxx_bind (checked (value - half s)) (\<lambda>iv.
     cxx_bind (if 0 \<le> iv then cxx_bind (checked (ax_max a - half s)) (\<lambda>d. Inr (limited_quotient iv d))
               else cxx_bind (checked (ax_min a - half s)) (\<lambda>d. Inr (limited_quotient (- iv) d))) (\<lambda>v.
     cxx_bind (checked \<bar>iv\<bar>) (\<lambda>n. Inr (if n < ax_flat a then Some 0 else v)))))"

definition hat_value :: "bool \<Rightarrow> int \<Rightarrow> int \<Rightarrow> int" where
  "hat_value y value v =
     (let w = v AND NOT (if y then 5 else 10)
      in if value = 0 then w
         else if y then w OR (if 0 < value then 4 else 1)
         else w OR (if 0 < value then 2 else 8))"

record input_event =
  ev_type :: nat
  ev_code :: nat
  ev_value :: int

definition poll_key :: "input_event \<Rightarrow> LinuxJoystick \<Rightarrow> (LinuxJoystick \<times> js_event list) cxx" where
  "poll_key e j =
     (if KEY_CNT \<le> ev_code e then Inr (j, [])
      else let btn = buttons j ! ev_code e; v = (ev_value e \<noteq> 0)
        in if btn = - 1 then Inr (j, [])
           else if btn < 0 \<or> int (length (buttons j)) \<le> btn then Inl Undefined
           else Inr (j\<lparr>buttons := (buttons j)[nat btn := if v then 1 else 0]\<rparr>, [JsButton btn v]))"

definition poll_hat :: "input_event \<Rightarrow> LinuxJoystick \<Rightarrow> (LinuxJoystick \<times> js_event list) cxx" where
  "poll_hat e j =
     (let a = axis j ! ev_code e
      in if ax_index a = - 1 then Inr (j, [])
         else if ax_index a < 0 \<or> int (length (hatValues j)) \<le> ax_index a then Inl Undefined
         else let v = hat_value (odd (ev_code e)) (ev_value e) (hatValues j ! nat (ax_index a))
           in Inr (j\<lparr>hatValues := (hatValues j)[nat (ax_index a) := v]\<rparr>, [JsHat (ax_index a) v]))"

definition poll_axis :: "input_event \<Rightarrow> LinuxJoystick \<Rightarrow> (LinuxJoystick \<times> js_event list) cxx" where
  "poll_axis e j =
     (if AXIS_COUNT \<le> ev_code e then Inr (j, [])
      else let a = axis j ! ev_code e
        in if ax_index a = - 1 then Inr (j, [])
           else cxx_bind (axis_value a (ev_value e)) (\<lambda>v.
             if ax_index a < 0 \<or> int (length (axisValues j)) \<le> ax_index a then Inl Undefined
             else Inr (j\<lparr>axisValues := (axisValues j)[nat (ax_index a) := v]\<rparr>, [JsAxis (ax_index a) v])))"

definition poll_event :: "input_event \<Rightarrow> LinuxJoystick \<Rightarrow> (LinuxJoystick \<times> js_event list) cxx" where
  "poll_event e j =
     (if ev_type e = EV_KEY then poll_key e j
      else if ev_type e = EV_ABS \<and> isHat (ev_code e) then poll_hat e j
      else if ev_type e = EV_ABS then poll_axis e j
      else Inr (j, []))"

text \<open>One call of \<^verbatim>\<open>poll\<close>: the events \<^verbatim>\<open>libevdev_next_event\<close> hands out before it has no more, or fails.\<close>

fun poll :: "input_event list \<Rightarrow> LinuxJoystick \<Rightarrow> (LinuxJoystick \<times> js_event list) cxx" where
  "poll [] j = Inr (j, [])"
| "poll (e # es) j =
     cxx_bind (poll_event e j) (\<lambda>(j1, out). cxx_bind (poll es j1) (\<lambda>(j2, out2). Inr (j2, out @ out2)))"

definition js_getButton :: "LinuxJoystick \<Rightarrow> int \<Rightarrow> bool" where
  "js_getButton j i = (if i < 0 \<or> int BUTTON_COUNT \<le> i then False else buttonValues j ! nat i)"

definition js_getAxis :: "LinuxJoystick \<Rightarrow> int \<Rightarrow> rat option" where
  "js_getAxis j i = (if i < 0 \<or> int AXIS_COUNT \<le> i then Some 0 else axisValues j ! nat i)"

definition js_getHat :: "LinuxJoystick \<Rightarrow> int \<Rightarrow> int" where
  "js_getHat j i = (if i < 0 \<or> int HAT_COUNT \<le> i then 0 else hatValues j ! nat i)"

definition js_values :: "LinuxJoystick \<Rightarrow> joystick_values" where
  "js_values j = \<lparr>jv_button = js_getButton j, jv_axis = js_getAxis j, jv_hat = js_getHat j\<rparr>"

section \<open>The connected joysticks\<close>

text \<open>The manager's joysticks by address, with the gamepad manager that has registered for its events.\<close>

record LinuxJoystickManager =
  joysticks :: "(nat \<times> LinuxJoystick) list"
  listener :: GamepadManager

text \<open>
  \<open>flag\<close> is the property \<^verbatim>\<open>ID_INPUT_JOYSTICK\<close> of the device, \<open>node\<close> its path, \<open>failed\<close> says that \<^verbatim>\<open>libevdev\<close> refused it, \<open>addr\<close> and \<open>mem\<close> are the
  address and the contents of the memory of the new object.
\<close>

definition onDeviceAdded ::
  "string option \<Rightarrow> string option \<Rightarrow> bool \<Rightarrow> nat \<Rightarrow> LinuxJoystick \<Rightarrow> device \<Rightarrow> LinuxJoystickManager \<Rightarrow>
   (LinuxJoystickManager \<times> gamepad_event list) cxx" where
  "onDeviceAdded flag node failed addr mem dev jm =
     (if flag \<noteq> Some ''1'' then Inr (jm, [])
      else case node of
        None \<Rightarrow> Inr (jm, [])
      | Some path \<Rightarrow>
          if failed then Inr (jm, [])
          else cxx_bind (new_joystick mem path dev) (\<lambda>j.
            let (gm, es) = onJoystickConnected addr (getGUID dev) (listener jm)
            in Inr (\<lparr>joysticks = joysticks jm @ [(addr, j)], listener = gm\<rparr>, es)))"

fun remove_device :: "string \<Rightarrow> (nat \<times> LinuxJoystick) list \<Rightarrow> (nat \<times> (nat \<times> LinuxJoystick) list) option" where
  "remove_device path [] = None"
| "remove_device path ((addr, j) # js) =
     (if devPath j = path then Some (addr, js)
      else map_option (\<lambda>(a, rest). (a, (addr, j) # rest)) (remove_device path js))"

definition onDeviceRemoved :: "string option \<Rightarrow> LinuxJoystickManager \<Rightarrow> (LinuxJoystickManager \<times> gamepad_event list) cxx" where
  "onDeviceRemoved node jm =
     (case node of
        None \<Rightarrow> Inr (jm, [])
      | Some path \<Rightarrow>
          (case remove_device path (joysticks jm) of
             None \<Rightarrow> Inr (jm, [])
           | Some (addr, rest) \<Rightarrow>
               cxx_bind (onJoystickDisconnected addr (listener jm)) (\<lambda>(gm, es).
                 Inr (\<lparr>joysticks = rest, listener = gm\<rparr>, es))))"

fun forward :: "nat \<Rightarrow> GamepadManager \<Rightarrow> js_event \<Rightarrow> gamepad_event list" where
  "forward addr gm (JsButton b st) = onJoystickButton addr b st gm"
| "forward addr gm (JsHat h v) = onJoystickHat addr h v gm"
| "forward addr gm (JsAxis a v) = onJoystickAxis addr a v gm"

text \<open>Polling all joysticks; \<open>input\<close> has the pending events of each.\<close>

fun poll_all :: "(nat \<Rightarrow> input_event list) \<Rightarrow> GamepadManager \<Rightarrow> (nat \<times> LinuxJoystick) list \<Rightarrow> ((nat \<times> LinuxJoystick) list \<times> gamepad_event list) cxx" where
  "poll_all input gm [] = Inr ([], [])"
| "poll_all input gm ((addr, j) # js) =
     cxx_bind (poll (input addr) j) (\<lambda>(j', out).
     cxx_bind (poll_all input gm js) (\<lambda>(js', es).
       Inr ((addr, j') # js', concat (map (forward addr gm) out) @ es)))"

definition devices_ok :: "LinuxJoystickManager \<Rightarrow> bool" where
  "devices_ok jm \<longleftrightarrow>
     distinct (map fst (joysticks jm)) \<and> (\<forall>a. a \<in> fst ` set (joysticks jm) \<longleftrightarrow> gamepads (listener jm) a \<noteq> None)"

lemma connected_gamepads: "onJoystickConnected a g gm = (gm', es) \<Longrightarrow> dom (gamepads gm') = insert a (dom (gamepads gm))"
  by (auto simp: onJoystickConnected_def takeGamepadId_def Let_def split: if_splits)

lemma remove_device_split:
  "remove_device path js = Some (a, rest) \<Longrightarrow> \<exists>l r j. js = l @ (a, j) # r \<and> rest = l @ r"
proof (induction js arbitrary: rest)
  case Nil
  then show ?case by simp
next
  case (Cons x js)
  obtain addr j where x: "x = (addr, j)" by (cases x)
  show ?case
  proof (cases "devPath j = path")
    case True
    then show ?thesis using Cons.prems x by (auto intro: exI [of _ "[]"])
  next
    case False
    then obtain rest' where "remove_device path js = Some (a, rest')" "rest = x # rest'"
      using Cons.prems x by auto
    then show ?thesis using Cons.IH by (metis append_Cons)
  qed
qed

lemma onDeviceAdded_ok:
  assumes "devices_ok jm" "addr \<notin> fst ` set (joysticks jm)" "onDeviceAdded flag node failed addr mem dev jm = Inr (jm', es)"
  shows "devices_ok jm'"
proof (cases "flag = Some ''1'' \<and> node \<noteq> None \<and> \<not> failed")
  case False
  then have "jm' = jm" using assms(3) by (auto simp: onDeviceAdded_def split: if_splits option.splits)
  then show ?thesis using assms(1) by simp
next
  case True
  then obtain j gm where "joysticks jm' = joysticks jm @ [(addr, j)]" "listener jm' = gm"
    "onJoystickConnected addr (getGUID dev) (listener jm) = (gm, es)"
    using assms(3)
    by (cases "onJoystickConnected addr (getGUID dev) (listener jm)") (auto simp: onDeviceAdded_def cxx_bind_eq_Inr)
  moreover note connected_gamepads [OF this(3)]
  ultimately show ?thesis using assms(1,2) by (auto simp: devices_ok_def dom_def)
qed

text \<open>Removing a device always finds its gamepad and keeps the invariant.\<close>

lemma onDeviceRemoved_ok:
  assumes "devices_ok jm"
  shows "\<exists>jm' es. onDeviceRemoved node jm = Inr (jm', es) \<and> devices_ok jm'"
proof (cases "node = None \<or> remove_device (the node) (joysticks jm) = None")
  case True
  then show ?thesis using assms by (auto simp: onDeviceRemoved_def split: option.splits)
next
  case False
  then obtain path a rest where n: "node = Some path" "remove_device path (joysticks jm) = Some (a, rest)" by auto
  obtain l r j where lr: "joysticks jm = l @ (a, j) # r" "rest = l @ r" using remove_device_split [OF n(2)] by blast
  have "gamepads (listener jm) a \<noteq> None" using assms lr(1) unfolding devices_ok_def by force
  then obtain gp where gp: "gamepads (listener jm) a = Some gp" by blast
  then obtain gm where gm: "onJoystickDisconnected a (listener jm) = Inr (gm, [GamepadDisconnected gp])"
    "gamepads gm = (gamepads (listener jm))(a := None)"
    by (auto simp: onJoystickDisconnected_def putGamepadIdBack_def Let_def)
  have "devices_ok \<lparr>joysticks = rest, listener = gm\<rparr>"
    using assms lr gm(2) by (auto simp: devices_ok_def)
  then show ?thesis using n gm(1) by (simp add: onDeviceRemoved_def)
qed

section \<open>Buttons\<close>

lemma poll_event_values: "poll_event e j = Inr (j', out) \<Longrightarrow> buttonValues j' = buttonValues j"
  by (auto simp: poll_event_def poll_key_def poll_hat_def poll_axis_def Let_def cxx_bind_eq_Inr split: if_splits)

lemma poll_values: "poll es j = Inr (j', out) \<Longrightarrow> buttonValues j' = buttonValues j"
proof (induction es arbitrary: j out)
  case (Cons e es)
  obtain j1 out1 out2 where "poll_event e j = Inr (j1, out1)" "poll es j1 = Inr (j', out2)"
    using Cons.prems by (auto simp: cxx_bind_eq_Inr)
  then show ?case using Cons.IH [of j1 out2] poll_event_values [of e j j1 out1] by simp
qed simp

lemma new_joystick_values: "new_joystick mem path dev = Inr j \<Longrightarrow> buttonValues j = replicate BUTTON_COUNT False"
  by (auto simp: new_joystick_def Let_def cxx_bind_eq_Inr simp del: assign_hats.simps split: if_splits)

lemma list_ex_filter_eq: "(\<And>x. x \<in> set xs \<Longrightarrow> P x \<Longrightarrow> Q x) \<Longrightarrow> list_ex P xs = list_ex P (filter Q xs)"
  by (auto simp: list_ex_iff)

fun from_button :: "MapFrom \<Rightarrow> bool" where
  "from_button (FromButton i) = True"
| "from_button _ = False"

text \<open>
  C37 (joystick_buttons_unread). The state of a joystick's buttons cannot be read: \<^verbatim>\<open>poll\<close> stores it into the table of button numbers
  instead of \<^verbatim>\<open>buttonValues\<close>. After any events \<^verbatim>\<open>getButton\<close> of the joystick is false for every button, also
  for those just reported as pressed, and \<^verbatim>\<open>Gamepad::getButton\<close> answers as if the mapping had no entry with a
  button as its source.
\<close>

theorem joystick_buttons_unread:
  assumes "new_joystick mem path dev = Inr j" "poll es j = Inr (j', out)"
  shows "\<not> js_getButton j' i \<and>
    getButton (js_values j') gm b = getButton (js_values j') (gm\<lparr>mappings := filter (\<lambda>(src, dst). \<not> from_button src) (mappings gm)\<rparr>) b"
proof -
  have vals: "buttonValues j' = replicate BUTTON_COUNT False"
    using poll_values [OF assms(2)] new_joystick_values [OF assms(1)] by simp
  then have none: "js_getButton j' k = False" for k
    by (auto simp: js_getButton_def nat_less_iff)
  have nb: "\<not> from_button src" if "button_source_active (js_values j') src" for src
    using that none by (cases src) (simp_all add: js_values_def)
  have "list_ex (\<lambda>(src, dst). dst = ToButton b \<and> button_source_active (js_values j') src) ms =
      list_ex (\<lambda>(src, dst). dst = ToButton b \<and> button_source_active (js_values j') src)
        (filter (\<lambda>(src, dst). \<not> from_button src) ms)" for ms
    by (rule list_ex_filter_eq) (clarify, drule nb, blast)
  then show ?thesis using none [of i] unfolding getButton_def by simp
qed

lemma assign_buttons_none: "\<forall>i \<in> set is. \<not> keys (i mod len) \<Longrightarrow> assign_buttons keys len is next_id bs = Inr bs"
  by (induction "is") auto

theorem joystick_buttons_unread_witness:
  "\<exists>mem dev j j'. new_joystick mem [] dev = Inr j \<and>
     poll [\<lparr>ev_type = EV_KEY, ev_code = BTN_JOYSTICK, ev_value = 1\<rparr>] j = Inr (j', [JsButton 0 True]) \<and> \<not> js_getButton j' 0"
proof -
  let ?a = "\<lparr>ax_index = - 1, ax_min = 0, ax_max = 0, ax_flat = 0, ax_fuzz = 0\<rparr>"
  let ?mem = "\<lparr>devPath = [], buttons = [], axis = replicate ABS_CNT ?a, buttonValues = [], axisValues = [], hatValues = []\<rparr>"
  let ?dev = "\<lparr>key_len = 96, key_bit = (\<lambda>k. k = 288), abs_len = 0, abs_bit = (\<lambda>_. False), abs_info = (\<lambda>_. None),
    id_bustype = 0, id_vendor = 0, id_product = 0, id_version = 0\<rparr>"
  let ?e = "\<lparr>ev_type = EV_KEY, ev_code = BTN_JOYSTICK, ev_value = 1\<rparr>"
  have lt: "BTN_JOYSTICK < KEY_CNT" by (simp add: joystick_consts)
  have range: "[BTN_JOYSTICK ..< 768 + BTN_JOYSTICK] = BTN_JOYSTICK # [Suc BTN_JOYSTICK ..< 768 + BTN_JOYSTICK]"
    by (rule upt_conv_Cons) simp
  have first: "BTN_JOYSTICK mod 768 = 288" by (simp add: joystick_consts)
  have "i mod 768 \<noteq> 288" if "Suc BTN_JOYSTICK \<le> i" "i < 768 + BTN_JOYSTICK" for i
    using that by (cases "i < 768") (auto simp: mod_if joystick_consts)
  then have rest: "assign_buttons (\<lambda>k. k = 288) 768 [Suc BTN_JOYSTICK ..< 768 + BTN_JOYSTICK] n bs = Inr bs" for n bs
    by (intro assign_buttons_none) auto
  have hats: "assign_hats [16, 18, 20, 22] 0 (replicate ABS_CNT ?a) = replicate ABS_CNT ?a"
    by (simp add: nth_replicate ABS_CNT_def)
  define j where "j = ?mem\<lparr>buttons := (replicate KEY_CNT (- 1))[BTN_JOYSTICK := 0], buttonValues := replicate BUTTON_COUNT False,
    axisValues := replicate AXIS_COUNT (Some 0)\<rparr>"
  define j' where "j' = j\<lparr>buttons := (buttons j)[0 := 1]\<rparr>"
  have new: "new_joystick ?mem [] ?dev = Inr j"
    using lt by (simp add: new_joystick_def Let_def range first rest hats j_def del: assign_hats.simps)
  have "buttons j ! BTN_JOYSTICK = 0" using lt by (simp add: j_def)
  then have p: "poll [?e] j = Inr (j', [JsButton 0 True])"
    using lt by (simp add: poll_event_def poll_key_def Let_def j_def j'_def)
  show ?thesis
    using joystick_buttons_unread [OF new p] new p by blast
qed

text \<open>
  A key below \<^verbatim>\<open>BTN_JOYSTICK\<close> is entered behind the end of the table, since the index is not reduced by the
  number of keys there.
\<close>

lemma assign_buttons_outside:
  assumes "\<exists>i \<in> set is. keys (i mod len) \<and> length bs \<le> i"
  shows "assign_buttons keys len is n bs = Inl Undefined"
  using assms by (induction keys len "is" n bs rule: assign_buttons.induct) auto

lemma low_key_undefined:
  assumes "key_len dev = 96" "key_bit dev k" "k < BTN_JOYSTICK"
  shows "new_joystick mem path dev = Inl Undefined"
proof -
  have "\<exists>i \<in> set [BTN_JOYSTICK ..< 768 + BTN_JOYSTICK]. key_bit dev (i mod 768) \<and> 768 \<le> i"
  proof (intro bexI [of _ "768 + k"] conjI)
    have "k mod 768 = k" using assms(3) by (simp add: BTN_JOYSTICK_def)
    then show "key_bit dev ((768 + k) mod 768)" using assms(2) by simp
    show "768 + k \<in> set [BTN_JOYSTICK ..< 768 + BTN_JOYSTICK]"
      using assms(3) unfolding set_upt by (simp add: BTN_JOYSTICK_def)
  qed simp
  then have "assign_buttons (key_bit dev) 768 [BTN_JOYSTICK ..< 768 + BTN_JOYSTICK] 0 (replicate KEY_CNT (- 1)) = Inl Undefined"
    by (intro assign_buttons_outside) (auto simp: KEY_CNT_def)
  then show ?thesis using assms(1) by (simp add: new_joystick_def Let_def)
qed

end
