(* ===== verification/Shim_Errno.thy ===== *)
theory Shim_Errno
  imports Prelude
begin

text \<open>
  Error numbers and system parameters of the C library shim (\<^verbatim>\<open>libc-shim/src/errno.cpp\<close>, \<^verbatim>\<open>sysconf.cpp\<close>): programs built for Android use
  the numbers of its C library, the host has its own. The constants of the host are a parameter: a number for
  every name, and whether the host is Linux, since some cases exist only there.
\<close>

section \<open>Error numbers\<close>

record host_errno =
  is_linux :: bool
  errno_of :: "string \<Rightarrow> int"

text \<open>The cases of both functions, with the mark of those compiled for Linux only.\<close>

definition from_host_cases :: "(string \<times> int \<times> bool) list" where
  "from_host_cases =
    [(''EPERM'', 1, False), (''ENOENT'', 2, False), (''ESRCH'', 3, False), (''EINTR'', 4, False),
      (''EIO'', 5, False), (''ENXIO'', 6, False), (''E2BIG'', 7, False), (''ENOEXEC'', 8, False),
      (''EBADF'', 9, False), (''ECHILD'', 10, False), (''EAGAIN'', 11, False), (''ENOMEM'', 12, False),
      (''EACCES'', 13, False), (''EFAULT'', 14, False), (''ENOTBLK'', 15, False), (''EBUSY'', 16, False),
      (''EEXIST'', 17, False), (''EXDEV'', 18, False), (''ENODEV'', 19, False), (''ENOTDIR'', 20, False),
      (''EISDIR'', 21, False), (''EINVAL'', 22, False), (''ENFILE'', 23, False), (''EMFILE'', 24, False),
      (''ENOTTY'', 25, False), (''ETXTBSY'', 26, False), (''EFBIG'', 27, False), (''ENOSPC'', 28, False),
      (''ESPIPE'', 29, False), (''EROFS'', 30, False), (''EMLINK'', 31, False), (''EPIPE'', 32, False),
      (''EDOM'', 33, False), (''ERANGE'', 34, False), (''EDEADLK'', 35, False), (''ENAMETOOLONG'', 36, False),
      (''ENOLCK'', 37, False), (''ENOSYS'', 38, False), (''ENOTEMPTY'', 39, False), (''ELOOP'', 40, False),
      (''ENOMSG'', 42, False), (''EIDRM'', 43, False), (''ECHRNG'', 44, True), (''EL2NSYNC'', 45, True),
      (''EL3HLT'', 46, True), (''EL3RST'', 47, True), (''ELNRNG'', 48, True), (''EUNATCH'', 49, True),
      (''ENOCSI'', 50, True), (''EL2HLT'', 51, True), (''EBADE'', 52, True), (''EBADR'', 53, True),
      (''EXFULL'', 54, True), (''ENOANO'', 55, True), (''EBADRQC'', 56, True), (''EBADSLT'', 57, True),
      (''EBFONT'', 59, True), (''ENOSTR'', 60, False), (''ENODATA'', 61, False), (''ETIME'', 62, False),
      (''ENOSR'', 63, False), (''ENONET'', 64, True), (''ENOPKG'', 65, True), (''EREMOTE'', 66, False),
      (''ENOLINK'', 67, False), (''EADV'', 68, True), (''ESRMNT'', 69, True), (''ECOMM'', 70, True),
      (''EPROTO'', 71, False), (''EMULTIHOP'', 72, False), (''EDOTDOT'', 73, True), (''EBADMSG'', 74, False),
      (''EOVERFLOW'', 75, False), (''ENOTUNIQ'', 76, True), (''EBADFD'', 77, True), (''EREMCHG'', 78, True),
      (''ELIBACC'', 79, True), (''ELIBBAD'', 80, True), (''ELIBSCN'', 81, True), (''ELIBMAX'', 82, True),
      (''ELIBEXEC'', 83, True), (''EILSEQ'', 84, False), (''ERESTART'', 85, True), (''ESTRPIPE'', 86, True),
      (''EUSERS'', 87, False), (''ENOTSOCK'', 88, False), (''EDESTADDRREQ'', 89, False), (''EMSGSIZE'', 90, False),
      (''EPROTOTYPE'', 91, False), (''ENOPROTOOPT'', 92, False), (''EPROTONOSUPPORT'', 93, False),
      (''ESOCKTNOSUPPORT'', 94, False), (''EOPNOTSUPP'', 95, False), (''EPFNOSUPPORT'', 96, False),
      (''EAFNOSUPPORT'', 97, False), (''EADDRINUSE'', 98, False), (''EADDRNOTAVAIL'', 99, False),
      (''ENETDOWN'', 100, False), (''ENETUNREACH'', 101, False), (''ENETRESET'', 102, False),
      (''ECONNABORTED'', 103, False), (''ECONNRESET'', 104, False), (''ENOBUFS'', 105, False),
      (''EISCONN'', 106, False), (''ENOTCONN'', 107, False), (''ESHUTDOWN'', 108, False),
      (''ETOOMANYREFS'', 109, False), (''ETIMEDOUT'', 110, False), (''ECONNREFUSED'', 111, False),
      (''EHOSTDOWN'', 112, False), (''EHOSTUNREACH'', 113, False), (''EALREADY'', 114, False),
      (''EINPROGRESS'', 115, False), (''ESTALE'', 116, False), (''EUCLEAN'', 117, True), (''ENOTNAM'', 118, True),
      (''ENAVAIL'', 119, True), (''EISNAM'', 120, True), (''EREMOTEIO'', 121, True), (''EDQUOT'', 122, False),
      (''ENOMEDIUM'', 123, True), (''EMEDIUMTYPE'', 124, True), (''ECANCELED'', 125, False), (''ENOKEY'', 126, True),
      (''EKEYEXPIRED'', 127, True), (''EKEYREVOKED'', 128, True), (''EKEYREJECTED'', 129, True),
      (''EOWNERDEAD'', 130, False), (''ENOTRECOVERABLE'', 131, False)]"

definition to_host_cases :: "(int \<times> string \<times> bool) list" where
  "to_host_cases =
    [(1, ''EPERM'', False), (2, ''ENOENT'', False), (3, ''ESRCH'', False), (4, ''EINTR'', False),
      (5, ''EIO'', False), (6, ''ENXIO'', False), (7, ''E2BIG'', False), (8, ''ENOEXEC'', False),
      (9, ''EBADF'', False), (10, ''ECHILD'', False), (11, ''EAGAIN'', False), (12, ''ENOMEM'', False),
      (13, ''EACCES'', False), (14, ''EFAULT'', False), (15, ''ENOTBLK'', False), (16, ''EBUSY'', False),
      (17, ''EEXIST'', False), (18, ''EXDEV'', False), (19, ''ENODEV'', False), (20, ''ENOTDIR'', False),
      (21, ''EISDIR'', False), (22, ''EINVAL'', False), (23, ''ENFILE'', False), (24, ''EMFILE'', False),
      (25, ''ENOTTY'', False), (26, ''ETXTBSY'', False), (27, ''EFBIG'', False), (28, ''ENOSPC'', False),
      (29, ''ESPIPE'', False), (30, ''EROFS'', False), (31, ''EMLINK'', False), (32, ''EPIPE'', False),
      (33, ''EDOM'', False), (34, ''ERANGE'', False), (35, ''EDEADLK'', False), (36, ''ENAMETOOLONG'', False),
      (37, ''ENOLCK'', False), (38, ''ENOSYS'', False), (39, ''ENOTEMPTY'', False), (40, ''ELOOP'', False),
      (42, ''ENOMSG'', False), (43, ''EIDRM'', False), (44, ''ECHRNG'', True), (45, ''EL2NSYNC'', True),
      (46, ''EL3HLT'', True), (47, ''EL3RST'', True), (48, ''ELNRNG'', True), (49, ''EUNATCH'', True),
      (50, ''ENOCSI'', True), (51, ''EL2HLT'', True), (52, ''EBADE'', True), (53, ''EBADR'', True),
      (54, ''EXFULL'', True), (55, ''ENOANO'', True), (56, ''EBADRQC'', True), (57, ''EBADSLT'', True),
      (59, ''EBFONT'', True), (60, ''ENOSTR'', False), (61, ''ENODATA'', False), (62, ''ETIME'', False),
      (63, ''ENOSR'', False), (64, ''ENONET'', True), (65, ''ENOPKG'', True), (66, ''EREMOTE'', False),
      (67, ''ENOLINK'', False), (68, ''EADV'', True), (69, ''ESRMNT'', True), (70, ''ECOMM'', True),
      (71, ''EPROTO'', False), (72, ''EMULTIHOP'', False), (73, ''EDOTDOT'', True), (74, ''EBADMSG'', False),
      (75, ''EOVERFLOW'', False), (76, ''ENOTUNIQ'', True), (77, ''EBADFD'', True), (78, ''EREMCHG'', True),
      (79, ''ELIBACC'', True), (80, ''ELIBBAD'', True), (81, ''ELIBSCN'', True), (82, ''ELIBMAX'', True),
      (83, ''ELIBEXEC'', True), (84, ''EILSEQ'', False), (85, ''ERESTART'', True), (86, ''ESTRPIPE'', True),
      (87, ''EUSERS'', False), (88, ''ENOTSOCK'', False), (89, ''EDESTADDRREQ'', False), (90, ''EMSGSIZE'', False),
      (91, ''EPROTOTYPE'', False), (92, ''ENOPROTOOPT'', False), (93, ''EPROTONOSUPPORT'', False),
      (94, ''ESOCKTNOSUPPORT'', False), (95, ''EOPNOTSUPP'', False), (96, ''EPFNOSUPPORT'', False),
      (97, ''EAFNOSUPPORT'', False), (98, ''EADDRINUSE'', False), (99, ''EADDRNOTAVAIL'', False),
      (100, ''ENETDOWN'', False), (101, ''ENETUNREACH'', False), (102, ''ENETRESET'', False),
      (103, ''ECONNABORTED'', False), (104, ''ECONNRESET'', False), (105, ''ENOBUFS'', False),
      (106, ''EISCONN'', False), (107, ''ENOTCONN'', False), (108, ''ESHUTDOWN'', False),
      (109, ''ETOOMANYREFS'', False), (110, ''ETIMEDOUT'', False), (111, ''ECONNREFUSED'', False),
      (112, ''EHOSTDOWN'', False), (113, ''EHOSTUNREACH'', False), (114, ''EALREADY'', False),
      (115, ''EINPROGRESS'', False), (116, ''ESTALE'', False), (117, ''EUCLEAN'', True), (118, ''ENOTNAM'', True),
      (119, ''ENAVAIL'', True), (120, ''EISNAM'', True), (121, ''EREMOTEIO'', True), (122, ''EDQUOT'', False),
      (123, ''ENOMEDIUM'', True), (124, ''EMEDIUMTYPE'', True), (125, ''ECANCELED'', False), (126, ''ENOKEY'', True),
      (127, ''EKEYEXPIRED'', True), (128, ''EKEYREVOKED'', True), (129, ''EKEYREJECTED'', True),
      (130, ''EOWNERDEAD'', False), (131, ''ENOTRECOVERABLE'', False)]"

definition translate_errno_from_host :: "host_errno \<Rightarrow> int \<Rightarrow> int" where
  "translate_errno_from_host h err =
     (case find (\<lambda>(n, v, l). (l \<longrightarrow> is_linux h) \<and> errno_of h n = err) from_host_cases of
        Some (n, v, l) \<Rightarrow> v | None \<Rightarrow> err)"

definition translate_errno_to_host :: "host_errno \<Rightarrow> int \<Rightarrow> int" where
  "translate_errno_to_host h err =
     (case find (\<lambda>(v, n, l). (l \<longrightarrow> is_linux h) \<and> v = err) to_host_cases of
        Some (v, n, l) \<Rightarrow> errno_of h n | None \<Rightarrow> err)"

text \<open>The error of the host and, where numbers are translated, the one the program sees.\<close>

record errno_state =
  host_value :: int
  errno_value :: int

definition update_errno :: "host_errno \<Rightarrow> errno_state \<Rightarrow> errno_state" where
  "update_errno h s = s\<lparr>errno_value := translate_errno_from_host h (host_value s)\<rparr>"

definition get_errno :: "errno_state \<Rightarrow> int" where
  "get_errno s = errno_value s"

definition set_errno :: "host_errno \<Rightarrow> int \<Rightarrow> errno_state \<Rightarrow> errno_state" where
  "set_errno h err s = s\<lparr>errno_value := err, host_value := translate_errno_to_host h err\<rparr>"

text \<open>A wrapped call sets the error of the host; the shim translates it when the call returns.\<close>

definition with_errno_update :: "host_errno \<Rightarrow> (errno_state \<Rightarrow> 'r \<times> errno_state) \<Rightarrow> errno_state \<Rightarrow> 'r \<times> errno_state" where
  "with_errno_update h f s = (let (r, s1) = f s in (r, update_errno h s1))"

section \<open>Round trip\<close>

definition host_cases :: "host_errno \<Rightarrow> (string \<times> int \<times> bool) list" where
  "host_cases h = filter (\<lambda>(n, v, l). l \<longrightarrow> is_linux h) from_host_cases"

text \<open>The host gives every name it has a number of its own.\<close>

definition host_errno_ok :: "host_errno \<Rightarrow> bool" where
  "host_errno_ok h \<longleftrightarrow> distinct (map (\<lambda>(n, v, l). errno_of h n) (host_cases h))"

lemma cases_inverse: "to_host_cases = map (\<lambda>(n, v, l). (v, n, l)) from_host_cases"
  by (simp add: to_host_cases_def from_host_cases_def)

lemma cases_distinct: "distinct (map (\<lambda>(n, v, l). v) from_host_cases)"
  by (simp add: from_host_cases_def)

lemma find_distinct:
  "distinct (map f xs) \<Longrightarrow> x \<in> set xs \<Longrightarrow> find (\<lambda>y. f y = f x) xs = Some x"
  by (induction xs) auto

lemma find_filter_conj: "find (\<lambda>y. P y \<and> Q y) xs = find Q (filter P xs)"
  by (induction xs) auto

lemma from_host_case:
  assumes "host_errno_ok h" "(n, v, l) \<in> set (host_cases h)"
  shows "translate_errno_from_host h (errno_of h n) = v"
proof -
  let ?f = "\<lambda>(n, v, l). errno_of h n"
  have "find (\<lambda>y. ?f y = ?f (n, v, l)) (host_cases h) = Some (n, v, l)"
    using assms by (intro find_distinct) (simp_all add: host_errno_ok_def)
  then have "find (\<lambda>y. (case y of (n, v, l) \<Rightarrow> l \<longrightarrow> is_linux h) \<and> ?f y = errno_of h n) from_host_cases = Some (n, v, l)"
    unfolding find_filter_conj host_cases_def by simp
  then show ?thesis by (simp add: translate_errno_from_host_def case_prod_unfold)
qed

lemma to_host_case:
  assumes "(n, v, l) \<in> set (host_cases h)"
  shows "translate_errno_to_host h v = errno_of h n"
proof -
  have find_map: "find P (map g xs) = map_option g (find (P \<circ> g) xs)" for P :: "'b \<Rightarrow> bool" and g :: "'a \<Rightarrow> 'b" and xs
    by (induction xs) auto
  let ?f = "\<lambda>(n, v, l). v :: int"
  have "distinct (map ?f (host_cases h))"
    unfolding host_cases_def using cases_distinct by (rule distinct_map_filter)
  then have "find (\<lambda>y. ?f y = ?f (n, v, l)) (host_cases h) = Some (n, v, l)"
    using assms by (intro find_distinct)
  then have "find (\<lambda>y. (case y of (n, v, l) \<Rightarrow> l \<longrightarrow> is_linux h) \<and> ?f y = v) from_host_cases = Some (n, v, l)"
    unfolding find_filter_conj host_cases_def by simp
  then show ?thesis
    by (simp add: translate_errno_to_host_def cases_inverse find_map comp_def case_prod_unfold)
qed

text \<open>
  C12 (errno_roundtrip). On every host whose error names have different numbers, the translations are inverse to each other on
  the errors the host has: a number of the program that is set and read back through the host is the same
  number again, and so is a number of the host that the program stores back.
\<close>

theorem errno_roundtrip:
  assumes "host_errno_ok h" "(n, v, l) \<in> set (host_cases h)"
  shows "translate_errno_from_host h (translate_errno_to_host h v) = v \<and>
    translate_errno_to_host h (translate_errno_from_host h (errno_of h n)) = errno_of h n \<and>
    get_errno (update_errno h (set_errno h v s)) = v"
  using from_host_case [OF assms] to_host_case [OF assms(2)]
  by (simp add: update_errno_def set_errno_def get_errno_def)

text \<open>A Linux host: its numbers are those of the program.\<close>

definition linux_host :: host_errno where
  "linux_host = \<lparr>is_linux = True, errno_of = (\<lambda>n. case map_of from_host_cases n of Some (v, l) \<Rightarrow> v | None \<Rightarrow> 0)\<rparr>"

lemma linux_names_distinct: "distinct (map fst from_host_cases)"
  by (simp add: from_host_cases_def)

lemma linux_cases: "host_cases linux_host = from_host_cases"
  by (simp add: host_cases_def linux_host_def)

lemma linux_number: "(n, v, l) \<in> set from_host_cases \<Longrightarrow> errno_of linux_host n = v"
  using linux_names_distinct by (simp add: linux_host_def map_of_is_SomeI)

lemma linux_host_ok: "host_errno_ok linux_host"
proof -
  have eq: "map (\<lambda>(n, v, l). errno_of linux_host n) from_host_cases = map (\<lambda>(n, v, l). v) from_host_cases"
    by (rule map_cong) (auto simp: linux_number)
  show ?thesis unfolding host_errno_ok_def linux_cases eq by (rule cases_distinct)
qed

theorem errno_roundtrip_witness:
  "translate_errno_from_host linux_host (translate_errno_to_host linux_host 110) = 110 \<and>
   translate_errno_to_host linux_host (translate_errno_from_host linux_host (errno_of linux_host ''ETIMEDOUT'')) =
     errno_of linux_host ''ETIMEDOUT''"
proof -
  have "(''ETIMEDOUT'', 110, False) \<in> set (host_cases linux_host)" unfolding linux_cases by (simp add: from_host_cases_def)
  from errno_roundtrip [OF linux_host_ok this] show ?thesis by simp
qed

section \<open>System parameters\<close>

definition sysconf_cases :: "(int \<times> string \<times> bool) list" where
  "sysconf_cases =
    [(0, ''_SC_ARG_MAX'', False), (1, ''_SC_BC_BASE_MAX'', False), (2, ''_SC_BC_DIM_MAX'', False),
      (3, ''_SC_BC_SCALE_MAX'', False), (4, ''_SC_BC_STRING_MAX'', False), (5, ''_SC_CHILD_MAX'', False),
      (6, ''_SC_CLK_TCK'', False), (7, ''_SC_COLL_WEIGHTS_MAX'', False), (8, ''_SC_EXPR_NEST_MAX'', False),
      (9, ''_SC_LINE_MAX'', False), (10, ''_SC_NGROUPS_MAX'', False), (11, ''_SC_OPEN_MAX'', False),
      (12, ''_SC_PASS_MAX'', False), (13, ''_SC_2_C_BIND'', False), (14, ''_SC_2_C_DEV'', False),
      (16, ''_SC_2_CHAR_TERM'', False), (17, ''_SC_2_FORT_DEV'', False), (18, ''_SC_2_FORT_RUN'', False),
      (19, ''_SC_2_LOCALEDEF'', False), (20, ''_SC_2_SW_DEV'', False), (21, ''_SC_2_UPE'', False),
      (22, ''_SC_2_VERSION'', False), (23, ''_SC_JOB_CONTROL'', False), (24, ''_SC_SAVED_IDS'', False),
      (25, ''_SC_VERSION'', False), (26, ''_SC_RE_DUP_MAX'', False), (27, ''_SC_STREAM_MAX'', False),
      (28, ''_SC_TZNAME_MAX'', False), (29, ''_SC_XOPEN_CRYPT'', False), (30, ''_SC_XOPEN_ENH_I18N'', False),
      (31, ''_SC_XOPEN_SHM'', False), (32, ''_SC_XOPEN_VERSION'', False), (34, ''_SC_XOPEN_REALTIME'', False),
      (35, ''_SC_XOPEN_REALTIME_THREADS'', False), (36, ''_SC_XOPEN_LEGACY'', False),
      (37, ''_SC_ATEXIT_MAX'', False), (38, ''_SC_IOV_MAX'', False), (39, ''_SC_PAGESIZE'', False),
      (40, ''_SC_PAGE_SIZE'', False), (41, ''_SC_XOPEN_UNIX'', False), (46, ''_SC_AIO_LISTIO_MAX'', False),
      (47, ''_SC_AIO_MAX'', False), (48, ''_SC_AIO_PRIO_DELTA_MAX'', False), (49, ''_SC_DELAYTIMER_MAX'', False),
      (50, ''_SC_MQ_OPEN_MAX'', False), (51, ''_SC_MQ_PRIO_MAX'', False), (52, ''_SC_RTSIG_MAX'', False),
      (53, ''_SC_SEM_NSEMS_MAX'', False), (54, ''_SC_SEM_VALUE_MAX'', False), (55, ''_SC_SIGQUEUE_MAX'', False),
      (56, ''_SC_TIMER_MAX'', False), (57, ''_SC_ASYNCHRONOUS_IO'', False), (58, ''_SC_FSYNC'', False),
      (59, ''_SC_MAPPED_FILES'', False), (60, ''_SC_MEMLOCK'', False), (61, ''_SC_MEMLOCK_RANGE'', False),
      (62, ''_SC_MEMORY_PROTECTION'', False), (63, ''_SC_MESSAGE_PASSING'', False),
      (64, ''_SC_PRIORITIZED_IO'', False), (65, ''_SC_PRIORITY_SCHEDULING'', False),
      (66, ''_SC_REALTIME_SIGNALS'', False), (67, ''_SC_SEMAPHORES'', False),
      (68, ''_SC_SHARED_MEMORY_OBJECTS'', False), (69, ''_SC_SYNCHRONIZED_IO'', False), (70, ''_SC_TIMERS'', False),
      (71, ''_SC_GETGR_R_SIZE_MAX'', False), (72, ''_SC_GETPW_R_SIZE_MAX'', False),
      (73, ''_SC_LOGIN_NAME_MAX'', False), (74, ''_SC_THREAD_DESTRUCTOR_ITERATIONS'', False),
      (75, ''_SC_THREAD_KEYS_MAX'', False), (76, ''_SC_THREAD_STACK_MIN'', False),
      (77, ''_SC_THREAD_THREADS_MAX'', False), (78, ''_SC_TTY_NAME_MAX'', False), (79, ''_SC_THREADS'', False),
      (80, ''_SC_THREAD_ATTR_STACKADDR'', False), (81, ''_SC_THREAD_ATTR_STACKSIZE'', False),
      (82, ''_SC_THREAD_PRIORITY_SCHEDULING'', False), (83, ''_SC_THREAD_PRIO_INHERIT'', False),
      (84, ''_SC_THREAD_PRIO_PROTECT'', False), (85, ''_SC_THREAD_SAFE_FUNCTIONS'', False),
      (96, ''_SC_NPROCESSORS_CONF'', False), (97, ''_SC_NPROCESSORS_ONLN'', False), (98, ''_SC_PHYS_PAGES'', False),
      (99, ''_SC_AVPHYS_PAGES'', True), (100, ''_SC_MONOTONIC_CLOCK'', False)]"

text \<open>\<open>sc\<close> gives the host's numbers of the parameters.\<close>

definition to_host_sysconf_id :: "bool \<Rightarrow> (string \<Rightarrow> int) \<Rightarrow> int \<Rightarrow> int cxx" where
  "to_host_sysconf_id linux sc arg =
     (case find (\<lambda>(i, n, l). (l \<longrightarrow> linux) \<and> i = arg) sysconf_cases of
        Some (i, n, l) \<Rightarrow> Inr (sc n) | None \<Rightarrow> Inl (RuntimeError ''Uknown sysconf id''))"

definition sysconf :: "bool \<Rightarrow> (string \<Rightarrow> int) \<Rightarrow> (int \<Rightarrow> int) \<Rightarrow> int \<Rightarrow> int cxx" where
  "sysconf linux sc host_sysconf name = cxx_bind (to_host_sysconf_id linux sc name) (\<lambda>i. Inr (host_sysconf i))"

text \<open>Every parameter of the table is answered with the host's value of the parameter of that name.\<close>

lemma sysconf_answers:
  assumes "(i, n, l) \<in> set sysconf_cases" "l \<longrightarrow> linux"
  shows "sysconf linux sc host_sysconf i = Inr (host_sysconf (sc n))"
proof -
  have "distinct (map fst sysconf_cases)" by (simp add: sysconf_cases_def)
  then have "distinct (map fst (filter (\<lambda>(i, n, l). l \<longrightarrow> linux) sysconf_cases))" by (rule distinct_map_filter)
  moreover have "(i, n, l) \<in> set (filter (\<lambda>(i, n, l). l \<longrightarrow> linux) sysconf_cases)" using assms by simp
  ultimately have "find (\<lambda>y. fst y = fst (i, n, l)) (filter (\<lambda>(i, n, l). l \<longrightarrow> linux) sysconf_cases) = Some (i, n, l)"
    by (rule find_distinct)
  then have "find (\<lambda>y. (case y of (i, n, l) \<Rightarrow> l \<longrightarrow> linux) \<and> fst y = i) sysconf_cases = Some (i, n, l)"
    unfolding find_filter_conj by simp
  then show ?thesis by (simp add: sysconf_def to_host_sysconf_id_def case_prod_unfold)
qed

end
