(* ===== verification/Shim_Network.thy ===== *)
theory Shim_Network
  imports Prelude
begin

text \<open>
  Sockets of the C library shim (\<^verbatim>\<open>libc-shim/src/network.cpp\<close>, \<^verbatim>\<open>network.h\<close>): addresses, flags and options of the program are translated to those
  of the host and back. The constants of the host and the results of its calls are arguments.

  A socket address has a family and the data of that family; an address whose data is of another
  family than it says does not occur, reading it would be undefined. Lists linked by \<^verbatim>\<open>ai_next\<close> are lists.
\<close>

unbundle bit_operations_syntax

section \<open>The host\<close>

record host_net =
  AF_UNSPEC :: int
  AF_INET :: int
  AF_INET6 :: int
  SOCK_STREAM :: int
  SOCK_DGRAM :: int
  SOCK_RAW :: int
  IPPROTO_IP :: int
  IPPROTO_TCP :: int
  IPPROTO_UDP :: int
  IPPROTO_IPV6 :: int
  AI_PASSIVE :: u32
  AI_CANONNAME :: u32
  AI_NUMERICHOST :: u32
  SOL_SOCKET :: int
  MSG_NOSIGNAL :: u32
  host_const :: "string \<Rightarrow> int"
  sizeof_in :: nat
  sizeof_in6 :: nat

text \<open>Different constants, and flags that do not overlap.\<close>

definition host_net_ok :: "host_net \<Rightarrow> bool" where
  "host_net_ok h \<longleftrightarrow>
     distinct [AF_UNSPEC h, AF_INET h, AF_INET6 h] \<and> distinct [SOCK_STREAM h, SOCK_DGRAM h, SOCK_RAW h] \<and>
     distinct [IPPROTO_IP h, IPPROTO_TCP h, IPPROTO_UDP h, IPPROTO_IPV6 h] \<and>
     AI_PASSIVE h \<noteq> 0 \<and> AI_CANONNAME h \<noteq> 0 \<and> AI_NUMERICHOST h \<noteq> 0 \<and>
     AI_PASSIVE h AND AI_CANONNAME h = 0 \<and> AI_PASSIVE h AND AI_NUMERICHOST h = 0 \<and> AI_CANONNAME h AND AI_NUMERICHOST h = 0 \<and>
     0 < sizeof_in h \<and> 0 < sizeof_in6 h"

section \<open>Constants\<close>



text \<open>A \<^verbatim>\<open>switch\<close> that throws on everything else.\<close>

definition switch_or_throw :: "string \<Rightarrow> (int \<times> int) list \<Rightarrow> int \<Rightarrow> int cxx" where
  "switch_or_throw msg tab i = (case map_of tab i of Some j \<Rightarrow> Inr j | None \<Rightarrow> Inl (RuntimeError msg))"


definition to_host_af_family :: "host_net \<Rightarrow> int \<Rightarrow> int cxx" where
  "to_host_af_family h = switch_or_throw ''Unknown af_family'' [(0, AF_UNSPEC h), (2, AF_INET h), (10, AF_INET6 h)]"


definition to_host_socktype :: "host_net \<Rightarrow> int \<Rightarrow> int cxx" where
  "to_host_socktype h = switch_or_throw ''Unknown socktype'' [(1, SOCK_STREAM h), (2, SOCK_DGRAM h), (3, SOCK_RAW h)]"


definition to_host_ipproto :: "host_net \<Rightarrow> int \<Rightarrow> int cxx" where
  "to_host_ipproto h =
     switch_or_throw ''Unknown ipproto'' [(0, IPPROTO_IP h), (6, IPPROTO_TCP h), (17, IPPROTO_UDP h), (41, IPPROTO_IPV6 h)]"

section \<open>Addresses\<close>

datatype inet_data = NoData | In4 u16 u32 | In6 u16 u32 "byte list" u32

datatype sock_addr = Addr (sa_family: int) (sa_data: inet_data)

definition from_host :: "host_net \<Rightarrow> sock_addr \<Rightarrow> sock_addr cxx" where
  "from_host h a =
     (if sa_family a = AF_UNSPEC h then Inr (Addr 0 NoData)
      else if sa_family a = AF_INET h then
        (case sa_data a of In4 port addr \<Rightarrow> Inr (Addr 2 (In4 port addr)) | _ \<Rightarrow> Inl Undefined)
      else if sa_family a = AF_INET6 h then
        (case sa_data a of In6 port flow addr scope \<Rightarrow> Inr (Addr 10 (In6 port flow addr scope)) | _ \<Rightarrow> Inl Undefined)
      else Inl (RuntimeError ''Unknown socket family when converting sockaddr from host''))"

definition to_host :: "host_net \<Rightarrow> sock_addr \<Rightarrow> sock_addr cxx" where
  "to_host h a =
     (if sa_family a = 0 then Inr (Addr (AF_UNSPEC h) NoData)
      else if sa_family a = 2 then
        (case sa_data a of In4 port addr \<Rightarrow> Inr (Addr (AF_INET h) (In4 port addr)) | _ \<Rightarrow> Inl Undefined)
      else if sa_family a = 10 then
        (case sa_data a of In6 port flow addr scope \<Rightarrow> Inr (Addr (AF_INET6 h) (In6 port flow addr scope)) | _ \<Rightarrow> Inl Undefined)
      else Inl (RuntimeError ''Unknown socket family when converting sockaddr to host''))"

definition get_host_len :: "host_net \<Rightarrow> sock_addr option \<Rightarrow> nat cxx" where
  "get_host_len h a =
     (case a of None \<Rightarrow> Inr 0
      | Some a \<Rightarrow>
          if sa_family a = 2 then Inr (sizeof_in h) else if sa_family a = 10 then Inr (sizeof_in6 h)
          else Inl (RuntimeError ''Unknown socket family when converting sockaddr to host''))"

definition get_bionic_len :: "host_net \<Rightarrow> sock_addr option \<Rightarrow> nat cxx" where
  "get_bionic_len h a =
     (case a of None \<Rightarrow> Inr 0
      | Some a \<Rightarrow>
          if sa_family a = AF_INET h then Inr 16 else if sa_family a = AF_INET6 h then Inr 28
          else Inl (RuntimeError ''Unknown socket family when converting sockaddr from host''))"

section \<open>Address lists\<close>








section \<open>Flags and options\<close>

definition to_host_nameinfo_flags :: "host_net \<Rightarrow> u32 \<Rightarrow> u32" where
  "to_host_nameinfo_flags h flags =
     (let c = (\<lambda>b n. if flags AND b \<noteq> 0 then of_int (host_const h n) else 0)
      in c 1 ''NI_NOFQDN'' OR c 2 ''NI_NUMERICHOST'' OR c 4 ''NI_NAMEREQD'' OR c 8 ''NI_NUMERICSERV'' OR c 16 ''NI_DGRAM'')"

definition named_switch :: "host_net \<Rightarrow> string \<Rightarrow> (int \<times> string) list \<Rightarrow> int \<Rightarrow> int cxx" where
  "named_switch h msg tab i = (case map_of tab i of Some n \<Rightarrow> Inr (host_const h n) | None \<Rightarrow> Inl (RuntimeError msg))"

definition to_host_sockopt_so :: "host_net \<Rightarrow> int \<Rightarrow> int cxx" where
  "to_host_sockopt_so h = named_switch h ''Unknown SO sockopt''
     [(1, ''SO_DEBUG''), (2, ''SO_REUSEADDR''), (3, ''SO_TYPE''), (4, ''SO_ERROR''), (5, ''SO_DONTROUTE''), (6, ''SO_BROADCAST''),
      (7, ''SO_SNDBUF''), (8, ''SO_RCVBUF''), (9, ''SO_KEEPALIVE''), (10, ''SO_OOBINLINE''), (13, ''SO_LINGER''), (15, ''SO_REUSEPORT'')]"

definition to_host_sockopt_ip :: "host_net \<Rightarrow> int \<Rightarrow> int cxx" where
  "to_host_sockopt_ip h = named_switch h ''Unknown IP sockopt''
     [(1, ''IP_TOS''), (2, ''IP_TTL''), (3, ''IP_HDRINCL''), (4, ''IP_OPTIONS''), (6, ''IP_RECVOPTS''), (7, ''IP_RETOPTS''),
      (16, ''IP_IPSEC_POLICY''), (32, ''IP_MULTICAST_IF''), (33, ''IP_MULTICAST_TTL''), (34, ''IP_MULTICAST_LOOP''),
      (35, ''IP_ADD_MEMBERSHIP''), (36, ''IP_DROP_MEMBERSHIP'')]"

definition to_host_sockopt_ipv6 :: "host_net \<Rightarrow> int \<Rightarrow> int cxx" where
  "to_host_sockopt_ipv6 h = named_switch h ''Unknown IPv6 sockopt''
     [(2, ''IPV6_2292PKTINFO''), (3, ''IPV6_2292HOPOPTS''), (4, ''IPV6_2292DSTOPTS''), (5, ''IPV6_2292RTHDR''),
      (6, ''IPV6_2292PKTOPTIONS''), (7, ''IPV6_CHECKSUM''), (8, ''IPV6_2292HOPLIMIT''), (16, ''IPV6_UNICAST_HOPS''),
      (17, ''IPV6_MULTICAST_IF''), (18, ''IPV6_MULTICAST_HOPS''), (19, ''IPV6_MULTICAST_LOOP''), (20, ''IPV6_JOIN_GROUP''),
      (21, ''IPV6_LEAVE_GROUP''), (26, ''IPV6_V6ONLY''), (34, ''IPV6_IPSEC_POLICY'')]"

definition to_host_sockopt_level :: "host_net \<Rightarrow> int \<Rightarrow> int cxx" where
  "to_host_sockopt_level h level = (if level = 1 then Inr (SOL_SOCKET h) else to_host_ipproto h level)"

definition to_host_sockopt :: "host_net \<Rightarrow> int \<Rightarrow> int \<Rightarrow> int cxx" where
  "to_host_sockopt h level opt =
     cxx_bind (to_host_sockopt_level h level) (\<lambda>l.
       if l = SOL_SOCKET h then to_host_sockopt_so h opt
       else if l = IPPROTO_IP h then to_host_sockopt_ip h opt
       else if l = IPPROTO_IPV6 h then to_host_sockopt_ipv6 h opt
       else Inl (RuntimeError ''Unknown sockopt level''))"

section \<open>Calls\<close>

text \<open>
  What a call passes to the host. An address argument (\<^verbatim>\<open>detail::sockaddr_in\<close>) is a translated address with the host's length, or null.
\<close>

definition sockaddr_arg :: "host_net \<Rightarrow> sock_addr option \<Rightarrow> (sock_addr option \<times> nat) cxx" where
  "sockaddr_arg h a =
     (case a of None \<Rightarrow> Inr (None, 0)
      | Some x \<Rightarrow>
          cxx_bind (to_host h x) (\<lambda>y.
          cxx_bind (get_host_len h (Some x)) (\<lambda>len. Inr (if len = 0 then None else Some y, len))))"

text \<open>An address result (\<^verbatim>\<open>detail::sockaddr_out::apply\<close>): what is written through the pointers of the caller.\<close>

definition sockaddr_out_apply :: "host_net \<Rightarrow> sock_addr \<Rightarrow> bool \<Rightarrow> nat option \<Rightarrow> (sock_addr \<times> nat) cxx" where
  "sockaddr_out_apply h haddr addr addrlen =
     cxx_bind (get_bionic_len h (Some haddr)) (\<lambda>len.
       case addrlen of
         None \<Rightarrow> Inl Undefined
       | Some space \<Rightarrow>
           if space < len then Inl (RuntimeError ''buffer for sockaddr not big enough'')
           else cxx_bind (from_host h haddr) (\<lambda>b. if addr then Inr (b, len) else Inl Undefined))"

definition sock_send_flags :: "host_net \<Rightarrow> u32 \<Rightarrow> u32 cxx" where
  "sock_send_flags h flags =
     (if flags AND NOT 0x4000 \<noteq> 0 then Inl (RuntimeError ''Unexpected flags in a socket send operation'')
      else Inr (if flags AND 0x4000 \<noteq> 0 then MSG_NOSIGNAL h else 0))"

definition shim_socket :: "host_net \<Rightarrow> (int \<Rightarrow> int \<Rightarrow> int \<Rightarrow> int) \<Rightarrow> int \<Rightarrow> int \<Rightarrow> int \<Rightarrow> int cxx" where
  "shim_socket h host_socket domain ty proto =
     cxx_bind (to_host_af_family h domain) (\<lambda>d.
     cxx_bind (to_host_socktype h ty) (\<lambda>t.
     cxx_bind (to_host_ipproto h proto) (\<lambda>p. Inr (host_socket d t p))))"

definition shim_bind :: "host_net \<Rightarrow> (sock_addr option \<Rightarrow> nat \<Rightarrow> int) \<Rightarrow> sock_addr option \<Rightarrow> int cxx" where
  "shim_bind h host_bind addr = cxx_bind (sockaddr_arg h addr) (\<lambda>(a, len). Inr (host_bind a len))"

definition shim_connect :: "host_net \<Rightarrow> (sock_addr option \<Rightarrow> nat \<Rightarrow> int) \<Rightarrow> sock_addr option \<Rightarrow> int cxx" where
  "shim_connect h host_connect addr = cxx_bind (sockaddr_arg h addr) (\<lambda>(a, len). Inr (host_connect a len))"

definition shim_send :: "host_net \<Rightarrow> (byte list \<Rightarrow> u32 \<Rightarrow> int) \<Rightarrow> byte list \<Rightarrow> u32 \<Rightarrow> int cxx" where
  "shim_send h host_send buf flags = cxx_bind (sock_send_flags h flags) (\<lambda>f. Inr (host_send buf f))"

definition shim_sendmsg :: "host_net \<Rightarrow> ('m \<Rightarrow> u32 \<Rightarrow> int) \<Rightarrow> 'm \<Rightarrow> u32 \<Rightarrow> int cxx" where
  "shim_sendmsg h host_sendmsg data flags = cxx_bind (sock_send_flags h flags) (\<lambda>f. Inr (host_sendmsg data f))"

definition shim_sendto ::
  "host_net \<Rightarrow> (byte list \<Rightarrow> u32 \<Rightarrow> sock_addr option \<Rightarrow> nat \<Rightarrow> int) \<Rightarrow> byte list \<Rightarrow> u32 \<Rightarrow> sock_addr option \<Rightarrow> int cxx" where
  "shim_sendto h host_sendto buf flags addr =
     cxx_bind (sockaddr_arg h addr) (\<lambda>(a, len).
     cxx_bind (sock_send_flags h flags) (\<lambda>f. Inr (host_sendto buf f a len)))"

definition shim_recv :: "(u32 \<Rightarrow> int) \<Rightarrow> u32 \<Rightarrow> int cxx" where
  "shim_recv host_recv flags =
     (if flags \<noteq> 0 then Inl (RuntimeError ''recv with unsupported flags'') else Inr (host_recv flags))"

definition shim_recvmsg :: "(u32 \<Rightarrow> int) \<Rightarrow> u32 \<Rightarrow> int cxx" where
  "shim_recvmsg host_recvmsg flags =
     (if flags \<noteq> 0 then Inl (RuntimeError ''recvmsg with unsupported flags'') else Inr (host_recvmsg flags))"

text \<open>
  The calls that return an address: \<open>ret\<close> and \<open>haddr\<close> are what the host returns and stores, \<open>addr\<close> says that the caller passed a pointer for the
  address and \<open>addrlen\<close> is the space behind the other pointer. The result has what is stored for the caller.
\<close>

definition store_if :: "bool \<Rightarrow> host_net \<Rightarrow> int \<Rightarrow> sock_addr \<Rightarrow> bool \<Rightarrow> nat option \<Rightarrow> (int \<times> (sock_addr \<times> nat) option) cxx" where
  "store_if ok h ret haddr addr addrlen =
     (if ok then cxx_bind (sockaddr_out_apply h haddr addr addrlen) (\<lambda>r. Inr (ret, Some r)) else Inr (ret, None))"

definition shim_recvfrom :: "host_net \<Rightarrow> u32 \<Rightarrow> int \<Rightarrow> sock_addr \<Rightarrow> bool \<Rightarrow> nat option \<Rightarrow> (int \<times> (sock_addr \<times> nat) option) cxx" where
  "shim_recvfrom h flags ret haddr addr addrlen =
     (if flags \<noteq> 0 then Inl (RuntimeError ''recvfrom with unsupported flags'')
      else if \<not> addr then Inr (ret, None)
      else store_if (0 \<le> ret) h ret haddr addr addrlen)"

definition shim_getsockname :: "host_net \<Rightarrow> int \<Rightarrow> sock_addr \<Rightarrow> bool \<Rightarrow> nat option \<Rightarrow> (int \<times> (sock_addr \<times> nat) option) cxx" where
  "shim_getsockname h ret haddr addr addrlen = store_if (ret = 0) h ret haddr addr addrlen"

definition shim_getpeername :: "host_net \<Rightarrow> int \<Rightarrow> sock_addr \<Rightarrow> bool \<Rightarrow> nat option \<Rightarrow> (int \<times> (sock_addr \<times> nat) option) cxx" where
  "shim_getpeername h ret haddr addr addrlen = store_if (ret = 0) h ret haddr addr addrlen"

definition shim_accept :: "host_net \<Rightarrow> int \<Rightarrow> sock_addr \<Rightarrow> bool \<Rightarrow> nat option \<Rightarrow> (int \<times> (sock_addr \<times> nat) option) cxx" where
  "shim_accept h ret haddr addr addrlen = store_if (0 \<le> ret) h ret haddr addr addrlen"

definition shim_getnameinfo :: "host_net \<Rightarrow> (sock_addr option \<Rightarrow> nat \<Rightarrow> u32 \<Rightarrow> int) \<Rightarrow> sock_addr option \<Rightarrow> u32 \<Rightarrow> int" where
  "shim_getnameinfo h host_gni addr flags =
     (case sockaddr_arg h addr of Inl e \<Rightarrow> 5 | Inr (a, len) \<Rightarrow> host_gni a len (to_host_nameinfo_flags h flags))"

definition shim_getsockopt :: "host_net \<Rightarrow> (int \<Rightarrow> int \<Rightarrow> 'r) \<Rightarrow> int \<Rightarrow> int \<Rightarrow> 'r cxx" where
  "shim_getsockopt h host_getsockopt level optname =
     cxx_bind (to_host_sockopt_level h level) (\<lambda>l. cxx_bind (to_host_sockopt h level optname) (\<lambda>n. Inr (host_getsockopt l n)))"

definition shim_setsockopt :: "host_net \<Rightarrow> (int \<Rightarrow> int \<Rightarrow> 'r) \<Rightarrow> int \<Rightarrow> int \<Rightarrow> 'r cxx" where
  "shim_setsockopt h host_setsockopt level optname =
     cxx_bind (to_host_sockopt_level h level) (\<lambda>l. cxx_bind (to_host_sockopt h level optname) (\<lambda>n. Inr (host_setsockopt l n)))"

definition shim_shutdown :: "host_net \<Rightarrow> (int \<Rightarrow> int) \<Rightarrow> int \<Rightarrow> int cxx" where
  "shim_shutdown h host_shutdown how =
     cxx_bind (named_switch h ''Unexpected how parameter passed to shutdown'' [(0, ''SHUT_RD''), (1, ''SHUT_WR''), (2, ''SHUT_RDWR'')] how)
       (\<lambda>hh. Inr (host_shutdown hh))"

section \<open>Round trips\<close>

text \<open>The addresses of the program: a family it knows, with the data of that family.\<close>

definition addr_ok :: "sock_addr \<Rightarrow> bool" where
  "addr_ok a \<longleftrightarrow> (case sa_data a of NoData \<Rightarrow> sa_family a = 0 | In4 _ _ \<Rightarrow> sa_family a = 2 | In6 _ _ _ _ \<Rightarrow> sa_family a = 10)"

lemma addr_roundtrip: "host_net_ok h \<Longrightarrow> addr_ok a \<Longrightarrow> cxx_bind (to_host h a) (from_host h) = Inr a"
  by (cases a; cases "sa_data a") (auto simp: addr_ok_def to_host_def from_host_def host_net_ok_def)







definition linux_net :: host_net where
  "linux_net =
     \<lparr>AF_UNSPEC = 0, AF_INET = 2, AF_INET6 = 10, SOCK_STREAM = 1, SOCK_DGRAM = 2, SOCK_RAW = 3, IPPROTO_IP = 0, IPPROTO_TCP = 6,
      IPPROTO_UDP = 17, IPPROTO_IPV6 = 41, AI_PASSIVE = 1, AI_CANONNAME = 2, AI_NUMERICHOST = 4, SOL_SOCKET = 1, MSG_NOSIGNAL = 0x4000,
      host_const = (\<lambda>_. 0), sizeof_in = 16, sizeof_in6 = 28\<rparr>"

lemma linux_net_ok: "host_net_ok linux_net"
  by (simp add: host_net_ok_def linux_net_def)


text \<open>
  C40 (accept_without_address). A program may accept a connection without asking for the address of the peer, with two null
  pointers. The shim then stores through them when the host accepts: the call is undefined exactly in the case in which
  it should succeed, while \<^verbatim>\<open>recvfrom\<close>, which tests its pointer, returns the host's result.
\<close>

theorem accept_without_address:
  assumes "host_net_ok h" "0 \<le> ret" "sa_family haddr \<in> {AF_INET h, AF_INET6 h}"
  shows "shim_accept h ret haddr False None = Inl Undefined \<and> shim_recvfrom h 0 ret haddr False None = Inr (ret, None) \<and>
    shim_accept h (- 1) haddr False None = Inr (- 1, None)"
  using assms by (auto simp: shim_accept_def shim_recvfrom_def store_if_def sockaddr_out_apply_def get_bionic_len_def)

theorem accept_without_address_witness:
  "shim_accept linux_net 7 (Addr 2 (In4 80 1)) False None = Inl Undefined"
  using accept_without_address [OF linux_net_ok, of 7 "Addr 2 (In4 80 1)"] by (simp add: linux_net_def)

end
