(* ===== verification/Spec2Isabelle.thy ===== *)
theory Spec2Isabelle
  imports Ipc_Properties Cll_Properties Cll_Buffered Ld_List Ld_Symbols Base64 Util_Props Util_Files Mod_Loader Hooks Joystick
    Shim_Errno Shim_Network
begin

text \<open>
  A verification library for parts of the Minecraft Bedrock launcher for Linux (the directories under
  \<^verbatim>\<open>src/\<close>). Every theory opens with a description of the code it models; definitions keep the names of the source.

  \<^bold>\<open>Conventions.\<close> A function that may throw, abort or run into undefined behaviour returns a value of \<open>'a cxx\<close>
  (theory \<open>Prelude\<close>), a sum whose left side is the error. Machine integers are words of their width. A loop that may
  run forever is a partial function into \<open>option\<close> in which \<open>None\<close> stands for not returning, so a theorem
  that gives \<open>Some\<close> also states termination. One loop of the code has fuel, \<open>copy_down\<close> in
  \<open>Cll_File\<close>: the length of the file is enough, since every turn reads at least one byte, and the laws are proved for that amount. Libraries outside of \<^verbatim>\<open>src/\<close> (the JSON library,
  the system calls, the constants of the host) are parameters with their documented behaviour as hypotheses. Every operation is atomic: mutexes and
  threads are not modelled.

  \<^bold>\<open>Inter-process calls\<close> (\<^verbatim>\<open>simple-ipc\<close>). \<open>Varint\<close> has the length prefix, \<open>Ipc_Message\<close> and \<open>Ipc_Encoding\<close> the messages and
  the two encodings, \<open>Ipc_Connection\<close> the receive buffer and message loop, \<open>Ipc_Rpc\<close> the method table, the service and the client,
  \<open>Ipc_Unix\<close> the sockets and the event loop. \<open>Ipc_Properties\<close> has their properties: messages arrive complete and in order however the
  stream is cut, every call is answered exactly once, also when the connection closes, encodings are
  negotiated without mixing, sockets are closed once.

  \<^bold>\<open>Telemetry batches\<close> (\<^verbatim>\<open>cll-telemetry\<close>). \<open>Cll_Batch\<close> has the contract of a batch and the batch in memory, \<open>Cll_File\<close> the batch in a
  file, \<open>Cll_Multi\<close> the batch in numbered files; \<open>Cll_Properties\<close> shows that no event is lost, duplicated or
  reordered and under which conditions a batch is drained. \<open>Cll_Buffered\<close> puts a buffer in front of another batch: what an upload returns and
  acknowledges, and the flush between the two that makes it acknowledge the wrong events.

  \<^bold>\<open>Dynamic linker\<close> (\<^verbatim>\<open>mcpelauncher-linker\<close>). \<open>Ld_Utils\<close> has the path helpers, \<open>Ld_Alloc\<close> the block allocator and \<open>Ld_List\<close> the linked
  lists whose entries live in it: the lists refine plain lists, down to the cells of memory. \<open>Ld_Symbols\<close> has symbol lookup: the search
  through hash table and chain finds what a search of the whole symbol table finds, and which libraries it misses.

  \<^bold>\<open>Utilities and mods.\<close> \<open>Base64\<close> (\<^verbatim>\<open>base64\<close>) shows that decoding inverts encoding and what a text of a wrong length does. \<open>Util_Props\<close> has the
  property lists (\<^verbatim>\<open>properties-parser\<close>) and the command line (\<^verbatim>\<open>arg-parser\<close>), \<open>Util_Files\<close> the file helpers (\<^verbatim>\<open>file-util\<close>) and the search for data
  files (\<^verbatim>\<open>mcpelauncher-common\<close>) over system calls that are a parameter. \<open>Mod_Loader\<close> (\<^verbatim>\<open>mcpelauncher-core\<close>) reads the dependencies of mods
  and loads each mod after the mods it depends on. \<open>Hooks\<close> has the hook manager, which cannot create a hook in any state the program reaches
  because the code that reads symbol tables is commented out, and the translation of constructor names.

  \<^bold>\<open>Gamepads\<close> (\<^verbatim>\<open>linux-gamepad\<close>). \<open>Gamepad\<close> has mappings, gamepads and their manager: a mapping line is read as what it says, axis values stay in
  range, two gamepads can get the same number. \<open>Joystick\<close> has the devices and their events. Axis values are exact rational numbers.

  \<^bold>\<open>C library of the game\<close> (\<^verbatim>\<open>libc-shim\<close>). \<open>Shim_Errno\<close> translates error numbers and system parameters, \<open>Shim_Network\<close> socket constants,
  addresses and calls: translating to the host and back is the identity on the values both sides know.

  \<^bold>\<open>Not modelled.\<close> The program \<^verbatim>\<open>mcpelauncher-client\<close>, windows and dialogs (\<^verbatim>\<open>game-window\<close>, \<^verbatim>\<open>eglut\<close>, \<^verbatim>\<open>file-picker\<close>,
  \<^verbatim>\<open>mcpelauncher-errorwindow\<close>, \<^verbatim>\<open>mcpelauncher-webview\<close>) and the Java interfaces (\<^verbatim>\<open>baron\<close>, \<^verbatim>\<open>fake-jni\<close>, \<^verbatim>\<open>libjnivm\<close>) are calls of
  graphics, Qt and JNI code or templates over function pointers. Loading, relocation and namespaces of the linker and the patches of
  \<^verbatim>\<open>mcpelauncher-core\<close> change the address space and machine code of the process. The rest of \<^verbatim>\<open>cll-telemetry\<close> (configuration, upload, HTTP)
  and of \<^verbatim>\<open>libc-shim\<close> (files, threads, variadic functions), \<^verbatim>\<open>daemon-utils\<close>, \<^verbatim>\<open>msa-daemon-client\<close> and \<^verbatim>\<open>epoll-shim\<close> is mostly calls of
  libraries, the clock and threads; \<^verbatim>\<open>logger\<close> only prints. In \<^verbatim>\<open>simple-ipc\<close> the blocking calls and the kqueue event loop are left out, in
  \<^verbatim>\<open>linux-gamepad\<close> the calls of udev, in \<^verbatim>\<open>arg-parser\<close> the printed help.
\<close>

end
